theory Spec2Isabelle
  imports Complex_Main "HOL-Library.Sublist"
begin

section \<open>Data model\<close>

text \<open>
  The rows of the three tables the sync route touches.  Field names are the source's,
  with a prefix per record (\<open>s_\<close> store, \<open>c_\<close> customer row, \<open>o_\<close> order row,
  \<open>rc_\<close> raw customer, \<open>ro_\<close> raw order), since \<open>id\<close> is a HOL constant and several
  records share \<open>id\<close>, \<open>shopifyId\<close> and \<open>storeId\<close>.

  The Prisma models of Customer and Order are not part of the sources (the README
  elides them).  What the code shows is used: the compound unique key
  \<open>shopifyId_storeId\<close> and the fields written by \<open>create\<close> and \<open>update\<close>.  The columns
  the code writes from optional payload keys are taken to be nullable and without a
  default, as the data model of the specification describes them.  Local identifiers
  are generated by the database; they are modelled as naturals drawn from a counter,
  so that each created row gets a fresh one.  A stored date is the time value of the
  JavaScript \<open>Date\<close>, in milliseconds.  The column type of \<open>totalPrice\<close> is a type
  parameter \<open>'p\<close>.
\<close>

record store =
  s_id :: string
  s_shop :: string
  s_accessToken :: string
  s_userId :: string

record customer =
  c_id :: nat
  c_shopifyId :: string
  c_email :: "string option"
  c_firstName :: "string option"
  c_lastName :: "string option"
  c_storeId :: string

record 'p order =
  o_id :: nat
  o_shopifyId :: string
  o_orderNumber :: "string option"
  o_totalPrice :: 'p
  o_currency :: "string option"
  o_financialStatus :: "string option"
  o_fulfillmentStatus :: "string option"
  o_processedAt :: "int option"
  o_storeId :: string
  o_customerId :: "nat option"

text \<open>
  A key of a JSON payload as JavaScript reads it: the key is absent (the read gives
  \<open>undefined\<close>), or its value is \<open>null\<close>, or it has a value.
\<close>

datatype 'a field = Absent | Null | Val 'a

text \<open>
  The records of the Shopify payloads, with the optional keys of the source's
  \<open>ShopifyCustomer\<close> and \<open>ShopifyOrder\<close> types.  \<open>id\<close> is kept in its \<open>toString()\<close>
  form; \<open>ro_customer\<close> is the \<open>id\<close> of the embedded \<open>customer\<close> object, \<open>None\<close> when
  \<open>orderData.customer\<close> is absent or \<open>null\<close>.
\<close>

record raw_customer =
  rc_id :: string
  rc_email :: "string field"
  rc_first_name :: "string field"
  rc_last_name :: "string field"

record raw_order =
  ro_id :: string
  ro_name :: "string field"
  ro_total_price :: "string field"
  ro_currency :: "string field"
  ro_financial_status :: "string field"
  ro_fulfillment_status :: "string field"
  ro_processed_at :: "string field"
  ro_customer :: "string option"

text \<open>
  The two library functions the order loop calls are parameters of the model:
  \<open>parseFloat\<close>, applied to whatever the key \<open>total_price\<close> reads as, and \<open>new Date\<close>,
  which gives the time value of the date, or \<open>None\<close> for an invalid date.
\<close>

record 'p js =
  parseFloat :: "string field \<Rightarrow> 'p"
  newDate :: "string \<Rightarrow> int option"

section \<open>Effects: the trace and the state of a run\<close>

text \<open>
  Every effect of the route is recorded, in order, in a trace: the requests sent to
  Shopify, the Prisma calls with whether they resolved, and the console lines.
\<close>

datatype event =
    SyncStarting string
  | Fetch string
  | FetchedCustomers nat
  | CustomerUpsert string bool
  | ErrorUpsertingCustomer string
  | UpsertedCustomers nat
  | FailedFetchCustomers string
  | FetchedOrders nat
  | CustomerFindUnique string bool
  | OrderUpsert string bool
  | ErrorUpsertingOrder string
  | UpsertedOrders nat
  | FailedFetchOrders string
  | ErrorDuringSync string
  | UserRequestingSync string
  | NoStoreFound string
  | FoundStore string string
  | FailedToStartSync string
  | BackgroundSyncFailed string

record 'p world =
  stores :: "store list"
  customers :: "customer list"
  orders :: "'p order list"
  next_id :: nat
  calls :: nat
  trace :: "event list"

text \<open>
  A Prisma call can reject.  Which calls do is an input of the model: \<open>flt n\<close> is the
  message of the error the \<open>n\<close>-th Prisma call rejects with, or \<open>None\<close> when it
  resolves.  \<open>calls\<close> counts the Prisma calls made so far.
\<close>

type_synonym faults = "nat \<Rightarrow> string option"

text \<open>
  A call either returns a value or throws; both leave a state behind.  \<open>Threw\<close> carries
  the message of the error.
\<close>

datatype ('a, 'w) outcome = Returned 'a 'w | Threw string 'w

fun state_of :: "('a, 'w) outcome \<Rightarrow> 'w" where
  "state_of (Returned _ w) = w"
| "state_of (Threw _ w) = w"

definition emit :: "event \<Rightarrow> 'p world \<Rightarrow> 'p world" where
  "emit e w = w\<lparr>trace := trace w @ [e]\<rparr>"

definition tick :: "'p world \<Rightarrow> 'p world" where
  "tick w = w\<lparr>calls := Suc (calls w)\<rparr>"

section \<open>The Prisma operations of the sync route\<close>

definition customer_key :: "string \<Rightarrow> string \<Rightarrow> customer \<Rightarrow> bool" where
  "customer_key sh st c \<longleftrightarrow> c_shopifyId c = sh \<and> c_storeId c = st"

definition order_key :: "string \<Rightarrow> string \<Rightarrow> 'p order \<Rightarrow> bool" where
  "order_key sh st r \<longleftrightarrow> o_shopifyId r = sh \<and> o_storeId r = st"

definition customer_findUnique :: "string \<Rightarrow> string \<Rightarrow> 'p world \<Rightarrow> customer option" where
  "customer_findUnique sh st w = find (customer_key sh st) (customers w)"

definition order_findUnique :: "string \<Rightarrow> string \<Rightarrow> 'p world \<Rightarrow> 'p order option" where
  "order_findUnique sh st w = find (order_key sh st) (orders w)"

text \<open>
  How Prisma treats a value of \<open>data\<close>: in \<open>update\<close>, \<open>undefined\<close> leaves the column as
  it is stored, \<open>null\<close> sets it to NULL, a value sets it; in \<open>create\<close>, \<open>undefined\<close>
  leaves the column out, so that it is NULL.
\<close>

definition field_update :: "'a field \<Rightarrow> 'a option \<Rightarrow> 'a option" where
  "field_update f stored = (case f of Absent \<Rightarrow> stored | Null \<Rightarrow> None | Val v \<Rightarrow> Some v)"

definition field_create :: "'a field \<Rightarrow> 'a option" where
  "field_create f = (case f of Absent \<Rightarrow> None | Null \<Rightarrow> None | Val v \<Rightarrow> Some v)"

definition customer_update :: "raw_customer \<Rightarrow> customer \<Rightarrow> customer" where
  "customer_update customerData c =
     c\<lparr>c_email := field_update (rc_email customerData) (c_email c),
       c_firstName := field_update (rc_first_name customerData) (c_firstName c),
       c_lastName := field_update (rc_last_name customerData) (c_lastName c)\<rparr>"

definition customer_create :: "nat \<Rightarrow> string \<Rightarrow> raw_customer \<Rightarrow> customer" where
  "customer_create i st customerData =
     \<lparr>c_id = i,
      c_shopifyId = rc_id customerData,
      c_email = field_create (rc_email customerData),
      c_firstName = field_create (rc_first_name customerData),
      c_lastName = field_create (rc_last_name customerData),
      c_storeId = st\<rparr>"

text \<open>\<open>prisma.customer.upsert\<close> on the key \<open>shopifyId_storeId\<close>, when it resolves.\<close>

definition customer_upsert :: "string \<Rightarrow> raw_customer \<Rightarrow> 'p world \<Rightarrow> 'p world" where
  "customer_upsert st customerData w =
     (case customer_findUnique (rc_id customerData) st w of
        Some _ \<Rightarrow>
          w\<lparr>customers :=
              map (\<lambda>c. if customer_key (rc_id customerData) st c
                        then customer_update customerData c else c) (customers w)\<rparr>
      | None \<Rightarrow>
          w\<lparr>customers := customers w @ [customer_create (next_id w) st customerData],
            next_id := Suc (next_id w)\<rparr>)"

text \<open>
  \<open>orderData.processed_at ? new Date(orderData.processed_at) : null\<close>: an absent key,
  \<open>null\<close> and the empty string are falsy and give \<open>null\<close>.  The result is \<open>None\<close> when
  the \<open>Date\<close> built is invalid, \<open>Some None\<close> for \<open>null\<close>, and the time value otherwise.
\<close>

definition processedAt_of :: "'p js \<Rightarrow> raw_order \<Rightarrow> int option option" where
  "processedAt_of js orderData =
     (case ro_processed_at orderData of
        Val s \<Rightarrow>
          if s = [] then Some None
          else (case newDate js s of None \<Rightarrow> None | Some t \<Rightarrow> Some (Some t))
      | _ \<Rightarrow> Some None)"

definition order_update :: "'p js \<Rightarrow> raw_order \<Rightarrow> 'p order \<Rightarrow> 'p order" where
  "order_update js orderData r =
     r\<lparr>o_financialStatus :=
         field_update (ro_financial_status orderData) (o_financialStatus r),
       o_fulfillmentStatus :=
         field_update (ro_fulfillment_status orderData) (o_fulfillmentStatus r),
       o_totalPrice := parseFloat js (ro_total_price orderData)\<rparr>"

definition order_create ::
  "'p js \<Rightarrow> nat \<Rightarrow> string \<Rightarrow> raw_order \<Rightarrow> int option \<Rightarrow> customer option \<Rightarrow> 'p order" where
  "order_create js i st orderData processedAt cust =
     \<lparr>o_id = i,
      o_shopifyId = ro_id orderData,
      o_orderNumber = field_create (ro_name orderData),
      o_totalPrice = parseFloat js (ro_total_price orderData),
      o_currency = field_create (ro_currency orderData),
      o_financialStatus = field_create (ro_financial_status orderData),
      o_fulfillmentStatus = field_create (ro_fulfillment_status orderData),
      o_processedAt = processedAt,
      o_storeId = st,
      o_customerId = map_option c_id cust\<rparr>"

text \<open>
  \<open>prisma.order.upsert\<close> on the key \<open>shopifyId_storeId\<close>, when it resolves;
  \<open>processedAt\<close> is the valid date, or \<open>null\<close>, of the \<open>create\<close> clause.
\<close>

definition order_upsert ::
  "'p js \<Rightarrow> string \<Rightarrow> raw_order \<Rightarrow> int option \<Rightarrow> customer option \<Rightarrow> 'p world \<Rightarrow> 'p world" where
  "order_upsert js st orderData processedAt cust w =
     (case order_findUnique (ro_id orderData) st w of
        Some _ \<Rightarrow>
          w\<lparr>orders :=
              map (\<lambda>r. if order_key (ro_id orderData) st r
                        then order_update js orderData r else r) (orders w)\<rparr>
      | None \<Rightarrow>
          w\<lparr>orders := orders w @ [order_create js (next_id w) st orderData processedAt cust],
            next_id := Suc (next_id w)\<rparr>)"

section \<open>The loops of \<open>syncHistoricalData\<close> (sync route)\<close>

text \<open>
  The body of the customer loop: the upsert inside \<open>try\<close>, the \<open>catch\<close> that logs.
\<close>

definition customer_item :: "faults \<Rightarrow> string \<Rightarrow> 'p world \<Rightarrow> raw_customer \<Rightarrow> 'p world" where
  "customer_item flt st w customerData =
     (case flt (calls w) of
        None \<Rightarrow>
          emit (CustomerUpsert (rc_id customerData) True)
            (customer_upsert st customerData (tick w))
      | Some err \<Rightarrow>
          emit (ErrorUpsertingCustomer (rc_id customerData))
            (emit (CustomerUpsert (rc_id customerData) False) (tick w)))"

text \<open>
  The body of the order loop: the lookup of the embedded customer (only when the
  order has one), then the upsert; a rejection of either call goes to the \<open>catch\<close>.
  Prisma checks the arguments of a call before it queries, so the upsert also rejects
  when the \<open>Date\<close> of its \<open>create\<close> clause is invalid, whether or not the row exists.
  Every other cause of a rejection, such as a value that the schema does not admit,
  is a fault of the schedule.
\<close>

definition order_write ::
  "faults \<Rightarrow> 'p js \<Rightarrow> string \<Rightarrow> raw_order \<Rightarrow> customer option \<Rightarrow> 'p world \<Rightarrow> 'p world" where
  "order_write flt js st orderData cust w =
     (case flt (calls w) of
        Some err \<Rightarrow>
          emit (ErrorUpsertingOrder (ro_id orderData))
            (emit (OrderUpsert (ro_id orderData) False) (tick w))
      | None \<Rightarrow>
          (case processedAt_of js orderData of
             None \<Rightarrow>
               emit (ErrorUpsertingOrder (ro_id orderData))
                 (emit (OrderUpsert (ro_id orderData) False) (tick w))
           | Some processedAt \<Rightarrow>
               emit (OrderUpsert (ro_id orderData) True)
                 (order_upsert js st orderData processedAt cust (tick w))))"

definition order_item ::
  "faults \<Rightarrow> 'p js \<Rightarrow> string \<Rightarrow> 'p world \<Rightarrow> raw_order \<Rightarrow> 'p world" where
  "order_item flt js st w orderData =
     (case ro_customer orderData of
        None \<Rightarrow> order_write flt js st orderData None w
      | Some cid \<Rightarrow>
          (case flt (calls w) of
             None \<Rightarrow>
               order_write flt js st orderData (customer_findUnique cid st w)
                 (emit (CustomerFindUnique cid True) (tick w))
           | Some err \<Rightarrow>
               emit (ErrorUpsertingOrder (ro_id orderData))
                 (emit (CustomerFindUnique cid False) (tick w))))"

fun customers_loop :: "faults \<Rightarrow> string \<Rightarrow> 'p world \<Rightarrow> raw_customer list \<Rightarrow> 'p world" where
  "customers_loop flt st w [] = w"
| "customers_loop flt st w (customerData # rest) =
     customers_loop flt st (customer_item flt st w customerData) rest"

fun orders_loop ::
  "faults \<Rightarrow> 'p js \<Rightarrow> string \<Rightarrow> 'p world \<Rightarrow> raw_order list \<Rightarrow> 'p world" where
  "orders_loop flt js st w [] = w"
| "orders_loop flt js st w (orderData # rest) =
     orders_loop flt js st (order_item flt js st w orderData) rest"

section \<open>Responses of the Shopify API\<close>

text \<open>
  What \<open>fetch\<close> gives: it rejects, or resolves to a response with its \<open>ok\<close> flag, its
  text, its JSON value (\<open>None\<close> when \<open>json()\<close> rejects), and its \<open>link\<close> header.  Of the
  JSON value only the two keys the code reads are kept; a key is \<open>None\<close> when the
  object has no such key.  Reading the text of a response is taken to succeed.  The
  API is a function of the URL and the access token.
\<close>

record json_body =
  customers_field :: "raw_customer list option"
  orders_field :: "raw_order list option"

record response =
  r_ok :: bool
  r_text :: string
  r_json :: "json_body option"
  r_link :: "string option"

datatype fetched = Rejected string | Responded response

type_synonym api = "string \<Rightarrow> string \<Rightarrow> fetched"

section \<open>\<open>syncHistoricalData\<close> of the sync route\<close>

definition customersApiUrl :: "string \<Rightarrow> string" where
  "customersApiUrl shop = ''https://'' @ shop @ ''/admin/api/2024-07/customers.json?limit=250''"

definition ordersApiUrl :: "string \<Rightarrow> string" where
  "ordersApiUrl shop = ''https://'' @ shop @ ''/admin/api/2024-07/orders.json?status=any&limit=250''"

text \<open>
  The \<open>if (customersResponse.ok) ... else ...\<close> block.  Reading \<open>customers.length\<close> of a
  body without the key throws a TypeError, which only the outer \<open>catch\<close> handles.
\<close>

definition customers_phase ::
  "faults \<Rightarrow> store \<Rightarrow> response \<Rightarrow> 'p world \<Rightarrow> (unit, 'p world) outcome" where
  "customers_phase flt st r w =
     (if r_ok r then
        (case r_json r of
           None \<Rightarrow> Threw ''SyntaxError'' w
         | Some b \<Rightarrow>
             (case customers_field b of
                None \<Rightarrow> Threw ''TypeError'' w
              | Some cs \<Rightarrow>
                  Returned ()
                    (emit (UpsertedCustomers (length cs))
                       (customers_loop flt (s_id st) (emit (FetchedCustomers (length cs)) w) cs))))
      else Returned () (emit (FailedFetchCustomers (r_text r)) w))"

definition orders_phase ::
  "faults \<Rightarrow> 'p js \<Rightarrow> store \<Rightarrow> response \<Rightarrow> 'p world \<Rightarrow> (unit, 'p world) outcome" where
  "orders_phase flt js st r w =
     (if r_ok r then
        (case r_json r of
           None \<Rightarrow> Threw ''SyntaxError'' w
         | Some b \<Rightarrow>
             (case orders_field b of
                None \<Rightarrow> Threw ''TypeError'' w
              | Some os \<Rightarrow>
                  Returned ()
                    (emit (UpsertedOrders (length os))
                       (orders_loop flt js (s_id st) (emit (FetchedOrders (length os)) w) os))))
      else Returned () (emit (FailedFetchOrders (r_text r)) w))"

text \<open>The statements inside the outer \<open>try\<close>.\<close>

definition fetch_orders_then ::
  "api \<Rightarrow> faults \<Rightarrow> 'p js \<Rightarrow> store \<Rightarrow> 'p world \<Rightarrow> (unit, 'p world) outcome" where
  "fetch_orders_then shopify flt js st w =
     (let w1 = emit (Fetch (ordersApiUrl (s_shop st))) w in
      case shopify (ordersApiUrl (s_shop st)) (s_accessToken st) of
        Rejected m \<Rightarrow> Threw m w1
      | Responded r \<Rightarrow> orders_phase flt js st r w1)"

definition sync_try ::
  "api \<Rightarrow> faults \<Rightarrow> 'p js \<Rightarrow> store \<Rightarrow> 'p world \<Rightarrow> (unit, 'p world) outcome" where
  "sync_try shopify flt js st w =
     (let w1 = emit (Fetch (customersApiUrl (s_shop st))) w in
      case shopify (customersApiUrl (s_shop st)) (s_accessToken st) of
        Rejected m \<Rightarrow> Threw m w1
      | Responded r \<Rightarrow>
          (case customers_phase flt st r w1 of
             Threw m w2 \<Rightarrow> Threw m w2
           | Returned _ w2 \<Rightarrow> fetch_orders_then shopify flt js st w2))"

text \<open>The whole function: the first log line, the \<open>try\<close>, and the \<open>catch\<close> that logs.\<close>

definition syncHistoricalData ::
  "api \<Rightarrow> faults \<Rightarrow> 'p js \<Rightarrow> store \<Rightarrow> 'p world \<Rightarrow> (unit, 'p world) outcome" where
  "syncHistoricalData shopify flt js st w =
     (case sync_try shopify flt js st (emit (SyncStarting (s_shop st)) w) of
        Returned _ w' \<Rightarrow> Returned () w'
      | Threw m w' \<Rightarrow> Returned () (emit (ErrorDuringSync m) w'))"

section \<open>The \<open>POST\<close> handler of the sync route\<close>

datatype json_value = JBool bool | JString string

record http_response =
  status :: nat
  body :: "(string \<times> json_value) list"

text \<open>
  The inputs of a request: the outcome of the connectivity race, what \<open>currentUser()\<close>
  does (it rejects with a message, or gives the signed-in user's \<open>id\<close>, \<open>None\<close> when
  there is no user), and the two query parameters.
\<close>

record request =
  dbOk :: bool
  currentUser :: "string + string option"
  storeIdParam :: "string option"
  waitParam :: "string option"

fun str_includes :: "string \<Rightarrow> string \<Rightarrow> bool" where
  "str_includes [] t = (t = [])"
| "str_includes (c # cs) t = (prefix t (c # cs) \<or> str_includes cs t)"

definition store_findUnique :: "string \<Rightarrow> 'p world \<Rightarrow> store option" where
  "store_findUnique i w = find (\<lambda>s. s_id s = i) (stores w)"

definition store_findFirst_userId :: "string \<Rightarrow> 'p world \<Rightarrow> store option" where
  "store_findFirst_userId u w = find (\<lambda>s. s_userId s = u) (stores w)"

definition store_findFirst :: "'p world \<Rightarrow> store option" where
  "store_findFirst w = (case stores w of [] \<Rightarrow> None | s # _ \<Rightarrow> Some s)"

text \<open>A query on the store table: it rejects when the fault schedule says so.\<close>

definition store_query ::
  "faults \<Rightarrow> ('p world \<Rightarrow> store option) \<Rightarrow> 'p world \<Rightarrow> (store option, 'p world) outcome" where
  "store_query flt q w =
     (case flt (calls w) of
        None \<Rightarrow> Returned (q w) (tick w)
      | Some m \<Rightarrow> Threw m (tick w))"

definition json_error :: "nat \<Rightarrow> string \<Rightarrow> http_response" where
  "json_error st msg = \<lparr>status = st, body = [(''error'', JString msg)]\<rparr>"

text \<open>
  The resolution of the store (the \<open>if (storeIdParam) ... else ...\<close> block): it gives the
  store to sync, or the response that ends the request.
\<close>

definition resolve_store ::
  "faults \<Rightarrow> string \<Rightarrow> string option \<Rightarrow> 'p world \<Rightarrow> (http_response + store, 'p world) outcome" where
  "resolve_store flt uid p w =
     (if p \<noteq> None \<and> p \<noteq> Some [] then
        (case store_query flt (store_findUnique (the p)) w of
           Threw m w1 \<Rightarrow> Threw m w1
         | Returned None w1 \<Rightarrow>
             Returned (Inl (json_error 404 ''Store not found for provided storeId.'')) w1
         | Returned (Some s) w1 \<Rightarrow>
             if s_userId s \<noteq> uid
             then Returned (Inl (json_error 403 ''You do not have access to this store.'')) w1
             else Returned (Inr s) w1)
      else
        (case store_query flt (store_findFirst_userId uid) w of
           Threw m w1 \<Rightarrow> Threw m w1
         | Returned (Some s) w1 \<Rightarrow> Returned (Inr s) w1
         | Returned None w1 \<Rightarrow>
             (case store_query flt store_findFirst w1 of
                Threw m w2 \<Rightarrow> Threw m w2
              | Returned (Some s) w2 \<Rightarrow> Returned (Inr s) w2
              | Returned None w2 \<Rightarrow>
                  Returned (Inl (json_error 404 ''No store connected and no stores found.''))
                    (emit (NoStoreFound uid) w2))))"

text \<open>
  The dispatch.  With \<open>wait=true\<close> the run is awaited.  Otherwise the run is detached:
  the response does not depend on it, and a rejection of the run is only logged.  The
  model returns the state once the detached run has ended.
\<close>

definition dispatch ::
  "api \<Rightarrow> faults \<Rightarrow> 'p js \<Rightarrow> request \<Rightarrow> store \<Rightarrow> 'p world
     \<Rightarrow> (http_response, 'p world) outcome" where
  "dispatch shopify flt js req st w =
     (if waitParam req = Some ''true'' then
        (case syncHistoricalData shopify flt js st w of
           Threw m w' \<Rightarrow> Threw m w'
         | Returned _ w' \<Rightarrow>
             Returned \<lparr>status = 200,
                       body = [(''ok'', JBool True), (''message'', JString ''Sync completed'')]\<rparr> w')
      else
        (case syncHistoricalData shopify flt js st w of
           Threw m w' \<Rightarrow>
             Returned \<lparr>status = 202,
                       body = [(''ok'', JBool True), (''message'', JString ''Sync started'')]\<rparr>
               (emit (BackgroundSyncFailed m) w')
         | Returned _ w' \<Rightarrow>
             Returned \<lparr>status = 202,
                       body = [(''ok'', JBool True), (''message'', JString ''Sync started'')]\<rparr> w'))"

definition POST_try ::
  "api \<Rightarrow> faults \<Rightarrow> 'p js \<Rightarrow> request \<Rightarrow> 'p world
     \<Rightarrow> (http_response, 'p world) outcome" where
  "POST_try shopify flt js req w =
     (if \<not> dbOk req then
        Returned \<lparr>status = 503,
          body = [(''error'', JString
                    ''Database is unreachable. Please check DATABASE_URL and network connectivity and try again.''),
                  (''hint'', JString
                    ''Verify your DB server is running and accessible from this environment.'')]\<rparr> w
      else
        (case currentUser req of
           Inl m \<Rightarrow> Threw m w
         | Inr user \<Rightarrow>
             if user = None \<or> user = Some [] then
               Returned (json_error 401 ''Not authenticated'') w
             else
               (let uid = the user in
                case resolve_store flt uid (storeIdParam req) (emit (UserRequestingSync uid) w) of
                  Threw m w1 \<Rightarrow> Threw m w1
                | Returned (Inl resp) w1 \<Rightarrow> Returned resp w1
                | Returned (Inr st) w1 \<Rightarrow>
                    dispatch shopify flt js req st (emit (FoundStore (s_shop st) uid) w1))))"

definition isDbDown :: "string \<Rightarrow> bool" where
  "isDbDown message \<longleftrightarrow>
     str_includes message (''Can'' @ [CHR 0x27] @ ''t reach database server'') \<or>
     str_includes message ''getaddrinfo ENOTFOUND'' \<or>
     str_includes message ''connect ECONNREFUSED'' \<or>
     str_includes message ''PrismaClientInitializationError''"

definition POST ::
  "api \<Rightarrow> faults \<Rightarrow> 'p js \<Rightarrow> request \<Rightarrow> 'p world \<Rightarrow> http_response \<times> 'p world" where
  "POST shopify flt js req w =
     (case POST_try shopify flt js req w of
        Returned resp w' \<Rightarrow> (resp, w')
      | Threw message w' \<Rightarrow>
          (json_error (if isDbDown message then 503 else 500)
             (if isDbDown message
              then ''Database is unreachable. Please try again later.'' else message),
           emit (FailedToStartSync message) w'))"

section \<open>\<open>fetchAllFromShopify\<close> (paginated sync variant)\<close>

text \<open>
  The response as this function reads it: the \<open>ok\<close> flag, the text, the value
  \<open>data[Object.keys(data)[0]]\<close> (the array under the first key of the JSON object;
  \<open>None\<close> when \<open>json()\<close> rejects), and the \<open>link\<close> header.
\<close>

record 'r page_response =
  p_ok :: bool
  p_text :: string
  p_data :: "'r list option"
  p_link :: "string option"

datatype 'r fetched_page = PageRejected string | PageResponded "'r page_response"

text \<open>
  \<open>linkHeader.match(/<([^>]+)>;\s*rel="next"/)\<close>, the first group of the leftmost
  match.  A match starts at a \<open><\<close>; the group is the run of characters up to the next
  \<open>>\<close> and is not empty; then \<open>>;\<close>, white space, and \<open>rel="next"\<close> follow.
\<close>

definition is_space :: "char \<Rightarrow> bool" where
  "is_space c \<longleftrightarrow> c \<in> set [CHR 0x20, CHR 0x09, CHR 0x0A, CHR 0x0B, CHR 0x0C, CHR 0x0D, CHR 0xA0]"

definition rel_next :: string where
  "rel_next = ''rel='' @ [CHR 0x22] @ ''next'' @ [CHR 0x22]"

definition match_here :: "string \<Rightarrow> string option" where
  "match_here s =
     (case s of
        [] \<Rightarrow> None
      | c # t \<Rightarrow>
          if c = CHR ''<'' then
            (let g = takeWhile (\<lambda>x. x \<noteq> CHR ''>'') t;
                 rest = dropWhile (\<lambda>x. x \<noteq> CHR ''>'') t
             in if g \<noteq> [] \<and> prefix ''>;'' rest
                   \<and> prefix rel_next (dropWhile is_space (drop 2 rest))
                then Some g else None)
          else None)"

fun next_link :: "string \<Rightarrow> string option" where
  "next_link [] = None"
| "next_link (c # cs) =
     (case match_here (c # cs) of Some g \<Rightarrow> Some g | None \<Rightarrow> next_link cs)"

text \<open>
  The \<open>while (nextUrl)\<close> loop.  Nothing bounds the number of pages a server can link,
  so the loop is a partial function: \<open>None\<close> is a run that never ends.  The state
  left behind is the list of the URLs requested, in order.
\<close>

partial_function (option) fetchAll_loop ::
  "(string \<Rightarrow> string \<Rightarrow> 'r fetched_page) \<Rightarrow> string \<Rightarrow> 'r list \<Rightarrow> string list \<Rightarrow> string option
     \<Rightarrow> ('r list, string list) outcome option" where
  "fetchAll_loop shopify accessToken results requests nextUrl =
     (if nextUrl = None \<or> nextUrl = Some [] then Some (Returned results requests)
      else
        (case shopify (the nextUrl) accessToken of
           PageRejected m \<Rightarrow> Some (Threw m (requests @ [the nextUrl]))
         | PageResponded res \<Rightarrow>
             if \<not> p_ok res then Some (Threw (p_text res) (requests @ [the nextUrl]))
             else
               (case p_data res of
                  None \<Rightarrow> Some (Threw ''SyntaxError'' (requests @ [the nextUrl]))
                | Some page \<Rightarrow>
                    fetchAll_loop shopify accessToken (results @ page) (requests @ [the nextUrl])
                      (case p_link res of None \<Rightarrow> None | Some h \<Rightarrow> next_link h))))"

declare fetchAll_loop.simps [code]

definition fetchAllFromShopify ::
  "(string \<Rightarrow> string \<Rightarrow> 'r fetched_page) \<Rightarrow> string \<Rightarrow> string
     \<Rightarrow> ('r list, string list) outcome option" where
  "fetchAllFromShopify shopify url accessToken = fetchAll_loop shopify accessToken [] [] (Some url)"

text \<open>
  A collection of pages as a server presents it: page \<open>i\<close> is served at \<open>us ! i\<close>, and
  its \<open>link\<close> header names \<open>us ! (i + 1)\<close> as the next page, the last page naming none.
\<close>

fun serves ::
  "(string \<Rightarrow> string \<Rightarrow> 'r fetched_page) \<Rightarrow> string \<Rightarrow> string list \<Rightarrow> 'r list list \<Rightarrow> bool" where
  "serves shopify tok [] [] = True"
| "serves shopify tok (u # us) (pg # pgs) =
     (u \<noteq> [] \<and>
      (case shopify u tok of
         PageRejected _ \<Rightarrow> False
       | PageResponded res \<Rightarrow>
           p_ok res \<and> p_data res = Some pg \<and>
           (case p_link res of None \<Rightarrow> None | Some h \<Rightarrow> next_link h)
             = (case us of [] \<Rightarrow> None | u' # _ \<Rightarrow> Some u')) \<and>
      serves shopify tok us pgs)"
| "serves shopify tok _ _ = False"

section \<open>\<open>withRetry\<close> (sync variant with retries)\<close>

definition isPoolTimeout :: "string \<Rightarrow> bool" where
  "isPoolTimeout message \<longleftrightarrow>
     str_includes message ''connection pool'' \<or>
     str_includes message ''P2024'' \<or>
     str_includes message ''Timed out fetching a new connection''"

text \<open>
  The \<open>while (true)\<close> loop of \<open>withRetry\<close>.  \<open>fn n\<close> is what the \<open>n\<close>-th invocation of the
  wrapped operation does: it resolves to a value or rejects with an error; \<open>msg\<close> is
  \<open>err instanceof Error ? err.message : String(err)\<close>.  The state is the number of
  invocations made and the delays slept, in order.  The label only appears in the
  warning line, which is not modelled.  Numbers are naturals: \<open>Math.pow\<close> and the
  product are exact as long as they stay below \<open>2^53\<close>.
\<close>

function withRetry_loop ::
  "('e \<Rightarrow> string) \<Rightarrow> (nat \<Rightarrow> 'e + 'a) \<Rightarrow> nat \<Rightarrow> nat \<Rightarrow> nat \<Rightarrow> nat \<times> nat list
     \<Rightarrow> ('e + 'a) \<times> nat \<times> nat list" where
  "withRetry_loop msg fn retries baseDelayMs attempt (invocations, delays) =
     (case fn invocations of
        Inr v \<Rightarrow> (Inr v, Suc invocations, delays)
      | Inl err \<Rightarrow>
          if Suc attempt > retries \<or> \<not> isPoolTimeout (msg err)
          then (Inl err, Suc invocations, delays)
          else withRetry_loop msg fn retries baseDelayMs (Suc attempt)
                 (Suc invocations, delays @ [baseDelayMs * 2 ^ (Suc attempt - 1)]))"
  by pat_completeness auto
termination
  by (relation "measure (\<lambda>(msg, fn, retries, baseDelayMs, attempt, st). Suc retries - attempt)") auto

declare withRetry_loop.simps [simp del]

definition withRetry ::
  "('e \<Rightarrow> string) \<Rightarrow> (nat \<Rightarrow> 'e + 'a) \<Rightarrow> string \<Rightarrow> nat \<Rightarrow> nat \<Rightarrow> ('e + 'a) \<times> nat \<times> nat list" where
  "withRetry msg fn label retries baseDelayMs = withRetry_loop msg fn retries baseDelayMs 0 (0, [])"

text \<open>
  The error values of the retry claims.  \<open>Error\<close> is the JavaScript error with its
  message.  \<open>RetryExhaustedError\<close> is the wrapper the specification names, with the
  attempt count, the label and the last failure; no function of the sources builds it.
\<close>

datatype js_error = Error string | RetryExhaustedError nat string js_error

fun message :: "js_error \<Rightarrow> string" where
  "message (Error m) = m"
| "message (RetryExhaustedError n l e) = message e"

fun is_RetryExhaustedError :: "js_error \<Rightarrow> bool" where
  "is_RetryExhaustedError (RetryExhaustedError _ _ _) = True"
| "is_RetryExhaustedError (Error _) = False"

section \<open>Properties of states and traces\<close>

text \<open>The unique constraint \<open>shopifyId_storeId\<close> of both tables.\<close>

definition unique_keys :: "'p world \<Rightarrow> bool" where
  "unique_keys w \<longleftrightarrow>
     distinct (map (\<lambda>c. (c_shopifyId c, c_storeId c)) (customers w)) \<and>
     distinct (map (\<lambda>r. (o_shopifyId r, o_storeId r)) (orders w))"

text \<open>The tables of a state, without the call counter and the trace.\<close>

definition tables :: "'p world \<Rightarrow> store list \<times> customer list \<times> 'p order list \<times> nat" where
  "tables w = (stores w, customers w, orders w, next_id w)"

text \<open>
  What an order item writes when both of its calls resolve: the row is upserted with
  the customer that the lookup finds.  Nothing is written when the date is invalid.
\<close>

definition apply_order :: "'p js \<Rightarrow> string \<Rightarrow> 'p world \<Rightarrow> raw_order \<Rightarrow> 'p world" where
  "apply_order js st w orderData =
     (case processedAt_of js orderData of
        None \<Rightarrow> w
      | Some processedAt \<Rightarrow>
          order_upsert js st orderData processedAt
            (case ro_customer orderData of
               None \<Rightarrow> None
             | Some cid \<Rightarrow> customer_findUnique cid st w) w)"

text \<open>
  What the loops are expected to do, item by item, when \<open>n\<close> Prisma calls were made
  before the loop: the events of the customer loop, and the customers whose upsert
  resolves.  Each customer takes one call.
\<close>

fun customer_events :: "faults \<Rightarrow> nat \<Rightarrow> raw_customer list \<Rightarrow> event list" where
  "customer_events flt n [] = []"
| "customer_events flt n (c # cs) =
     (if flt n = None then [CustomerUpsert (rc_id c) True]
      else [CustomerUpsert (rc_id c) False, ErrorUpsertingCustomer (rc_id c)])
     @ customer_events flt (Suc n) cs"

fun customers_resolved :: "faults \<Rightarrow> nat \<Rightarrow> raw_customer list \<Rightarrow> raw_customer list" where
  "customers_resolved flt n [] = []"
| "customers_resolved flt n (c # cs) =
     (if flt n = None then [c] else []) @ customers_resolved flt (Suc n) cs"

text \<open>
  The same for the order loop.  An order without an embedded customer takes one call,
  the upsert.  An order with one takes the lookup and, if the lookup resolves, the
  upsert.  The upsert resolves when the schedule has no fault for it and the date is
  valid.
\<close>

definition upsert_resolves :: "faults \<Rightarrow> 'p js \<Rightarrow> nat \<Rightarrow> raw_order \<Rightarrow> bool" where
  "upsert_resolves flt js n od \<longleftrightarrow> flt n = None \<and> processedAt_of js od \<noteq> None"

definition upsert_events :: "faults \<Rightarrow> 'p js \<Rightarrow> nat \<Rightarrow> raw_order \<Rightarrow> event list" where
  "upsert_events flt js n od =
     (if upsert_resolves flt js n od then [OrderUpsert (ro_id od) True]
      else [OrderUpsert (ro_id od) False, ErrorUpsertingOrder (ro_id od)])"

fun order_events :: "faults \<Rightarrow> 'p js \<Rightarrow> nat \<Rightarrow> raw_order list \<Rightarrow> event list" where
  "order_events flt js n [] = []"
| "order_events flt js n (od # os) =
     (case ro_customer od of
        None \<Rightarrow> upsert_events flt js n od @ order_events flt js (Suc n) os
      | Some cid \<Rightarrow>
          if flt n = None
          then CustomerFindUnique cid True # upsert_events flt js (Suc n) od
                 @ order_events flt js (Suc (Suc n)) os
          else [CustomerFindUnique cid False, ErrorUpsertingOrder (ro_id od)]
                 @ order_events flt js (Suc n) os)"

fun orders_resolved :: "faults \<Rightarrow> 'p js \<Rightarrow> nat \<Rightarrow> raw_order list \<Rightarrow> raw_order list" where
  "orders_resolved flt js n [] = []"
| "orders_resolved flt js n (od # os) =
     (case ro_customer od of
        None \<Rightarrow>
          (if upsert_resolves flt js n od then [od] else [])
          @ orders_resolved flt js (Suc n) os
      | Some cid \<Rightarrow>
          if flt n = None
          then (if upsert_resolves flt js (Suc n) od then [od] else [])
                 @ orders_resolved flt js (Suc (Suc n)) os
          else orders_resolved flt js (Suc n) os)"

text \<open>The columns of an order row that \<open>update\<close> does not list.\<close>

definition order_frame ::
  "'p order \<Rightarrow> nat \<times> string \<times> string option \<times> string option \<times> int option \<times> string \<times> nat option" where
  "order_frame r =
     (o_id r, o_shopifyId r, o_orderNumber r, o_currency r, o_processedAt r, o_storeId r,
      o_customerId r)"

fun is_customer_upsert :: "event \<Rightarrow> bool" where
  "is_customer_upsert (CustomerUpsert _ _) = True"
| "is_customer_upsert _ = False"

fun is_order_op :: "event \<Rightarrow> bool" where
  "is_order_op (CustomerFindUnique _ _) = True"
| "is_order_op (OrderUpsert _ _) = True"
| "is_order_op _ = False"

text \<open>
  A trace breaks the write order when an order operation (the lookup of an order's
  customer, or an order upsert) comes before a customer upsert.
\<close>

fun order_op_before_customer_upsert :: "event list \<Rightarrow> bool" where
  "order_op_before_customer_upsert [] = False"
| "order_op_before_customer_upsert (e # es) =
     ((is_order_op e \<and> list_ex is_customer_upsert es) \<or> order_op_before_customer_upsert es)"

fun is_fetch :: "event \<Rightarrow> bool" where
  "is_fetch (Fetch _) = True"
| "is_fetch _ = False"

section \<open>Concrete inputs\<close>


text \<open>
  The numbers of the examples: the value \<open>parseFloat\<close> gives is \<open>NaN\<close>, an infinity, or
  the mathematical value of the decimal literal it reads.  The code stores the double
  nearest to that value; the texts of the examples denote doubles exactly.
\<close>

datatype js_number = NaN | PlusInfinity | MinusInfinity | Num rat

definition digit_of :: "char \<Rightarrow> nat option" where
  "digit_of c =
     map_of [(CHR ''0'', 0), (CHR ''1'', 1), (CHR ''2'', 2), (CHR ''3'', 3), (CHR ''4'', 4),
             (CHR ''5'', 5), (CHR ''6'', 6), (CHR ''7'', 7), (CHR ''8'', 8), (CHR ''9'', 9)] c"

fun take_digits :: "string \<Rightarrow> nat list \<times> string" where
  "take_digits [] = ([], [])"
| "take_digits (c # cs) =
     (case digit_of c of
        None \<Rightarrow> ([], c # cs)
      | Some d \<Rightarrow> (case take_digits cs of (ds, r) \<Rightarrow> (d # ds, r)))"

definition nat_of_digits :: "nat list \<Rightarrow> nat" where
  "nat_of_digits ds = foldl (\<lambda>a d. 10 * a + d) 0 ds"

text \<open>
  The exponent part after the mantissa: \<open>e\<close> or \<open>E\<close>, an optional sign, and at least
  one digit; otherwise the literal ends before it.
\<close>

definition exponent_of :: "string \<Rightarrow> int" where
  "exponent_of r =
     (case r of
        [] \<Rightarrow> 0
      | c # t \<Rightarrow>
          if c = CHR ''e'' \<or> c = CHR ''E'' then
            (case t of
               [] \<Rightarrow> 0
             | s # u \<Rightarrow>
                 if s = CHR ''-'' then
                   (case take_digits u of (ds, _) \<Rightarrow>
                      if ds = [] then 0 else - int (nat_of_digits ds))
                 else if s = CHR ''+'' then
                   (case take_digits u of (ds, _) \<Rightarrow>
                      if ds = [] then 0 else int (nat_of_digits ds))
                 else
                   (case take_digits t of (ds, _) \<Rightarrow>
                      if ds = [] then 0 else int (nat_of_digits ds)))
          else 0)"

definition scale :: "rat \<Rightarrow> int \<Rightarrow> rat" where
  "scale m e = (if 0 \<le> e then m * 10 ^ nat e else m / 10 ^ nat (- e))"

text \<open>
  The longest prefix that is an unsigned decimal literal: \<open>Infinity\<close>, or digits with
  an optional fraction, or a fraction, each with an optional exponent part.
\<close>

definition unsigned_literal :: "string \<Rightarrow> js_number" where
  "unsigned_literal s =
     (if prefix ''Infinity'' s then PlusInfinity
      else
        (case take_digits s of (ds, r1) \<Rightarrow>
           (case (case r1 of
                    [] \<Rightarrow> ([], r1)
                  | c # t \<Rightarrow> if c = CHR ''.'' then take_digits t else ([], r1))
            of (fs, r2) \<Rightarrow>
              if ds = [] \<and> fs = [] then NaN
              else Num (scale (of_nat (nat_of_digits (ds @ fs)) / 10 ^ length fs)
                          (exponent_of r2)))))"

fun negate :: "js_number \<Rightarrow> js_number" where
  "negate NaN = NaN"
| "negate PlusInfinity = MinusInfinity"
| "negate MinusInfinity = PlusInfinity"
| "negate (Num r) = Num (- r)"

text \<open>
  \<open>parseFloat\<close> of a string: leading white space is skipped, then a sign and the
  literal are read.  Of \<open>undefined\<close> and \<open>null\<close> it is \<open>NaN\<close>, since their strings
  start with no literal.
\<close>

definition js_parseFloat :: "string field \<Rightarrow> js_number" where
  "js_parseFloat f =
     (case f of
        Val s \<Rightarrow>
          (case dropWhile is_space s of
             [] \<Rightarrow> NaN
           | c # t \<Rightarrow>
               if c = CHR ''-'' then negate (unsigned_literal t)
               else if c = CHR ''+'' then unsigned_literal t
               else unsigned_literal (c # t))
      | _ \<Rightarrow> NaN)"

text \<open>
  \<open>new Date\<close> on the date texts of the examples, as a table: one ISO date with its
  time value, and one text that is no date and has no entry.  The examples apply it
  to no other text.
\<close>

definition ex_dates :: "(string \<times> int) list" where
  "ex_dates = [(''2024-07-01T00:00:00Z'', 1719792000000)]"

definition ex_js :: "js_number js" where
  "ex_js = \<lparr>parseFloat = js_parseFloat, newDate = map_of ex_dates\<rparr>"

definition ex_store :: store where
  "ex_store = \<lparr>s_id = ''s1'', s_shop = ''a.myshopify.com'', s_accessToken = ''tok'',
                s_userId = ''alice''\<rparr>"

definition ex_customer :: raw_customer where
  "ex_customer = \<lparr>rc_id = ''7'', rc_email = Val ''ann@example.com'',
                   rc_first_name = Val ''Ann'', rc_last_name = Null\<rparr>"

text \<open>A payload of the same customer without the key \<open>email\<close>.\<close>

definition ex_customer_partial :: raw_customer where
  "ex_customer_partial = \<lparr>rc_id = ''7'', rc_email = Absent, rc_first_name = Val ''Ann'',
                           rc_last_name = Null\<rparr>"

definition ex_order :: raw_order where
  "ex_order = \<lparr>ro_id = ''100'', ro_name = Val ''#1001'', ro_total_price = Val ''9.50'',
                ro_currency = Val ''EUR'', ro_financial_status = Val ''paid'',
                ro_fulfillment_status = Null,
                ro_processed_at = Val ''2024-07-01T00:00:00Z'', ro_customer = Some ''7''\<rparr>"

text \<open>A payload of the same order without the key \<open>financial_status\<close>.\<close>

definition ex_order_partial :: raw_order where
  "ex_order_partial = ex_order\<lparr>ro_financial_status := Absent,
                                ro_fulfillment_status := Val ''fulfilled''\<rparr>"

definition ex_empty :: "js_number world" where
  "ex_empty = \<lparr>stores = [ex_store], customers = [], orders = [], next_id = 0, calls = 0,
                trace = []\<rparr>"

text \<open>A store that already holds customer 7 and order 100, which has no customer.\<close>

definition ex_stored :: "js_number world" where
  "ex_stored =
     \<lparr>stores = [ex_store],
      customers = [\<lparr>c_id = 1, c_shopifyId = ''7'', c_email = Some ''old@example.com'',
                    c_firstName = None, c_lastName = Some ''Lee'', c_storeId = ''s1''\<rparr>],
      orders = [\<lparr>o_id = 0, o_shopifyId = ''100'', o_orderNumber = Some ''#1001'',
                 o_totalPrice = Num 5, o_currency = Some ''USD'',
                 o_financialStatus = Some ''pending'', o_fulfillmentStatus = None,
                 o_processedAt = None, o_storeId = ''s1'', o_customerId = None\<rparr>],
      next_id = 2, calls = 0, trace = []\<rparr>"

definition no_faults :: faults where
  "no_faults n = None"

text \<open>
  A shop whose customer collection has two pages of one record each: the first page
  names the second in its \<open>link\<close> header.
\<close>

definition ex_page2_url :: string where
  "ex_page2_url = ''https://a.myshopify.com/admin/api/2024-07/customers.json?limit=250&page_info=p2''"

definition ex_link :: string where
  "ex_link = ''<'' @ ex_page2_url @ ''>; '' @ rel_next"

definition ex_customer2 :: raw_customer where
  "ex_customer2 = \<lparr>rc_id = ''8'', rc_email = Absent, rc_first_name = Val ''Bo'',
                    rc_last_name = Absent\<rparr>"

definition ex_shopify :: api where
  "ex_shopify url tok =
     (if url = customersApiUrl ''a.myshopify.com'' then
        Responded \<lparr>r_ok = True, r_text = [],
          r_json = Some \<lparr>customers_field = Some [ex_customer], orders_field = None\<rparr>,
          r_link = Some ex_link\<rparr>
      else if url = ex_page2_url then
        Responded \<lparr>r_ok = True, r_text = [],
          r_json = Some \<lparr>customers_field = Some [ex_customer2], orders_field = None\<rparr>,
          r_link = None\<rparr>
      else if url = ordersApiUrl ''a.myshopify.com'' then
        Responded \<lparr>r_ok = True, r_text = [],
          r_json = Some \<lparr>customers_field = None, orders_field = Some [ex_order]\<rparr>,
          r_link = None\<rparr>
      else Responded \<lparr>r_ok = False, r_text = ''Not Found'', r_json = None, r_link = None\<rparr>)"

text \<open>The same shop when the customers endpoint answers with an error status.\<close>

definition ex_shopify_401 :: api where
  "ex_shopify_401 url tok =
     (if url = customersApiUrl ''a.myshopify.com'' then
        Responded \<lparr>r_ok = False, r_text = ''Unauthorized'', r_json = None, r_link = None\<rparr>
      else ex_shopify url tok)"

text \<open>The same shop when the orders endpoint answers with an error status.\<close>

definition ex_shopify_500 :: api where
  "ex_shopify_500 url tok =
     (if url = ordersApiUrl ''a.myshopify.com'' then
        Responded \<lparr>r_ok = False, r_text = ''Internal Server Error'', r_json = None,
          r_link = None\<rparr>
      else ex_shopify url tok)"

text \<open>The same shop when both endpoints answer with an error status.\<close>

definition ex_shopify_503 :: api where
  "ex_shopify_503 url tok =
     Responded \<lparr>r_ok = False, r_text = ''Service Unavailable'', r_json = None, r_link = None\<rparr>"

text \<open>A shop that cannot be reached: every \<open>fetch\<close> rejects.\<close>

definition ex_shopify_down :: api where
  "ex_shopify_down url tok = Rejected ''fetch failed''"

text \<open>
  A shop with three customers and three orders: order 100 of customer 7, order 101
  without a customer and with a text that is no date, and order 102 of customer 8.
\<close>

definition ex_customer3 :: raw_customer where
  "ex_customer3 = \<lparr>rc_id = ''9'', rc_email = Null, rc_first_name = Absent,
                    rc_last_name = Val ''Cho''\<rparr>"

definition ex_order2 :: raw_order where
  "ex_order2 = \<lparr>ro_id = ''101'', ro_name = Val ''#1002'', ro_total_price = Val ''12'',
                 ro_currency = Val ''EUR'', ro_financial_status = Val ''paid'',
                 ro_fulfillment_status = Null, ro_processed_at = Val ''not-a-date'',
                 ro_customer = None\<rparr>"

definition ex_order3 :: raw_order where
  "ex_order3 = \<lparr>ro_id = ''102'', ro_name = Val ''#1003'', ro_total_price = Val ''0.25'',
                 ro_currency = Absent, ro_financial_status = Val ''pending'',
                 ro_fulfillment_status = Absent, ro_processed_at = Null,
                 ro_customer = Some ''8''\<rparr>"

definition ex_shopify_many :: api where
  "ex_shopify_many url tok =
     (if url = customersApiUrl ''a.myshopify.com'' then
        Responded \<lparr>r_ok = True, r_text = [],
          r_json = Some \<lparr>customers_field = Some [ex_customer, ex_customer2, ex_customer3],
                         orders_field = None\<rparr>,
          r_link = None\<rparr>
      else if url = ordersApiUrl ''a.myshopify.com'' then
        Responded \<lparr>r_ok = True, r_text = [],
          r_json = Some \<lparr>customers_field = None,
                         orders_field = Some [ex_order, ex_order2, ex_order3]\<rparr>,
          r_link = None\<rparr>
      else Responded \<lparr>r_ok = False, r_text = ''Not Found'', r_json = None, r_link = None\<rparr>)"

text \<open>A fault schedule: the second Prisma call rejects, all others resolve.\<close>

definition second_call_fails :: faults where
  "second_call_fails n = (if n = 1 then Some ''P2024'' else None)"

definition ex_pages :: "string \<Rightarrow> string \<Rightarrow> raw_customer fetched_page" where
  "ex_pages url tok =
     (if url = customersApiUrl ''a.myshopify.com'' then
        PageResponded \<lparr>p_ok = True, p_text = [], p_data = Some [ex_customer],
          p_link = Some ex_link\<rparr>
      else if url = ex_page2_url then
        PageResponded \<lparr>p_ok = True, p_text = [], p_data = Some [ex_customer2], p_link = None\<rparr>
      else PageResponded \<lparr>p_ok = False, p_text = ''Not Found'', p_data = None, p_link = None\<rparr>)"

definition ex_request :: request where
  "ex_request = \<lparr>dbOk = True, currentUser = Inr (Some ''alice''), storeIdParam = Some ''s1'',
                  waitParam = Some ''true''\<rparr>"

text \<open>A signed-in user who owns no store and names none.\<close>

definition ex_request_bob :: request where
  "ex_request_bob = \<lparr>dbOk = True, currentUser = Inr (Some ''bob''), storeIdParam = None,
                      waitParam = Some ''true''\<rparr>"

text \<open>
  Operations for \<open>withRetry\<close>: one that times out three times and then resolves, one
  that always times out, and one that fails with a constraint violation.
\<close>

definition ex_operation :: "nat \<Rightarrow> js_error + nat" where
  "ex_operation n = (if n < 3 then Inl (Error ''Timed out fetching a new connection'') else Inr 42)"

definition ex_pool_down :: "nat \<Rightarrow> js_error + nat" where
  "ex_pool_down n = Inl (Error ''P2024'')"

definition ex_constraint :: "nat \<Rightarrow> js_error + nat" where
  "ex_constraint n = Inl (Error ''Unique constraint failed'')"

section \<open>Lemmas and theorems\<close>


subsection \<open>State projections and lists\<close>

lemma emit_fields [simp]:
  "stores (emit e w) = stores w" "customers (emit e w) = customers w"
  "orders (emit e w) = orders w" "next_id (emit e w) = next_id w"
  "calls (emit e w) = calls w" "trace (emit e w) = trace w @ [e]"
  by (simp_all add: emit_def)

lemma tick_fields [simp]:
  "stores (tick w) = stores w" "customers (tick w) = customers w"
  "orders (tick w) = orders w" "next_id (tick w) = next_id w"
  "calls (tick w) = Suc (calls w)" "trace (tick w) = trace w"
  by (simp_all add: tick_def)

lemma find_map_upd:
  assumes "\<And>x. P (f x) = P x"
  shows "find P (map (\<lambda>x. if P x then f x else x) xs) = map_option f (find P xs)"
  using assms by (induction xs) auto

lemma find_None_map_id:
  "find P xs = None \<Longrightarrow> map (\<lambda>x. if P x then f x else x) xs = xs"
  by (induction xs) (auto split: if_splits)

lemma find_append_eq:
  "find P (xs @ ys) = (case find P xs of None \<Rightarrow> find P ys | Some x \<Rightarrow> Some x)"
  by (induction xs) auto

lemma find_None_filter:
  "find P xs = None \<Longrightarrow> filter P xs = []"
  by (induction xs) (auto split: if_splits)

lemma filter_key_unique:
  "distinct (map k xs) \<Longrightarrow> find (\<lambda>x. k x = v) xs = Some x \<Longrightarrow> filter (\<lambda>x. k x = v) xs = [x]"
proof (induction xs)
  case Nil
  then show ?case by simp
next
  case (Cons a xs)
  show ?case
  proof (cases "k a = v")
    case True
    with Cons.prems have "x = a" by simp
    moreover have "k a \<notin> k ` set xs"
      using Cons.prems(1) by simp
    then have "\<forall>y\<in>set xs. k y \<noteq> v"
      using True by blast
    then have "filter (\<lambda>x. k x = v) xs = []"
      by (simp add: filter_empty_conv)
    ultimately show ?thesis using True by simp
  next
    case False
    with Cons show ?thesis by simp
  qed
qed

subsection \<open>The upserts\<close>

lemma customer_key_eq: "customer_key sh st = (\<lambda>c. (c_shopifyId c, c_storeId c) = (sh, st))"
  by (auto simp: customer_key_def fun_eq_iff)

lemma order_key_eq: "order_key sh st = (\<lambda>r. (o_shopifyId r, o_storeId r) = (sh, st))"
  by (auto simp: order_key_def fun_eq_iff)

lemma field_update_idem [simp]: "field_update f (field_update f x) = field_update f x"
  by (cases f) (simp_all add: field_update_def)

lemma field_update_create [simp]: "field_update f (field_create f) = field_create f"
  by (cases f) (simp_all add: field_update_def field_create_def)

lemma customer_update_key [simp]:
  "customer_key sh st (customer_update cd c) = customer_key sh st c"
  by (simp add: customer_key_def customer_update_def)

lemma order_update_key [simp]:
  "order_key sh st (order_update js od r) = order_key sh st r"
  by (simp add: order_key_def order_update_def)

lemma customer_update_idem [simp]:
  "customer_update cd (customer_update cd c) = customer_update cd c"
  by (simp add: customer_update_def)

lemma order_update_idem [simp]:
  "order_update js od (order_update js od r) = order_update js od r"
  by (simp add: order_update_def)

lemma customer_update_create [simp]:
  "customer_update cd (customer_create i st cd) = customer_create i st cd"
  by (simp add: customer_update_def customer_create_def)

lemma order_update_create [simp]:
  "order_update js od (order_create js i st od pa cu) = order_create js i st od pa cu"
  by (simp add: order_update_def order_create_def)

lemma customer_create_key [simp]: "customer_key (rc_id cd) st (customer_create i st cd)"
  by (simp add: customer_key_def customer_create_def)

lemma order_create_key [simp]: "order_key (ro_id od) st (order_create js i st od pa cu)"
  by (simp add: order_key_def order_create_def)

lemma map_upd_idem:
  assumes "\<And>x. P (f x) = P x" "\<And>x. f (f x) = f x"
  shows "map (\<lambda>x. if P x then f x else x) (map (\<lambda>x. if P x then f x else x) xs)
         = map (\<lambda>x. if P x then f x else x) xs"
  using assms by (induction xs) auto

lemma customer_upsert_idem:
  "customer_upsert st cd (customer_upsert st cd w) = customer_upsert st cd w"
proof (cases "customer_findUnique (rc_id cd) st w")
  case None
  then have "find (customer_key (rc_id cd) st) (customers w) = None"
    by (simp add: customer_findUnique_def)
  then show ?thesis using None
    by (simp add: customer_upsert_def customer_findUnique_def find_None_map_id find_append_eq)
next
  case (Some c)
  then show ?thesis
    by (simp add: customer_upsert_def customer_findUnique_def find_map_upd map_upd_idem)
qed

lemma order_upsert_idem:
  "order_upsert js st od pa' cu' (order_upsert js st od pa cu w) = order_upsert js st od pa cu w"
proof (cases "order_findUnique (ro_id od) st w")
  case None
  then have "find (order_key (ro_id od) st) (orders w) = None"
    by (simp add: order_findUnique_def)
  then show ?thesis using None
    by (simp add: order_upsert_def order_findUnique_def find_None_map_id find_append_eq)
next
  case (Some c)
  then show ?thesis
    by (simp add: order_upsert_def order_findUnique_def find_map_upd map_upd_idem)
qed


lemma customer_keys_upd [simp]:
  "(\<lambda>x. (c_shopifyId x, c_storeId x)) \<circ> (\<lambda>c. if P c then customer_update cd c else c)
   = (\<lambda>x. (c_shopifyId x, c_storeId x))"
  by (auto simp: fun_eq_iff customer_update_def)

lemma order_keys_upd [simp]:
  "(\<lambda>x. (o_shopifyId x, o_storeId x)) \<circ> (\<lambda>r. if P r then order_update js od r else r)
   = (\<lambda>x. (o_shopifyId x, o_storeId x))"
  by (auto simp: fun_eq_iff order_update_def)

lemma customer_upsert_row:
  assumes "distinct (map (\<lambda>c. (c_shopifyId c, c_storeId c)) (customers w))"
  shows "filter (customer_key (rc_id cd) st) (customers (customer_upsert st cd w))
         = [case customer_findUnique (rc_id cd) st w of
              None \<Rightarrow> customer_create (next_id w) st cd
            | Some c \<Rightarrow> customer_update cd c]"
proof (cases "customer_findUnique (rc_id cd) st w")
  case None
  then show ?thesis
    by (simp add: customer_upsert_def customer_findUnique_def find_None_filter)
next
  case (Some c)
  let ?g = "\<lambda>c. if customer_key (rc_id cd) st c then customer_update cd c else c"
  have k: "map (\<lambda>c. (c_shopifyId c, c_storeId c)) (map ?g (customers w))
           = map (\<lambda>c. (c_shopifyId c, c_storeId c)) (customers w)"
    by simp
  have f: "find (customer_key (rc_id cd) st) (map ?g (customers w)) = Some (customer_update cd c)"
    using Some by (simp add: find_map_upd customer_findUnique_def)
  have "filter (\<lambda>c. (c_shopifyId c, c_storeId c) = (rc_id cd, st)) (map ?g (customers w))
        = [customer_update cd c]"
    by (rule filter_key_unique) (use assms k f in \<open>simp_all add: customer_key_eq\<close>)
  then show ?thesis using Some
    by (simp add: customer_upsert_def customer_key_eq)
qed

lemma order_upsert_row:
  assumes "distinct (map (\<lambda>r. (o_shopifyId r, o_storeId r)) (orders w))"
  shows "filter (order_key (ro_id od) st) (orders (order_upsert js st od pa cu w))
         = [case order_findUnique (ro_id od) st w of
              None \<Rightarrow> order_create js (next_id w) st od pa cu
            | Some r \<Rightarrow> order_update js od r]"
proof (cases "order_findUnique (ro_id od) st w")
  case None
  then show ?thesis
    by (simp add: order_upsert_def order_findUnique_def find_None_filter)
next
  case (Some c)
  let ?g = "\<lambda>r. if order_key (ro_id od) st r then order_update js od r else r"
  have k: "map (\<lambda>r. (o_shopifyId r, o_storeId r)) (map ?g (orders w))
           = map (\<lambda>r. (o_shopifyId r, o_storeId r)) (orders w)"
    by simp
  have f: "find (order_key (ro_id od) st) (map ?g (orders w)) = Some (order_update js od c)"
    using Some by (simp add: find_map_upd order_findUnique_def)
  have "filter (\<lambda>r. (o_shopifyId r, o_storeId r) = (ro_id od, st)) (map ?g (orders w))
        = [order_update js od c]"
    by (rule filter_key_unique) (use assms k f in \<open>simp_all add: order_key_eq\<close>)
  then show ?thesis using Some
    by (simp add: order_upsert_def order_key_eq)
qed

lemma find_None_keys:
  "find (\<lambda>x. k x = v) xs = None \<Longrightarrow> v \<notin> set (map k xs)"
  by (induction xs) (auto split: if_splits)

lemma customer_upsert_unique:
  assumes "unique_keys w"
  shows "unique_keys (customer_upsert st cd w)"
proof (cases "customer_findUnique (rc_id cd) st w")
  case None
  then have "(rc_id cd, st) \<notin> set (map (\<lambda>c. (c_shopifyId c, c_storeId c)) (customers w))"
    by (intro find_None_keys) (simp add: customer_findUnique_def customer_key_eq)
  then show ?thesis using assms None
    by (simp add: unique_keys_def customer_upsert_def customer_create_def)
next
  case (Some c)
  then show ?thesis using assms
    by (simp add: unique_keys_def customer_upsert_def)
qed

lemma order_upsert_unique:
  assumes "unique_keys w"
  shows "unique_keys (order_upsert js st od pa cu w)"
proof (cases "order_findUnique (ro_id od) st w")
  case None
  then have "(ro_id od, st) \<notin> set (map (\<lambda>r. (o_shopifyId r, o_storeId r)) (orders w))"
    by (intro find_None_keys) (simp add: order_findUnique_def order_key_eq)
  then show ?thesis using assms None
    by (simp add: unique_keys_def order_upsert_def order_create_def)
next
  case (Some c)
  then show ?thesis using assms
    by (simp add: unique_keys_def order_upsert_def)
qed

subsection \<open>Traces of the loops\<close>

lemma customer_upsert_fields [simp]:
  "stores (customer_upsert st cd w) = stores w"
  "orders (customer_upsert st cd w) = orders w"
  "calls (customer_upsert st cd w) = calls w"
  "trace (customer_upsert st cd w) = trace w"
  by (simp_all add: customer_upsert_def split: option.split)

lemma order_upsert_fields [simp]:
  "stores (order_upsert js st od pa cu w) = stores w"
  "customers (order_upsert js st od pa cu w) = customers w"
  "calls (order_upsert js st od pa cu w) = calls w"
  "trace (order_upsert js st od pa cu w) = trace w"
  by (simp_all add: order_upsert_def split: option.split)

lemma customer_item_events:
  "\<exists>es. trace (customer_item flt st w cd) = trace w @ es \<and>
        (\<forall>e\<in>set es. \<not> is_order_op e \<and> \<not> is_fetch e)"
  by (cases "flt (calls w)") (simp_all add: customer_item_def)

lemma customer_item_orders [simp]: "orders (customer_item flt st w cd) = orders w"
  by (simp add: customer_item_def split: option.split)

lemma customers_loop_orders [simp]: "orders (customers_loop flt st w cs) = orders w"
  by (induction cs arbitrary: w) simp_all

lemma customers_loop_events:
  "\<exists>es. trace (customers_loop flt st w cs) = trace w @ es \<and>
        (\<forall>e\<in>set es. \<not> is_order_op e \<and> \<not> is_fetch e)"
proof (induction cs arbitrary: w)
  case Nil
  show ?case by simp
next
  case (Cons cd cs)
  obtain es1 where 1: "trace (customer_item flt st w cd) = trace w @ es1"
    "\<forall>e\<in>set es1. \<not> is_order_op e \<and> \<not> is_fetch e"
    using customer_item_events by blast
  obtain es2 where 2:
    "trace (customers_loop flt st (customer_item flt st w cd) cs)
     = trace (customer_item flt st w cd) @ es2"
    "\<forall>e\<in>set es2. \<not> is_order_op e \<and> \<not> is_fetch e"
    using Cons.IH by blast
  show ?case
    by (rule exI [of _ "es1 @ es2"]) (use 1 2 in auto)
qed

lemma order_write_events:
  "\<exists>es. trace (order_write flt js st od cu w) = trace w @ es \<and>
        (\<forall>e\<in>set es. \<not> is_customer_upsert e \<and> \<not> is_fetch e)"
  by (cases "flt (calls w)"; cases "processedAt_of js od") (simp_all add: order_write_def)

lemma order_item_events:
  "\<exists>es. trace (order_item flt js st w od) = trace w @ es \<and>
        (\<forall>e\<in>set es. \<not> is_customer_upsert e \<and> \<not> is_fetch e)"
proof (cases "ro_customer od")
  case None
  then show ?thesis using order_write_events [of flt js st od None w]
    by (simp add: order_item_def)
next
  case (Some cid)
  show ?thesis
  proof (cases "flt (calls w)")
    case None
    obtain es where es:
      "trace (order_write flt js st od (customer_findUnique cid st w)
                (emit (CustomerFindUnique cid True) (tick w)))
       = trace (emit (CustomerFindUnique cid True) (tick w)) @ es"
      "\<forall>e\<in>set es. \<not> is_customer_upsert e \<and> \<not> is_fetch e"
      using order_write_events by blast
    show ?thesis
      by (rule exI [of _ "CustomerFindUnique cid True # es"])
         (use es None Some in \<open>auto simp: order_item_def\<close>)
  next
    case (Some err)
    then show ?thesis using \<open>ro_customer od = Some cid\<close>
      by (simp add: order_item_def)
  qed
qed

lemma orders_loop_events:
  "\<exists>es. trace (orders_loop flt js st w os) = trace w @ es \<and>
        (\<forall>e\<in>set es. \<not> is_customer_upsert e \<and> \<not> is_fetch e)"
proof (induction os arbitrary: w)
  case Nil
  show ?case by simp
next
  case (Cons od os)
  obtain es1 where 1: "trace (order_item flt js st w od) = trace w @ es1"
    "\<forall>e\<in>set es1. \<not> is_customer_upsert e \<and> \<not> is_fetch e"
    using order_item_events by blast
  obtain es2 where 2:
    "trace (orders_loop flt js st (order_item flt js st w od) os)
     = trace (order_item flt js st w od) @ es2"
    "\<forall>e\<in>set es2. \<not> is_customer_upsert e \<and> \<not> is_fetch e"
    using Cons.IH by blast
  show ?case
    by (rule exI [of _ "es1 @ es2"]) (use 1 2 in auto)
qed

lemma order_item_customers [simp]: "customers (order_item flt js st w od) = customers w"
  by (simp add: order_item_def order_write_def split: option.split)

lemma orders_loop_customers [simp]: "customers (orders_loop flt js st w os) = customers w"
  by (induction os arbitrary: w) simp_all

subsection \<open>What the loops write and log\<close>

lemma tables_eq_iff:
  "tables v = tables w \<longleftrightarrow>
     stores v = stores w \<and> customers v = customers w \<and> orders v = orders w \<and>
     next_id v = next_id w"
  by (simp add: tables_def)

lemma tables_emit [simp]: "tables (emit e w) = tables w"
  by (simp add: tables_def)

lemma tables_tick [simp]: "tables (tick w) = tables w"
  by (simp add: tables_def)

lemma customer_findUnique_cong:
  "tables v = tables w \<Longrightarrow> customer_findUnique sh st v = customer_findUnique sh st w"
  by (simp add: tables_eq_iff customer_findUnique_def)

lemma order_findUnique_cong:
  "tables v = tables w \<Longrightarrow> order_findUnique sh st v = order_findUnique sh st w"
  by (simp add: tables_eq_iff order_findUnique_def)

lemma customer_upsert_cong:
  "tables v = tables w \<Longrightarrow> tables (customer_upsert st cd v) = tables (customer_upsert st cd w)"
  by (simp add: tables_eq_iff customer_upsert_def customer_findUnique_def split: option.split)

lemma order_upsert_cong:
  "tables v = tables w \<Longrightarrow>
   tables (order_upsert js st od pa cu v) = tables (order_upsert js st od pa cu w)"
  by (simp add: tables_eq_iff order_upsert_def order_findUnique_def split: option.split)

lemma apply_order_cong:
  "tables v = tables w \<Longrightarrow> tables (apply_order js st v od) = tables (apply_order js st w od)"
  by (simp add: tables_eq_iff apply_order_def order_upsert_def order_findUnique_def
      customer_findUnique_def split: option.split)

lemma customer_upsert_tick [simp]:
  "tables (customer_upsert st cd (tick w)) = tables (customer_upsert st cd w)"
  by (rule customer_upsert_cong) simp

lemma order_upsert_tick [simp]:
  "tables (order_upsert js st od pa cu (tick w)) = tables (order_upsert js st od pa cu w)"
  by (rule order_upsert_cong) simp

lemma order_upsert_emit [simp]:
  "tables (order_upsert js st od pa cu (emit e w)) = tables (order_upsert js st od pa cu w)"
  by (rule order_upsert_cong) simp

lemma findUnique_tick [simp]:
  "customer_findUnique sh st (tick w) = customer_findUnique sh st w"
  "order_findUnique sh st (tick (w :: 'p world)) = order_findUnique sh st w"
  by (simp_all add: customer_findUnique_def order_findUnique_def)

lemma findUnique_emit [simp]:
  "customer_findUnique sh st (emit e w) = customer_findUnique sh st w"
  "order_findUnique sh st (emit e (w :: 'p world)) = order_findUnique sh st w"
  by (simp_all add: customer_findUnique_def order_findUnique_def)

lemma customer_item_calls [simp]: "calls (customer_item flt st w cd) = Suc (calls w)"
  by (simp add: customer_item_def split: option.split)

lemma customer_item_trace:
  "trace (customer_item flt st w cd) = trace w @ customer_events flt (calls w) [cd]"
  by (simp add: customer_item_def split: option.split)

lemma customer_item_tables:
  "tables (customer_item flt st w cd)
   = tables (foldl (\<lambda>v c. customer_upsert st c v) w (customers_resolved flt (calls w) [cd]))"
  by (simp add: customer_item_def split: option.split)

lemma customers_loop_calls [simp]:
  "calls (customers_loop flt st w cs) = calls w + length cs"
  by (induction cs arbitrary: w) simp_all

lemma customers_loop_trace:
  "trace (customers_loop flt st w cs) = trace w @ customer_events flt (calls w) cs"
  by (induction cs arbitrary: w) (simp_all add: customer_item_trace)

lemma foldl_customer_upsert_cong:
  "tables v = tables w \<Longrightarrow>
   tables (foldl (\<lambda>v c. customer_upsert st c v) v cs)
   = tables (foldl (\<lambda>v c. customer_upsert st c v) w cs)"
proof (induction cs arbitrary: v w)
  case Nil
  then show ?case by simp
next
  case (Cons c cs)
  show ?case
    using Cons.IH [OF customer_upsert_cong [where st = st and cd = c, OF Cons.prems]]
    by simp
qed

lemma foldl_apply_order_cong:
  "tables v = tables w \<Longrightarrow>
   tables (foldl (apply_order js st) v os) = tables (foldl (apply_order js st) w os)"
proof (induction os arbitrary: v w)
  case Nil
  then show ?case by simp
next
  case (Cons od os)
  show ?case
    using Cons.IH [OF apply_order_cong [where js = js and st = st and od = od, OF Cons.prems]]
    by simp
qed

lemma customers_loop_tables:
  "tables (customers_loop flt st w cs)
   = tables (foldl (\<lambda>v c. customer_upsert st c v) w (customers_resolved flt (calls w) cs))"
proof (induction cs arbitrary: w)
  case Nil
  show ?case by simp
next
  case (Cons cd cs)
  have "tables (customers_loop flt st (customer_item flt st w cd) cs)
        = tables (foldl (\<lambda>v c. customer_upsert st c v) (customer_item flt st w cd)
                    (customers_resolved flt (Suc (calls w)) cs))"
    using Cons.IH [of "customer_item flt st w cd"] by simp
  also have "\<dots> = tables (foldl (\<lambda>v c. customer_upsert st c v)
                      (foldl (\<lambda>v c. customer_upsert st c v) w
                         (customers_resolved flt (calls w) [cd]))
                      (customers_resolved flt (Suc (calls w)) cs))"
    by (rule foldl_customer_upsert_cong) (rule customer_item_tables)
  finally show ?case by simp
qed

lemma order_write_calls [simp]: "calls (order_write flt js st od cu w) = Suc (calls w)"
  by (simp add: order_write_def split: option.split)

lemma order_write_trace:
  "trace (order_write flt js st od cu w) = trace w @ upsert_events flt js (calls w) od"
  by (simp add: order_write_def upsert_events_def upsert_resolves_def split: option.split)

lemma order_write_tables:
  "tables (order_write flt js st od cu w)
   = (if flt (calls w) = None
      then (case processedAt_of js od of
              None \<Rightarrow> tables w
            | Some pa \<Rightarrow> tables (order_upsert js st od pa cu w))
      else tables w)"
  by (simp add: order_write_def split: option.split)

lemma order_item_calls:
  "calls (order_item flt js st w od)
   = (case ro_customer od of
        None \<Rightarrow> Suc (calls w)
      | Some cid \<Rightarrow> if flt (calls w) = None then Suc (Suc (calls w)) else Suc (calls w))"
  by (simp add: order_item_def split: option.split)

lemma order_item_trace:
  "trace (order_item flt js st w od) = trace w @ order_events flt js (calls w) [od]"
  by (auto simp: order_item_def order_write_trace split: option.split)

lemma order_item_tables:
  "tables (order_item flt js st w od)
   = tables (foldl (apply_order js st) w (orders_resolved flt js (calls w) [od]))"
  by (auto simp: order_item_def order_write_tables apply_order_def upsert_resolves_def
           split: option.split)

lemma orders_loop_trace:
  "trace (orders_loop flt js st w os) = trace w @ order_events flt js (calls w) os"
proof (induction os arbitrary: w)
  case Nil
  show ?case by simp
next
  case (Cons od os)
  have "trace (orders_loop flt js st (order_item flt js st w od) os)
        = trace w @ order_events flt js (calls w) [od]
          @ order_events flt js (calls (order_item flt js st w od)) os"
    using Cons.IH [of "order_item flt js st w od"] by (simp add: order_item_trace)
  then show ?case
    by (cases "ro_customer od"; cases "flt (calls w)") (simp_all add: order_item_calls)
qed

lemma orders_loop_tables:
  "tables (orders_loop flt js st w os)
   = tables (foldl (apply_order js st) w (orders_resolved flt js (calls w) os))"
proof (induction os arbitrary: w)
  case Nil
  show ?case by simp
next
  case (Cons od os)
  have "tables (orders_loop flt js st (order_item flt js st w od) os)
        = tables (foldl (apply_order js st) (order_item flt js st w od)
                    (orders_resolved flt js (calls (order_item flt js st w od)) os))"
    using Cons.IH [of "order_item flt js st w od"] by simp
  also have "\<dots> = tables (foldl (apply_order js st)
                      (foldl (apply_order js st) w (orders_resolved flt js (calls w) [od]))
                      (orders_resolved flt js (calls (order_item flt js st w od)) os))"
    by (rule foldl_apply_order_cong) (rule order_item_tables)
  finally show ?case
    by (cases "ro_customer od"; cases "flt (calls w)") (simp_all add: order_item_calls)
qed

subsection \<open>Applying a record twice\<close>

lemma customer_key_conj: "customer_key sh st = (\<lambda>c. c_shopifyId c = sh \<and> c_storeId c = st)"
  by (simp add: customer_key_def fun_eq_iff)

lemma order_key_conj: "order_key sh st = (\<lambda>r. o_shopifyId r = sh \<and> o_storeId r = st)"
  by (simp add: order_key_def fun_eq_iff)

lemma unique_keys_cong: "tables v = tables w \<Longrightarrow> unique_keys v = unique_keys w"
  by (simp add: tables_eq_iff unique_keys_def)

lemma customer_upsert_explicit:
  assumes "unique_keys w"
  shows "filter (\<lambda>c. c_shopifyId c = rc_id cd \<and> c_storeId c = st)
           (customers (customer_upsert st cd w))
         = [case find (\<lambda>c. c_shopifyId c = rc_id cd \<and> c_storeId c = st) (customers w) of
              None \<Rightarrow>
                \<lparr>c_id = next_id w, c_shopifyId = rc_id cd,
                 c_email = (case rc_email cd of Val v \<Rightarrow> Some v | _ \<Rightarrow> None),
                 c_firstName = (case rc_first_name cd of Val v \<Rightarrow> Some v | _ \<Rightarrow> None),
                 c_lastName = (case rc_last_name cd of Val v \<Rightarrow> Some v | _ \<Rightarrow> None),
                 c_storeId = st\<rparr>
            | Some c \<Rightarrow>
                c\<lparr>c_email :=
                    (case rc_email cd of
                       Absent \<Rightarrow> c_email c | Null \<Rightarrow> None | Val v \<Rightarrow> Some v),
                  c_firstName :=
                    (case rc_first_name cd of
                       Absent \<Rightarrow> c_firstName c | Null \<Rightarrow> None | Val v \<Rightarrow> Some v),
                  c_lastName :=
                    (case rc_last_name cd of
                       Absent \<Rightarrow> c_lastName c | Null \<Rightarrow> None | Val v \<Rightarrow> Some v)\<rparr>]"
proof -
  have dc: "distinct (map (\<lambda>c. (c_shopifyId c, c_storeId c)) (customers w))"
    using assms by (simp add: unique_keys_def)
  have c: "(case rc_email cd of Val v \<Rightarrow> Some v | _ \<Rightarrow> None) = field_create (rc_email cd)"
    "(case rc_first_name cd of Val v \<Rightarrow> Some v | _ \<Rightarrow> None) = field_create (rc_first_name cd)"
    "(case rc_last_name cd of Val v \<Rightarrow> Some v | _ \<Rightarrow> None) = field_create (rc_last_name cd)"
    by (simp_all add: field_create_def split: field.split)
  show ?thesis
    using customer_upsert_row [OF dc, of cd st]
    unfolding c
    by (simp add: customer_key_conj customer_findUnique_def customer_create_def
        customer_update_def field_update_def split: option.split)
qed

lemma order_upsert_explicit:
  assumes "unique_keys w"
  shows "filter (\<lambda>r. o_shopifyId r = ro_id od \<and> o_storeId r = st)
           (orders (order_upsert js st od pa cu w))
         = [case find (\<lambda>r. o_shopifyId r = ro_id od \<and> o_storeId r = st) (orders w) of
              None \<Rightarrow>
                \<lparr>o_id = next_id w, o_shopifyId = ro_id od,
                 o_orderNumber = (case ro_name od of Val v \<Rightarrow> Some v | _ \<Rightarrow> None),
                 o_totalPrice = parseFloat js (ro_total_price od),
                 o_currency = (case ro_currency od of Val v \<Rightarrow> Some v | _ \<Rightarrow> None),
                 o_financialStatus =
                   (case ro_financial_status od of Val v \<Rightarrow> Some v | _ \<Rightarrow> None),
                 o_fulfillmentStatus =
                   (case ro_fulfillment_status od of Val v \<Rightarrow> Some v | _ \<Rightarrow> None),
                 o_processedAt = pa,
                 o_storeId = st,
                 o_customerId = map_option c_id cu\<rparr>
            | Some r \<Rightarrow>
                r\<lparr>o_financialStatus :=
                    (case ro_financial_status od of
                       Absent \<Rightarrow> o_financialStatus r | Null \<Rightarrow> None | Val v \<Rightarrow> Some v),
                  o_fulfillmentStatus :=
                    (case ro_fulfillment_status od of
                       Absent \<Rightarrow> o_fulfillmentStatus r | Null \<Rightarrow> None | Val v \<Rightarrow> Some v),
                  o_totalPrice := parseFloat js (ro_total_price od)\<rparr>]"
proof -
  have dor: "distinct (map (\<lambda>r. (o_shopifyId r, o_storeId r)) (orders w))"
    using assms by (simp add: unique_keys_def)
  have c: "(case ro_name od of Val v \<Rightarrow> Some v | _ \<Rightarrow> None) = field_create (ro_name od)"
    "(case ro_currency od of Val v \<Rightarrow> Some v | _ \<Rightarrow> None) = field_create (ro_currency od)"
    "(case ro_financial_status od of Val v \<Rightarrow> Some v | _ \<Rightarrow> None)
       = field_create (ro_financial_status od)"
    "(case ro_fulfillment_status od of Val v \<Rightarrow> Some v | _ \<Rightarrow> None)
       = field_create (ro_fulfillment_status od)"
    by (simp_all add: field_create_def split: field.split)
  show ?thesis
    using order_upsert_row [OF dor, of od st js pa cu]
    unfolding c
    by (simp add: order_key_conj order_findUnique_def order_create_def
        order_update_def field_update_def split: option.split)
qed

lemma customer_item_twice_tables:
  assumes "flt (calls w) = None" "flt (Suc (calls w)) = None"
  shows "tables (customer_item flt st (customer_item flt st w cd) cd)
         = tables (customer_upsert st cd w)"
proof -
  have "tables (customers_loop flt st w [cd, cd])
        = tables (customer_upsert st cd (customer_upsert st cd w))"
    unfolding customers_loop_tables using assms by simp
  then show ?thesis by (simp add: customer_upsert_idem)
qed

lemma processedAt_explicit:
  "processedAt_of js od = Some pa \<Longrightarrow>
   pa = (case ro_processed_at od of
           Val s \<Rightarrow> if s = [] then None else newDate js s
         | _ \<Rightarrow> None)"
  by (auto simp: processedAt_of_def split: field.splits if_splits option.splits)

lemma apply_order_twice:
  assumes "processedAt_of js od = Some pa"
  shows "apply_order js st (apply_order js st w od) od
         = order_upsert js st od pa
             (case ro_customer od of
                None \<Rightarrow> None
              | Some cid \<Rightarrow> customer_findUnique cid st w) w"
  using assms by (simp add: apply_order_def order_upsert_idem)

lemma order_item_twice_tables:
  assumes "flt (calls w) = None" "flt (Suc (calls w)) = None"
    "flt (Suc (Suc (calls w))) = None" "flt (Suc (Suc (Suc (calls w)))) = None"
    and "processedAt_of js od = Some pa"
  shows "tables (order_item flt js st (order_item flt js st w od) od)
         = tables (order_upsert js st od pa
             (case ro_customer od of
                None \<Rightarrow> None
              | Some cid \<Rightarrow> customer_findUnique cid st w) w)"
proof -
  have "tables (orders_loop flt js st w [od, od])
        = tables (apply_order js st (apply_order js st w od) od)"
    unfolding orders_loop_tables using assms
    by (simp add: upsert_resolves_def split: option.split)
  then show ?thesis by (simp add: apply_order_twice [OF assms(5)])
qed

text \<open>
  Claim C4, as amended.  In a store whose tables satisfy the unique constraint on
  (external identifier, store), let the same raw record be applied twice by the body
  of its loop, with no Prisma call of the two applications rejected and, for an order,
  a \<open>processed_at\<close> that is no invalid date.  Then the constraint still holds and
  exactly one row has the key of the record.  If no row had the key before, it is the
  row created from the record: a key of the payload that is absent or \<open>null\<close> gives
  NULL, \<open>totalPrice\<close> is \<open>parseFloat\<close> of \<open>total_price\<close>, and the customer reference
  of an order is the local identifier of the stored customer with the embedded
  identifier, if any.  If a row had the key before, it is that row with \<open>email\<close>,
  \<open>firstName\<close> and \<open>lastName\<close> (customer), or \<open>financialStatus\<close> and
  \<open>fulfillmentStatus\<close> (order), set to the record's value, set to NULL for \<open>null\<close>, and
  left as stored for an absent key, with \<open>totalPrice\<close> set to \<open>parseFloat\<close> of
  \<open>total_price\<close>, and with every other column as stored.
\<close>

theorem upsert_twice_one_row:
  assumes "unique_keys w"
    and "flt (calls w) = None" and "flt (Suc (calls w)) = None"
    and "flt (Suc (Suc (calls w))) = None" and "flt (Suc (Suc (Suc (calls w)))) = None"
    and "processedAt_of js od \<noteq> None"
  shows "unique_keys (customer_item flt st (customer_item flt st w cd) cd) \<and>
         filter (\<lambda>c. c_shopifyId c = rc_id cd \<and> c_storeId c = st)
           (customers (customer_item flt st (customer_item flt st w cd) cd))
         = [case find (\<lambda>c. c_shopifyId c = rc_id cd \<and> c_storeId c = st) (customers w) of
              None \<Rightarrow>
                \<lparr>c_id = next_id w, c_shopifyId = rc_id cd,
                 c_email = (case rc_email cd of Val v \<Rightarrow> Some v | _ \<Rightarrow> None),
                 c_firstName = (case rc_first_name cd of Val v \<Rightarrow> Some v | _ \<Rightarrow> None),
                 c_lastName = (case rc_last_name cd of Val v \<Rightarrow> Some v | _ \<Rightarrow> None),
                 c_storeId = st\<rparr>
            | Some c \<Rightarrow>
                c\<lparr>c_email :=
                    (case rc_email cd of
                       Absent \<Rightarrow> c_email c | Null \<Rightarrow> None | Val v \<Rightarrow> Some v),
                  c_firstName :=
                    (case rc_first_name cd of
                       Absent \<Rightarrow> c_firstName c | Null \<Rightarrow> None | Val v \<Rightarrow> Some v),
                  c_lastName :=
                    (case rc_last_name cd of
                       Absent \<Rightarrow> c_lastName c | Null \<Rightarrow> None | Val v \<Rightarrow> Some v)\<rparr>] \<and>
         unique_keys (order_item flt js st (order_item flt js st w od) od) \<and>
         filter (\<lambda>r. o_shopifyId r = ro_id od \<and> o_storeId r = st)
           (orders (order_item flt js st (order_item flt js st w od) od))
         = [case find (\<lambda>r. o_shopifyId r = ro_id od \<and> o_storeId r = st) (orders w) of
              None \<Rightarrow>
                \<lparr>o_id = next_id w, o_shopifyId = ro_id od,
                 o_orderNumber = (case ro_name od of Val v \<Rightarrow> Some v | _ \<Rightarrow> None),
                 o_totalPrice = parseFloat js (ro_total_price od),
                 o_currency = (case ro_currency od of Val v \<Rightarrow> Some v | _ \<Rightarrow> None),
                 o_financialStatus =
                   (case ro_financial_status od of Val v \<Rightarrow> Some v | _ \<Rightarrow> None),
                 o_fulfillmentStatus =
                   (case ro_fulfillment_status od of Val v \<Rightarrow> Some v | _ \<Rightarrow> None),
                 o_processedAt =
                   (case ro_processed_at od of
                      Val s \<Rightarrow> if s = [] then None else newDate js s
                    | _ \<Rightarrow> None),
                 o_storeId = st,
                 o_customerId =
                   (case ro_customer od of
                      None \<Rightarrow> None
                    | Some cid \<Rightarrow>
                        map_option c_id
                          (find (\<lambda>c. c_shopifyId c = cid \<and> c_storeId c = st) (customers w)))\<rparr>
            | Some r \<Rightarrow>
                r\<lparr>o_financialStatus :=
                    (case ro_financial_status od of
                       Absent \<Rightarrow> o_financialStatus r | Null \<Rightarrow> None | Val v \<Rightarrow> Some v),
                  o_fulfillmentStatus :=
                    (case ro_fulfillment_status od of
                       Absent \<Rightarrow> o_fulfillmentStatus r | Null \<Rightarrow> None | Val v \<Rightarrow> Some v),
                  o_totalPrice := parseFloat js (ro_total_price od)\<rparr>]"
proof -
  obtain pa where pa: "processedAt_of js od = Some pa"
    using assms(6) by blast
  let ?cu = "case ro_customer od of None \<Rightarrow> None | Some cid \<Rightarrow> customer_findUnique cid st w"
  have tc: "tables (customer_item flt st (customer_item flt st w cd) cd)
            = tables (customer_upsert st cd w)"
    using assms(2,3) by (rule customer_item_twice_tables)
  have to: "tables (order_item flt js st (order_item flt js st w od) od)
            = tables (order_upsert js st od pa ?cu w)"
    using assms(2-5) pa by (rule order_item_twice_tables)
  have cu: "map_option c_id ?cu
            = (case ro_customer od of
                 None \<Rightarrow> None
               | Some cid \<Rightarrow>
                   map_option c_id
                     (find (\<lambda>c. c_shopifyId c = cid \<and> c_storeId c = st) (customers w)))"
    by (simp add: customer_findUnique_def customer_key_conj split: option.split)
  have 1: "unique_keys (customer_item flt st (customer_item flt st w cd) cd)"
    using unique_keys_cong [OF tc] customer_upsert_unique [OF assms(1)] by simp
  have 2: "customers (customer_item flt st (customer_item flt st w cd) cd)
           = customers (customer_upsert st cd w)"
    using tc by (simp add: tables_eq_iff)
  have 3: "unique_keys (order_item flt js st (order_item flt js st w od) od)"
    using unique_keys_cong [OF to] order_upsert_unique [OF assms(1)] by simp
  have 4: "orders (order_item flt js st (order_item flt js st w od) od)
           = orders (order_upsert js st od pa ?cu w)"
    using to by (simp add: tables_eq_iff)
  show ?thesis
    unfolding 2 4
    using 1 3 customer_upsert_explicit [OF assms(1), of cd st]
      order_upsert_explicit [OF assms(1), of od st js pa ?cu]
    unfolding cu processedAt_explicit [OF pa]
    by simp
qed

lemma ex_prices:
  "js_parseFloat (Val ''9.50'') = Num (19 / 2)"
  "js_parseFloat (Val ''12'') = Num 12"
  "js_parseFloat (Val ''0.25'') = Num (1 / 4)"
  by (simp_all add: js_parseFloat_def unsigned_literal_def is_space_def digit_of_def
      nat_of_digits_def exponent_of_def scale_def)

lemma ex_js_fields:
  "parseFloat ex_js = js_parseFloat"
  "newDate ex_js ''2024-07-01T00:00:00Z'' = Some 1719792000000"
  "newDate ex_js ''not-a-date'' = None"
  by (simp_all add: ex_js_def ex_dates_def)

lemma ex_processedAt:
  "processedAt_of ex_js ex_order = Some (Some 1719792000000)"
  "processedAt_of ex_js ex_order_partial = Some (Some 1719792000000)"
  "processedAt_of ex_js ex_order2 = None"
  "processedAt_of ex_js ex_order3 = Some None"
  by (simp_all add: processedAt_of_def ex_order_def ex_order_partial_def ex_order2_def
      ex_order3_def ex_js_fields)

text \<open>
  The amended claim C4 at two concrete stores.  The first already holds rows for the
  keys of the records applied, and the records lack a key (\<open>email\<close>,
  \<open>financial_status\<close>) whose stored value is kept.  The second is empty, and the rows
  are created.
\<close>

theorem upsert_twice_one_row_witness:
  "unique_keys ex_stored \<and>
   processedAt_of ex_js ex_order_partial \<noteq> None \<and>
   filter (\<lambda>c. c_shopifyId c = ''7'' \<and> c_storeId c = ''s1'')
     (customers (customer_item no_faults ''s1''
                   (customer_item no_faults ''s1'' ex_stored ex_customer_partial)
                   ex_customer_partial))
     = [\<lparr>c_id = 1, c_shopifyId = ''7'', c_email = Some ''old@example.com'',
         c_firstName = Some ''Ann'', c_lastName = None, c_storeId = ''s1''\<rparr>] \<and>
   filter (\<lambda>r. o_shopifyId r = ''100'' \<and> o_storeId r = ''s1'')
     (orders (order_item no_faults ex_js ''s1''
                (order_item no_faults ex_js ''s1'' ex_stored ex_order_partial)
                ex_order_partial))
     = [\<lparr>o_id = 0, o_shopifyId = ''100'', o_orderNumber = Some ''#1001'',
         o_totalPrice = Num (19 / 2), o_currency = Some ''USD'',
         o_financialStatus = Some ''pending'', o_fulfillmentStatus = Some ''fulfilled'',
         o_processedAt = None, o_storeId = ''s1'', o_customerId = None\<rparr>] \<and>
   unique_keys ex_empty \<and>
   processedAt_of ex_js ex_order \<noteq> None \<and>
   filter (\<lambda>c. c_shopifyId c = ''7'' \<and> c_storeId c = ''s1'')
     (customers (customer_item no_faults ''s1''
                   (customer_item no_faults ''s1'' ex_empty ex_customer) ex_customer))
     = [\<lparr>c_id = 0, c_shopifyId = ''7'', c_email = Some ''ann@example.com'',
         c_firstName = Some ''Ann'', c_lastName = None, c_storeId = ''s1''\<rparr>] \<and>
   filter (\<lambda>r. o_shopifyId r = ''100'' \<and> o_storeId r = ''s1'')
     (orders (order_item no_faults ex_js ''s1''
                (order_item no_faults ex_js ''s1'' ex_empty ex_order) ex_order))
     = [\<lparr>o_id = 0, o_shopifyId = ''100'', o_orderNumber = Some ''#1001'',
         o_totalPrice = Num (19 / 2), o_currency = Some ''EUR'',
         o_financialStatus = Some ''paid'', o_fulfillmentStatus = None,
         o_processedAt = Some 1719792000000, o_storeId = ''s1'', o_customerId = None\<rparr>]"
proof -
  have h: "unique_keys ex_stored" "unique_keys ex_empty"
    by (simp_all add: unique_keys_def ex_stored_def ex_empty_def)
  have f: "no_faults (calls w) = None" "no_faults (Suc (calls w)) = None"
    "no_faults (Suc (Suc (calls w))) = None" "no_faults (Suc (Suc (Suc (calls w)))) = None"
    for w :: "js_number world"
    by (simp_all add: no_faults_def)
  have p: "processedAt_of ex_js ex_order_partial \<noteq> None" "processedAt_of ex_js ex_order \<noteq> None"
    by (simp_all add: ex_processedAt)
  show ?thesis
    using h p
      upsert_twice_one_row [where flt = no_faults and js = ex_js and st = "''s1''"
        and cd = ex_customer_partial and od = ex_order_partial, OF h(1) f p(1)]
      upsert_twice_one_row [where flt = no_faults and js = ex_js and st = "''s1''"
        and cd = ex_customer and od = ex_order, OF h(2) f p(2)]
    by (simp add: ex_customer_def ex_customer_partial_def ex_order_def ex_order_partial_def
        ex_stored_def ex_empty_def ex_js_fields ex_prices)
qed

text \<open>
  Claim C4 as stated fails for orders.  The store holds an order row with currency
  USD; the raw order with the same key and currency EUR is applied twice by the body
  of the order loop, no call rejected; the one row for the key still has currency
  USD, not the last-applied value.
\<close>

theorem order_fields_not_last_applied:
  "map o_currency
     (filter (\<lambda>r. o_shopifyId r = ''100'' \<and> o_storeId r = ''s1'')
        (orders (order_item no_faults ex_js ''s1''
                   (order_item no_faults ex_js ''s1'' ex_stored ex_order) ex_order)))
     = [Some ''USD''] \<and>
   ro_id ex_order = ''100'' \<and>
   ro_currency ex_order = Val ''EUR''"
  by (simp add: ex_order_def ex_stored_def no_faults_def order_item_def order_write_def
      processedAt_of_def ex_js_fields order_upsert_def order_findUnique_def order_key_def
      order_update_def field_update_def)

text \<open>
  A raw order whose \<open>processed_at\<close> is no date is rejected by both of its upserts:
  applied twice to an empty store, it leaves no row.
\<close>

lemma rejected_record_stores_no_row:
  "orders (order_item no_faults ex_js ''s1''
             (order_item no_faults ex_js ''s1'' ex_empty ex_order2) ex_order2) = []"
  by (simp add: ex_order2_def ex_empty_def no_faults_def order_item_def order_write_def
      processedAt_of_def ex_js_fields)

subsection \<open>Orders that are already stored\<close>

lemma order_upsert_existing:
  assumes "order_findUnique (ro_id od) st w = Some r"
  shows "orders (order_upsert js st od pa cu w)
         = map (\<lambda>x. if order_key (ro_id od) st x then order_update js od x else x) (orders w)"
    and "customers (order_upsert js st od pa cu w) = customers w"
    and "trace (order_upsert js st od pa cu w) = trace w"
  using assms by (simp_all add: order_upsert_def)

lemma order_frame_upd [simp]:
  "order_frame \<circ> (\<lambda>r. if P r then order_update js od r else r) = order_frame"
  by (auto simp: fun_eq_iff order_frame_def order_update_def)

lemma filter_not_key_upd:
  "filter (\<lambda>x. \<not> P x) (map (\<lambda>x. if P x then f x else x) xs) = filter (\<lambda>x. \<not> P x) xs"
  if "\<And>x. P (f x) = P x"
  using that by (induction xs) auto

lemma order_write_existing:
  assumes "order_findUnique (ro_id od) st w = Some r"
  shows "map order_frame (orders (order_write flt js st od cu w)) = map order_frame (orders w)"
    and "filter (\<lambda>x. \<not> order_key (ro_id od) st x) (orders (order_write flt js st od cu w))
         = filter (\<lambda>x. \<not> order_key (ro_id od) st x) (orders w)"
    and "customers (order_write flt js st od cu w) = customers w"
    and "flt (calls w) = None \<Longrightarrow> processedAt_of js od \<noteq> None \<Longrightarrow>
         order_findUnique (ro_id od) st (order_write flt js st od cu w)
         = Some (order_update js od r)"
proof -
  have t: "order_findUnique (ro_id od) st (tick w) = Some r"
    using assms by simp
  show "map order_frame (orders (order_write flt js st od cu w)) = map order_frame (orders w)"
    by (simp add: order_write_def order_upsert_existing [OF t] split: option.split)
  show "filter (\<lambda>x. \<not> order_key (ro_id od) st x) (orders (order_write flt js st od cu w))
         = filter (\<lambda>x. \<not> order_key (ro_id od) st x) (orders w)"
    by (simp add: order_write_def order_upsert_existing [OF t] filter_not_key_upd
        split: option.split)
  show "customers (order_write flt js st od cu w) = customers w"
    by (simp add: order_write_def order_upsert_existing [OF t] split: option.split)
  show "order_findUnique (ro_id od) st (order_write flt js st od cu w)
         = Some (order_update js od r)"
    if a: "flt (calls w) = None" and b: "processedAt_of js od \<noteq> None"
  proof -
    obtain pa where pa: "processedAt_of js od = Some pa"
      using b by blast
    have "find (order_key (ro_id od) st) (orders w) = Some r"
      using assms by (simp add: order_findUnique_def)
    then show ?thesis
      using a pa
      by (simp add: order_write_def order_findUnique_def order_upsert_existing [OF t]
          find_map_upd)
  qed
qed

lemma order_update_explicit:
  "order_update js od r
   = r\<lparr>o_financialStatus :=
         (case ro_financial_status od of
            Absent \<Rightarrow> o_financialStatus r | Null \<Rightarrow> None | Val v \<Rightarrow> Some v),
       o_fulfillmentStatus :=
         (case ro_fulfillment_status od of
            Absent \<Rightarrow> o_fulfillmentStatus r | Null \<Rightarrow> None | Val v \<Rightarrow> Some v),
       o_totalPrice := parseFloat js (ro_total_price od)\<rparr>"
  by (simp add: order_update_def field_update_def)

text \<open>
  Claim C10.  When a row exists for the key of a raw order, processing the order in
  the loop leaves the columns \<open>id\<close>, \<open>shopifyId\<close>, \<open>orderNumber\<close>, \<open>currency\<close>,
  \<open>processedAt\<close>, \<open>storeId\<close> and \<open>customerId\<close> of every order row as they were, and
  leaves the rows of other keys and the customer table unchanged, whether or not a
  call rejects.  When the Prisma calls resolve and \<open>processed_at\<close> is no invalid date,
  the row becomes the stored row with \<open>financialStatus\<close> and \<open>fulfillmentStatus\<close> set
  to the record's value (NULL for \<open>null\<close>, the stored value for an absent key) and
  \<open>totalPrice\<close> set to \<open>parseFloat\<close> of \<open>total_price\<close>.  In particular the customer
  reference of an existing order is never changed, whatever customers the store holds
  by now.
\<close>

theorem existing_order_update_frame:
  assumes "order_findUnique (ro_id od) st w = Some r"
  shows "map order_frame (orders (order_item flt js st w od)) = map order_frame (orders w) \<and>
         filter (\<lambda>x. \<not> order_key (ro_id od) st x) (orders (order_item flt js st w od))
           = filter (\<lambda>x. \<not> order_key (ro_id od) st x) (orders w) \<and>
         customers (order_item flt js st w od) = customers w \<and>
         (flt (calls w) = None \<and> flt (Suc (calls w)) = None \<and> processedAt_of js od \<noteq> None
          \<longrightarrow>
            order_findUnique (ro_id od) st (order_item flt js st w od)
            = Some (r\<lparr>o_financialStatus :=
                        (case ro_financial_status od of
                           Absent \<Rightarrow> o_financialStatus r
                         | Null \<Rightarrow> None
                         | Val v \<Rightarrow> Some v),
                      o_fulfillmentStatus :=
                        (case ro_fulfillment_status od of
                           Absent \<Rightarrow> o_fulfillmentStatus r
                         | Null \<Rightarrow> None
                         | Val v \<Rightarrow> Some v),
                      o_totalPrice := parseFloat js (ro_total_price od)\<rparr>))"
proof (cases "ro_customer od")
  case None
  then show ?thesis
    using order_write_existing [where flt = flt and js = js and cu = None, OF assms]
    by (simp add: order_item_def order_update_explicit)
next
  case (Some cid)
  show ?thesis
  proof (cases "flt (calls w)")
    case None
    let ?w1 = "emit (CustomerFindUnique cid True) (tick w)"
    have f: "order_findUnique (ro_id od) st ?w1 = Some r"
      using assms by simp
    show ?thesis
      using order_write_existing [where flt = flt and js = js
          and cu = "customer_findUnique cid st w", OF f] None Some
      by (simp add: order_item_def order_update_explicit)
  next
    case (Some err)
    then show ?thesis
      using \<open>ro_customer od = Some cid\<close> by (simp add: order_item_def)
  qed
qed

text \<open>
  Claim C10 at a concrete store: the order row keeps its number, currency, date and
  null customer reference, although the raw order embeds a customer that the store
  holds; its fulfilment status and total price are updated, and its financial status,
  whose key the payload lacks, is kept.
\<close>

theorem existing_order_update_frame_witness:
  "order_findUnique ''100'' ''s1'' ex_stored
     = Some \<lparr>o_id = 0, o_shopifyId = ''100'', o_orderNumber = Some ''#1001'',
             o_totalPrice = Num 5, o_currency = Some ''USD'',
             o_financialStatus = Some ''pending'', o_fulfillmentStatus = None,
             o_processedAt = None, o_storeId = ''s1'', o_customerId = None\<rparr> \<and>
   processedAt_of ex_js ex_order_partial \<noteq> None \<and>
   map order_frame (orders (order_item no_faults ex_js ''s1'' ex_stored ex_order_partial))
     = [(0, ''100'', Some ''#1001'', Some ''USD'', None, ''s1'', None)] \<and>
   order_findUnique ''100'' ''s1'' (order_item no_faults ex_js ''s1'' ex_stored ex_order_partial)
     = Some \<lparr>o_id = 0, o_shopifyId = ''100'', o_orderNumber = Some ''#1001'',
             o_totalPrice = Num (19 / 2), o_currency = Some ''USD'',
             o_financialStatus = Some ''pending'', o_fulfillmentStatus = Some ''fulfilled'',
             o_processedAt = None, o_storeId = ''s1'', o_customerId = None\<rparr>"
proof -
  have h: "order_findUnique (ro_id ex_order_partial) ''s1'' ex_stored
     = Some \<lparr>o_id = 0, o_shopifyId = ''100'', o_orderNumber = Some ''#1001'',
             o_totalPrice = Num 5, o_currency = Some ''USD'',
             o_financialStatus = Some ''pending'', o_fulfillmentStatus = None,
             o_processedAt = None, o_storeId = ''s1'', o_customerId = None\<rparr>"
    by (simp add: order_findUnique_def ex_stored_def ex_order_partial_def ex_order_def
        order_key_def)
  have p: "processedAt_of ex_js ex_order_partial \<noteq> None"
    by (simp add: ex_processedAt)
  show ?thesis
    using h p
      existing_order_update_frame [where flt = no_faults and js = ex_js, OF h]
    by (simp add: ex_order_partial_def ex_order_def ex_stored_def no_faults_def
        order_frame_def ex_js_fields ex_prices)
qed

subsection \<open>Linking a new order to its customer\<close>

lemma find_key_unique:
  "distinct (map k xs) \<Longrightarrow> x \<in> set xs \<Longrightarrow> k x = v \<Longrightarrow> find (\<lambda>y. k y = v) xs = Some x"
proof (induction xs)
  case Nil
  then show ?case by simp
next
  case (Cons a xs)
  show ?case
  proof (cases "k a = v")
    case True
    have "k a \<notin> k ` set xs"
      using Cons.prems(1) by simp
    then have "x \<notin> set xs"
      using True Cons.prems(3) by (metis image_eqI)
    then show ?thesis
      using Cons.prems(2) True by simp
  next
    case False
    then have "x \<in> set xs"
      using Cons.prems by auto
    then show ?thesis
      using Cons False by simp
  qed
qed

lemma customer_findUnique_stored:
  assumes "unique_keys w" "c \<in> set (customers w)" "c_shopifyId c = cid" "c_storeId c = st"
  shows "customer_findUnique cid st w = Some c"
proof -
  have "find (\<lambda>y. (c_shopifyId y, c_storeId y) = (cid, st)) (customers w) = Some c"
    by (rule find_key_unique) (use assms in \<open>simp_all add: unique_keys_def\<close>)
  then show ?thesis
    by (simp add: customer_findUnique_def customer_key_eq)
qed

lemma customer_findUnique_none:
  assumes "\<forall>c\<in>set (customers w). \<not> (c_shopifyId c = cid \<and> c_storeId c = st)"
  shows "customer_findUnique cid st w = None"
  using assms by (simp add: customer_findUnique_def customer_key_def find_None_iff)

lemma order_item_resolved:
  assumes "flt (calls w) = None" "flt (Suc (calls w)) = None"
    and "processedAt_of js od = Some pa"
  shows "orders (order_item flt js st w od)
         = orders (order_upsert js st od pa
             (case ro_customer od of
                None \<Rightarrow> None
              | Some cid \<Rightarrow> customer_findUnique cid st w) w)"
    and "trace (order_item flt js st w od)
         = trace w
           @ (case ro_customer od of None \<Rightarrow> [] | Some cid \<Rightarrow> [CustomerFindUnique cid True])
           @ [OrderUpsert (ro_id od) True]"
proof -
  have "tables (order_item flt js st w od)
        = tables (order_upsert js st od pa
             (case ro_customer od of
                None \<Rightarrow> None
              | Some cid \<Rightarrow> customer_findUnique cid st w) w)"
    unfolding order_item_tables using assms
    by (cases "ro_customer od") (simp_all add: upsert_resolves_def apply_order_def)
  then show "orders (order_item flt js st w od)
         = orders (order_upsert js st od pa
             (case ro_customer od of
                None \<Rightarrow> None
              | Some cid \<Rightarrow> customer_findUnique cid st w) w)"
    by (simp add: tables_eq_iff)
  show "trace (order_item flt js st w od)
         = trace w
           @ (case ro_customer od of None \<Rightarrow> [] | Some cid \<Rightarrow> [CustomerFindUnique cid True])
           @ [OrderUpsert (ro_id od) True]"
    unfolding order_item_trace using assms
    by (cases "ro_customer od") (simp_all add: upsert_events_def upsert_resolves_def)
qed

text \<open>
  Claim C6, as amended.  In a store whose tables satisfy the unique constraint, let a
  raw order be processed by the body of the order loop, with its Prisma calls resolved
  and a \<open>processed_at\<close> that is no invalid date.  If no row had the order's key: when
  a stored customer row carries the embedded customer identifier and the store of the
  run, the one row stored for the order refers to the local identifier of that
  customer row; when the order embeds no customer, or no stored customer row carries
  the embedded identifier and the store, the reference stored is null.  If a row had
  the order's key, its reference is left as stored.  In every case the item ends
  without an error: its events are the lookup (if the order embeds a customer) and the
  upsert, both resolved.
\<close>

theorem new_order_linking:
  assumes "unique_keys w"
    and "flt (calls w) = None" and "flt (Suc (calls w)) = None"
    and "processedAt_of js od \<noteq> None"
  shows "(find (\<lambda>r. o_shopifyId r = ro_id od \<and> o_storeId r = st) (orders w) = None \<longrightarrow>
            (\<forall>cid c. ro_customer od = Some cid \<and> c \<in> set (customers w) \<and>
                     c_shopifyId c = cid \<and> c_storeId c = st \<longrightarrow>
               map o_customerId
                 (filter (\<lambda>r. o_shopifyId r = ro_id od \<and> o_storeId r = st)
                    (orders (order_item flt js st w od)))
               = [Some (c_id c)]) \<and>
            (ro_customer od = None \<or>
             (\<exists>cid. ro_customer od = Some cid \<and>
                    (\<forall>c\<in>set (customers w). \<not> (c_shopifyId c = cid \<and> c_storeId c = st)))
             \<longrightarrow>
               map o_customerId
                 (filter (\<lambda>r. o_shopifyId r = ro_id od \<and> o_storeId r = st)
                    (orders (order_item flt js st w od)))
               = [None])) \<and>
         (\<forall>r. find (\<lambda>r. o_shopifyId r = ro_id od \<and> o_storeId r = st) (orders w) = Some r \<longrightarrow>
            map o_customerId
              (filter (\<lambda>r. o_shopifyId r = ro_id od \<and> o_storeId r = st)
                 (orders (order_item flt js st w od)))
            = [o_customerId r]) \<and>
         trace (order_item flt js st w od)
         = trace w
           @ (case ro_customer od of None \<Rightarrow> [] | Some cid \<Rightarrow> [CustomerFindUnique cid True])
           @ [OrderUpsert (ro_id od) True]"
proof -
  obtain pa where pa: "processedAt_of js od = Some pa"
    using assms(4) by blast
  let ?cu = "case ro_customer od of None \<Rightarrow> None | Some cid \<Rightarrow> customer_findUnique cid st w"
  let ?P = "\<lambda>r. o_shopifyId r = ro_id od \<and> o_storeId r = st"
  have o: "orders (order_item flt js st w od) = orders (order_upsert js st od pa ?cu w)"
    and t: "trace (order_item flt js st w od)
         = trace w
           @ (case ro_customer od of None \<Rightarrow> [] | Some cid \<Rightarrow> [CustomerFindUnique cid True])
           @ [OrderUpsert (ro_id od) True]"
    using order_item_resolved [OF assms(2,3) pa] by simp_all
  have row: "map o_customerId (filter ?P (orders (order_item flt js st w od)))
             = [case find ?P (orders w) of
                  None \<Rightarrow> map_option c_id ?cu
                | Some r \<Rightarrow> o_customerId r]"
    unfolding o order_upsert_explicit [OF assms(1)]
    by (simp split: option.split)
  have 1: "map o_customerId (filter ?P (orders (order_item flt js st w od))) = [Some (c_id c)]"
    if "find ?P (orders w) = None" "ro_customer od = Some cid" "c \<in> set (customers w)"
      "c_shopifyId c = cid" "c_storeId c = st" for cid c
    using that customer_findUnique_stored [OF assms(1) that(3,4,5)]
    by (simp add: row)
  have 2: "map o_customerId (filter ?P (orders (order_item flt js st w od))) = [None]"
    if "find ?P (orders w) = None" "ro_customer od = None"
    using that by (simp add: row)
  have 3: "map o_customerId (filter ?P (orders (order_item flt js st w od))) = [None]"
    if "find ?P (orders w) = None" "ro_customer od = Some cid"
      "\<forall>c\<in>set (customers w). \<not> (c_shopifyId c = cid \<and> c_storeId c = st)" for cid
    using that customer_findUnique_none [OF that(3)]
    by (simp add: row)
  have 4: "map o_customerId (filter ?P (orders (order_item flt js st w od))) = [o_customerId r]"
    if "find ?P (orders w) = Some r" for r
    using that by (simp add: row)
  show ?thesis
    using 1 2 3 4 t by blast
qed

text \<open>
  The amended claim C6 at a concrete store that holds customer 7 with local
  identifier 1 and no order: the order of customer 7 is stored with reference 1, the
  order of the unknown customer 8 with a null reference, and no error is logged.
\<close>

theorem new_order_linking_witness:
  "unique_keys (ex_stored\<lparr>orders := []\<rparr>) \<and>
   processedAt_of ex_js ex_order \<noteq> None \<and>
   customers (ex_stored\<lparr>orders := []\<rparr>)
     = [\<lparr>c_id = 1, c_shopifyId = ''7'', c_email = Some ''old@example.com'',
         c_firstName = None, c_lastName = Some ''Lee'', c_storeId = ''s1''\<rparr>] \<and>
   ro_customer ex_order = Some ''7'' \<and>
   map o_customerId
     (filter (\<lambda>r. o_shopifyId r = ''100'' \<and> o_storeId r = ''s1'')
        (orders (order_item no_faults ex_js ''s1'' (ex_stored\<lparr>orders := []\<rparr>) ex_order)))
     = [Some 1] \<and>
   ro_customer ex_order3 = Some ''8'' \<and>
   map o_customerId
     (filter (\<lambda>r. o_shopifyId r = ''102'' \<and> o_storeId r = ''s1'')
        (orders (order_item no_faults ex_js ''s1'' (ex_stored\<lparr>orders := []\<rparr>) ex_order3)))
     = [None] \<and>
   trace (order_item no_faults ex_js ''s1'' (ex_stored\<lparr>orders := []\<rparr>) ex_order3)
     = [CustomerFindUnique ''8'' True, OrderUpsert ''102'' True]"
proof -
  let ?w = "ex_stored\<lparr>orders := []\<rparr>"
  have h: "unique_keys ?w"
    by (simp add: unique_keys_def ex_stored_def)
  have f: "no_faults (calls ?w) = None" "no_faults (Suc (calls ?w)) = None"
    by (simp_all add: no_faults_def)
  have p: "processedAt_of ex_js ex_order \<noteq> None" "processedAt_of ex_js ex_order3 \<noteq> None"
    by (simp_all add: ex_processedAt)
  have c: "customers ?w
     = [\<lparr>c_id = 1, c_shopifyId = ''7'', c_email = Some ''old@example.com'',
         c_firstName = None, c_lastName = Some ''Lee'', c_storeId = ''s1''\<rparr>]"
    by (simp add: ex_stored_def)
  have r: "ro_customer ex_order = Some ''7''" "ro_id ex_order = ''100''"
    "ro_customer ex_order3 = Some ''8''" "ro_id ex_order3 = ''102''"
    by (simp_all add: ex_order_def ex_order3_def)
  show ?thesis
    using h p c r
      new_order_linking [where flt = no_faults and js = ex_js and st = "''s1''"
        and od = ex_order, OF h f p(1)]
      new_order_linking [where flt = no_faults and js = ex_js and st = "''s1''"
        and od = ex_order3, OF h f p(2)]
    by (simp add: ex_stored_def)
qed

text \<open>
  Claim C6 as stated fails for an order that is already stored.  The store holds the
  customer with external identifier 7 (local identifier 1) and an order row with a
  null customer reference; the raw order embeds customer 7; after the order is
  processed, no call rejected, its stored reference is still null.
\<close>

theorem existing_order_not_linked:
  "map c_id
     (filter (\<lambda>c. c_shopifyId c = ''7'' \<and> c_storeId c = ''s1'') (customers ex_stored))
     = [1] \<and>
   ro_customer ex_order = Some ''7'' \<and>
   ro_id ex_order = ''100'' \<and>
   map o_customerId
     (filter (\<lambda>r. o_shopifyId r = ''100'' \<and> o_storeId r = ''s1'')
        (orders (order_item no_faults ex_js ''s1'' ex_stored ex_order)))
     = [None]"
  by (simp add: ex_order_def ex_stored_def no_faults_def customer_findUnique_def
      customer_key_def order_item_def order_write_def processedAt_of_def ex_js_fields
      order_upsert_def order_findUnique_def order_key_def order_update_def field_update_def)

subsection \<open>The order of writes in a run\<close>

lemma violation_append:
  "order_op_before_customer_upsert (xs @ ys) \<longleftrightarrow>
     order_op_before_customer_upsert xs \<or> order_op_before_customer_upsert ys \<or>
     (list_ex is_order_op xs \<and> list_ex is_customer_upsert ys)"
  by (induction xs) (auto simp: list_ex_iff)

lemma no_violation_without_order_op:
  "\<forall>e\<in>set xs. \<not> is_order_op e \<Longrightarrow> \<not> order_op_before_customer_upsert xs"
  by (induction xs) auto

lemma no_violation_without_customer_upsert:
  "\<forall>e\<in>set xs. \<not> is_customer_upsert e \<Longrightarrow> \<not> order_op_before_customer_upsert xs"
  by (induction xs) (auto simp: list_ex_iff)

lemma customers_phase_events:
  "\<exists>es. trace (state_of (customers_phase flt st r w)) = trace w @ es \<and>
        (\<forall>e\<in>set es. \<not> is_order_op e \<and> \<not> is_fetch e)"
proof (cases "r_ok r \<and> r_json r \<noteq> None \<and> customers_field (the (r_json r)) \<noteq> None")
  case False
  then show ?thesis
    by (auto simp: customers_phase_def split: option.split)
next
  case True
  then obtain b cs where b: "r_ok r" "r_json r = Some b" "customers_field b = Some cs"
    by auto
  obtain es where es:
    "trace (customers_loop flt (s_id st) (emit (FetchedCustomers (length cs)) w) cs)
     = trace (emit (FetchedCustomers (length cs)) w) @ es"
    "\<forall>e\<in>set es. \<not> is_order_op e \<and> \<not> is_fetch e"
    using customers_loop_events by blast
  show ?thesis
    by (rule exI [of _ "FetchedCustomers (length cs) # es @ [UpsertedCustomers (length cs)]"])
       (use b es in \<open>simp add: customers_phase_def\<close>)
qed

lemma orders_phase_events:
  "\<exists>es. trace (state_of (orders_phase flt js st r w)) = trace w @ es \<and>
        (\<forall>e\<in>set es. \<not> is_customer_upsert e \<and> \<not> is_fetch e)"
proof (cases "r_ok r \<and> r_json r \<noteq> None \<and> orders_field (the (r_json r)) \<noteq> None")
  case False
  then show ?thesis
    by (auto simp: orders_phase_def split: option.split)
next
  case True
  then obtain b os where b: "r_ok r" "r_json r = Some b" "orders_field b = Some os"
    by auto
  obtain es where es:
    "trace (orders_loop flt js (s_id st) (emit (FetchedOrders (length os)) w) os)
     = trace (emit (FetchedOrders (length os)) w) @ es"
    "\<forall>e\<in>set es. \<not> is_customer_upsert e \<and> \<not> is_fetch e"
    using orders_loop_events by blast
  show ?thesis
    by (rule exI [of _ "FetchedOrders (length os) # es @ [UpsertedOrders (length os)]"])
       (use b es in \<open>simp add: orders_phase_def\<close>)
qed

lemma fetch_orders_then_events:
  "\<exists>es. trace (state_of (fetch_orders_then shopify flt js st w)) = trace w @ es \<and>
        (\<forall>e\<in>set es. \<not> is_customer_upsert e) \<and>
        filter is_fetch es = [Fetch (ordersApiUrl (s_shop st))]"
proof (cases "shopify (ordersApiUrl (s_shop st)) (s_accessToken st)")
  case (Rejected m)
  then show ?thesis by (simp add: fetch_orders_then_def)
next
  case (Responded r)
  obtain es where es:
    "trace (state_of (orders_phase flt js st r (emit (Fetch (ordersApiUrl (s_shop st))) w)))
     = trace (emit (Fetch (ordersApiUrl (s_shop st))) w) @ es"
    "\<forall>e\<in>set es. \<not> is_customer_upsert e \<and> \<not> is_fetch e"
    using orders_phase_events by blast
  have "filter is_fetch es = []"
    using es(2) by (simp add: filter_empty_conv)
  then show ?thesis
    by (intro exI [of _ "Fetch (ordersApiUrl (s_shop st)) # es"])
       (use Responded es in \<open>simp add: fetch_orders_then_def\<close>)
qed

lemma sync_try_events:
  "\<exists>pre post. trace (state_of (sync_try shopify flt js st w)) = trace w @ pre @ post \<and>
        (\<forall>e\<in>set pre. \<not> is_order_op e) \<and> (\<forall>e\<in>set post. \<not> is_customer_upsert e) \<and>
        (filter is_fetch (pre @ post) = [Fetch (customersApiUrl (s_shop st))] \<or>
         filter is_fetch (pre @ post)
         = [Fetch (customersApiUrl (s_shop st)), Fetch (ordersApiUrl (s_shop st))])"
proof (cases "shopify (customersApiUrl (s_shop st)) (s_accessToken st)")
  case (Rejected m)
  show ?thesis
    by (rule exI [of _ "[Fetch (customersApiUrl (s_shop st))]"], rule exI [of _ "[]"])
       (use Rejected in \<open>simp add: sync_try_def\<close>)
next
  case (Responded r)
  let ?w1 = "emit (Fetch (customersApiUrl (s_shop st))) w"
  obtain es where es:
    "trace (state_of (customers_phase flt st r ?w1)) = trace ?w1 @ es"
    "\<forall>e\<in>set es. \<not> is_order_op e \<and> \<not> is_fetch e"
    using customers_phase_events by blast
  have nf: "filter is_fetch es = []"
    using es(2) by (simp add: filter_empty_conv)
  show ?thesis
  proof (cases "customers_phase flt st r ?w1")
    case (Threw m w2)
    show ?thesis
      by (rule exI [of _ "Fetch (customersApiUrl (s_shop st)) # es"], rule exI [of _ "[]"])
         (use Responded Threw es nf in \<open>simp add: sync_try_def\<close>)
  next
    case (Returned u w2)
    obtain es2 where es2:
      "trace (state_of (fetch_orders_then shopify flt js st w2)) = trace w2 @ es2"
      "\<forall>e\<in>set es2. \<not> is_customer_upsert e"
      "filter is_fetch es2 = [Fetch (ordersApiUrl (s_shop st))]"
      using fetch_orders_then_events by blast
    show ?thesis
      by (rule exI [of _ "Fetch (customersApiUrl (s_shop st)) # es"], rule exI [of _ es2])
         (use Responded Returned es es2 nf in \<open>simp add: sync_try_def\<close>)
  qed
qed

lemma syncHistoricalData_returns:
  "syncHistoricalData shopify flt js st w
   = Returned () (state_of (syncHistoricalData shopify flt js st w))"
  by (simp add: syncHistoricalData_def split: outcome.split)

lemma syncHistoricalData_events:
  "\<exists>pre post. trace (state_of (syncHistoricalData shopify flt js st w)) = trace w @ pre @ post \<and>
        (\<forall>e\<in>set pre. \<not> is_order_op e) \<and> (\<forall>e\<in>set post. \<not> is_customer_upsert e) \<and>
        (filter is_fetch (pre @ post) = [Fetch (customersApiUrl (s_shop st))] \<or>
         filter is_fetch (pre @ post)
         = [Fetch (customersApiUrl (s_shop st)), Fetch (ordersApiUrl (s_shop st))])"
proof -
  let ?w0 = "emit (SyncStarting (s_shop st)) w"
  obtain pre post where pp:
    "trace (state_of (sync_try shopify flt js st ?w0)) = trace ?w0 @ pre @ post"
    "\<forall>e\<in>set pre. \<not> is_order_op e" "\<forall>e\<in>set post. \<not> is_customer_upsert e"
    "filter is_fetch (pre @ post) = [Fetch (customersApiUrl (s_shop st))] \<or>
     filter is_fetch (pre @ post)
     = [Fetch (customersApiUrl (s_shop st)), Fetch (ordersApiUrl (s_shop st))]"
    using sync_try_events by blast
  show ?thesis
  proof (cases "sync_try shopify flt js st ?w0")
    case (Returned u w')
    show ?thesis
      by (rule exI [of _ "SyncStarting (s_shop st) # pre"], rule exI [of _ post])
         (use Returned pp in \<open>simp add: syncHistoricalData_def\<close>)
  next
    case (Threw m w')
    show ?thesis
      by (rule exI [of _ "SyncStarting (s_shop st) # pre"],
          rule exI [of _ "post @ [ErrorDuringSync m]"])
         (use Threw pp in \<open>simp add: syncHistoricalData_def\<close>)
  qed
qed

text \<open>
  Claim C7.  In the events of one run of \<open>syncHistoricalData\<close>, whatever the API
  answers and whichever Prisma calls reject, no order operation (lookup of an
  order's customer, or order upsert) comes before a customer upsert.
\<close>

theorem customers_written_before_orders:
  "\<not> order_op_before_customer_upsert
       (drop (length (trace w)) (trace (state_of (syncHistoricalData shopify flt js st w))))"
proof -
  obtain pre post where pp:
    "trace (state_of (syncHistoricalData shopify flt js st w)) = trace w @ pre @ post"
    "\<forall>e\<in>set pre. \<not> is_order_op e" "\<forall>e\<in>set post. \<not> is_customer_upsert e"
    using syncHistoricalData_events by blast
  have "\<not> order_op_before_customer_upsert (pre @ post)"
    using pp(2,3)
    by (simp add: violation_append no_violation_without_order_op
        no_violation_without_customer_upsert list_ex_iff)
  then show ?thesis by (simp add: pp(1))
qed

subsection \<open>The states of a run\<close>

lemma urls_differ [simp]:
  "customersApiUrl shop \<noteq> ordersApiUrl shop" "ordersApiUrl shop \<noteq> customersApiUrl shop"
  by (simp_all add: customersApiUrl_def ordersApiUrl_def)

lemma customers_loop_emit_tables:
  "tables (customers_loop flt sid (emit e3 (emit e2 (emit e1 w))) cs)
   = tables (foldl (\<lambda>v c. customer_upsert sid c v) w (customers_resolved flt (calls w) cs))"
proof -
  have "tables (customers_loop flt sid (emit e3 (emit e2 (emit e1 w))) cs)
        = tables (foldl (\<lambda>v c. customer_upsert sid c v) (emit e3 (emit e2 (emit e1 w)))
                    (customers_resolved flt (calls w) cs))"
    unfolding customers_loop_tables by simp
  also have "\<dots> = tables (foldl (\<lambda>v c. customer_upsert sid c v) w
                      (customers_resolved flt (calls w) cs))"
    by (rule foldl_customer_upsert_cong) simp
  finally show ?thesis .
qed

lemma orders_loop_emit_tables:
  assumes "tables v = tables u"
  shows "tables (orders_loop flt js sid (emit e2 (emit e1 v)) os)
         = tables (foldl (apply_order js sid) u (orders_resolved flt js (calls v) os))"
proof -
  have "tables (orders_loop flt js sid (emit e2 (emit e1 v)) os)
        = tables (foldl (apply_order js sid) (emit e2 (emit e1 v))
                    (orders_resolved flt js (calls v) os))"
    unfolding orders_loop_tables by simp
  also have "\<dots> = tables (foldl (apply_order js sid) u (orders_resolved flt js (calls v) os))"
    by (rule foldl_apply_order_cong) (simp add: assms)
  finally show ?thesis .
qed

lemma run_both_fetched:
  assumes "shopify (customersApiUrl (s_shop st)) (s_accessToken st) = Responded rc"
    and "r_ok rc" and "r_json rc = Some bc" and "customers_field bc = Some cs"
    and "shopify (ordersApiUrl (s_shop st)) (s_accessToken st) = Responded ro"
    and "r_ok ro" and "r_json ro = Some bo" and "orders_field bo = Some os"
  shows "\<exists>w'. syncHistoricalData shopify flt js st w = Returned () w' \<and>
           trace w'
           = trace w
             @ [SyncStarting (s_shop st), Fetch (customersApiUrl (s_shop st)),
                FetchedCustomers (length cs)]
             @ customer_events flt (calls w) cs
             @ [UpsertedCustomers (length cs), Fetch (ordersApiUrl (s_shop st)),
                FetchedOrders (length os)]
             @ order_events flt js (calls w + length cs) os
             @ [UpsertedOrders (length os)] \<and>
           tables w'
           = tables (foldl (apply_order js (s_id st))
                       (foldl (\<lambda>v c. customer_upsert (s_id st) c v) w
                          (customers_resolved flt (calls w) cs))
                       (orders_resolved flt js (calls w + length cs) os))"
proof -
  let ?w1 = "emit (FetchedCustomers (length cs))
               (emit (Fetch (customersApiUrl (s_shop st))) (emit (SyncStarting (s_shop st)) w))"
  let ?v = "emit (UpsertedCustomers (length cs)) (customers_loop flt (s_id st) ?w1 cs)"
  let ?w2 = "emit (FetchedOrders (length os)) (emit (Fetch (ordersApiUrl (s_shop st))) ?v)"
  let ?w' = "emit (UpsertedOrders (length os)) (orders_loop flt js (s_id st) ?w2 os)"
  have r: "syncHistoricalData shopify flt js st w = Returned () ?w'"
    using assms
    by (simp add: syncHistoricalData_def sync_try_def customers_phase_def
        fetch_orders_then_def orders_phase_def)
  have t: "trace ?w'
           = trace w
             @ [SyncStarting (s_shop st), Fetch (customersApiUrl (s_shop st)),
                FetchedCustomers (length cs)]
             @ customer_events flt (calls w) cs
             @ [UpsertedCustomers (length cs), Fetch (ordersApiUrl (s_shop st)),
                FetchedOrders (length os)]
             @ order_events flt js (calls w + length cs) os
             @ [UpsertedOrders (length os)]"
    by (simp add: orders_loop_trace customers_loop_trace)
  have "tables ?v = tables (foldl (\<lambda>v c. customer_upsert (s_id st) c v) w
                              (customers_resolved flt (calls w) cs))"
    using customers_loop_emit_tables [of flt "s_id st" _ _ _ w cs] by simp
  then have "tables (orders_loop flt js (s_id st) ?w2 os)
        = tables (foldl (apply_order js (s_id st))
                       (foldl (\<lambda>v c. customer_upsert (s_id st) c v) w
                          (customers_resolved flt (calls w) cs))
                       (orders_resolved flt js (calls ?v) os))"
    by (rule orders_loop_emit_tables)
  then have b: "tables ?w'
        = tables (foldl (apply_order js (s_id st))
                       (foldl (\<lambda>v c. customer_upsert (s_id st) c v) w
                          (customers_resolved flt (calls w) cs))
                       (orders_resolved flt js (calls w + length cs) os))"
    by simp
  show ?thesis
    using r t b by blast
qed

lemma run_orders_only:
  assumes "shopify (customersApiUrl (s_shop st)) (s_accessToken st) = Responded rc"
    and "\<not> r_ok rc"
    and "shopify (ordersApiUrl (s_shop st)) (s_accessToken st) = Responded ro"
    and "r_ok ro" and "r_json ro = Some bo" and "orders_field bo = Some os"
  shows "\<exists>w'. syncHistoricalData shopify flt js st w = Returned () w' \<and>
           trace w'
           = trace w
             @ [SyncStarting (s_shop st), Fetch (customersApiUrl (s_shop st)),
                FailedFetchCustomers (r_text rc), Fetch (ordersApiUrl (s_shop st)),
                FetchedOrders (length os)]
             @ order_events flt js (calls w) os
             @ [UpsertedOrders (length os)] \<and>
           tables w'
           = tables (foldl (apply_order js (s_id st)) w (orders_resolved flt js (calls w) os))"
proof -
  let ?v = "emit (FailedFetchCustomers (r_text rc))
              (emit (Fetch (customersApiUrl (s_shop st))) (emit (SyncStarting (s_shop st)) w))"
  let ?w2 = "emit (FetchedOrders (length os)) (emit (Fetch (ordersApiUrl (s_shop st))) ?v)"
  let ?w' = "emit (UpsertedOrders (length os)) (orders_loop flt js (s_id st) ?w2 os)"
  have r: "syncHistoricalData shopify flt js st w = Returned () ?w'"
    using assms
    by (simp add: syncHistoricalData_def sync_try_def customers_phase_def
        fetch_orders_then_def orders_phase_def)
  have t: "trace ?w'
           = trace w
             @ [SyncStarting (s_shop st), Fetch (customersApiUrl (s_shop st)),
                FailedFetchCustomers (r_text rc), Fetch (ordersApiUrl (s_shop st)),
                FetchedOrders (length os)]
             @ order_events flt js (calls w) os
             @ [UpsertedOrders (length os)]"
    by (simp add: orders_loop_trace)
  have "tables ?v = tables w"
    by simp
  then have "tables (orders_loop flt js (s_id st) ?w2 os)
        = tables (foldl (apply_order js (s_id st)) w (orders_resolved flt js (calls ?v) os))"
    by (rule orders_loop_emit_tables)
  then have b: "tables ?w'
        = tables (foldl (apply_order js (s_id st)) w (orders_resolved flt js (calls w) os))"
    by simp
  show ?thesis
    using r t b by blast
qed

lemma run_nothing_fetched:
  assumes "shopify (customersApiUrl (s_shop st)) (s_accessToken st) = Responded rc"
    and "\<not> r_ok rc"
    and "shopify (ordersApiUrl (s_shop st)) (s_accessToken st) = Responded ro"
    and "\<not> r_ok ro"
  shows "\<exists>w'. syncHistoricalData shopify flt js st w = Returned () w' \<and>
           trace w'
           = trace w
             @ [SyncStarting (s_shop st), Fetch (customersApiUrl (s_shop st)),
                FailedFetchCustomers (r_text rc), Fetch (ordersApiUrl (s_shop st)),
                FailedFetchOrders (r_text ro)] \<and>
           tables w' = tables w \<and> calls w' = calls w"
  using assms
  by (simp add: syncHistoricalData_def sync_try_def customers_phase_def
      fetch_orders_then_def orders_phase_def)

lemma run_customers_only:
  assumes "shopify (customersApiUrl (s_shop st)) (s_accessToken st) = Responded rc"
    and "r_ok rc" and "r_json rc = Some bc" and "customers_field bc = Some cs"
    and "shopify (ordersApiUrl (s_shop st)) (s_accessToken st) = Responded ro"
    and "\<not> r_ok ro"
  shows "\<exists>w'. syncHistoricalData shopify flt js st w = Returned () w' \<and>
           trace w'
           = trace w
             @ [SyncStarting (s_shop st), Fetch (customersApiUrl (s_shop st)),
                FetchedCustomers (length cs)]
             @ customer_events flt (calls w) cs
             @ [UpsertedCustomers (length cs), Fetch (ordersApiUrl (s_shop st)),
                FailedFetchOrders (r_text ro)] \<and>
           tables w'
           = tables (foldl (\<lambda>v c. customer_upsert (s_id st) c v) w
                       (customers_resolved flt (calls w) cs))"
proof -
  let ?w1 = "emit (FetchedCustomers (length cs))
               (emit (Fetch (customersApiUrl (s_shop st))) (emit (SyncStarting (s_shop st)) w))"
  let ?w' = "emit (FailedFetchOrders (r_text ro))
               (emit (Fetch (ordersApiUrl (s_shop st)))
                  (emit (UpsertedCustomers (length cs)) (customers_loop flt (s_id st) ?w1 cs)))"
  have r: "syncHistoricalData shopify flt js st w = Returned () ?w'"
    using assms
    by (simp add: syncHistoricalData_def sync_try_def customers_phase_def
        fetch_orders_then_def orders_phase_def)
  have t: "trace ?w'
           = trace w
             @ [SyncStarting (s_shop st), Fetch (customersApiUrl (s_shop st)),
                FetchedCustomers (length cs)]
             @ customer_events flt (calls w) cs
             @ [UpsertedCustomers (length cs), Fetch (ordersApiUrl (s_shop st)),
                FailedFetchOrders (r_text ro)]"
    by (simp add: customers_loop_trace)
  have b: "tables ?w'
           = tables (foldl (\<lambda>v c. customer_upsert (s_id st) c v) w
                       (customers_resolved flt (calls w) cs))"
    using customers_loop_emit_tables [of flt "s_id st" _ _ _ w cs] by simp
  show ?thesis
    using r t b by blast
qed

subsection \<open>Failures of single items\<close>

text \<open>
  Claim C9.  \<open>syncHistoricalData\<close> always returns and never throws.  For every list
  and every schedule of rejected Prisma calls, the events of the customer loop are, item
  by item and in list order, the resolved upsert, or the rejected upsert followed by
  the logged error; the tables after the loop are those obtained by upserting exactly
  the customers whose call resolved, in list order.  The same holds for the order
  loop, where an item is rejected by its lookup, by its upsert, or by an invalid date:
  each rejection is followed by the logged error of that order, and the tables are
  those obtained by applying exactly the orders whose calls resolved.  So an item
  after a rejected one is processed as if the rejected one were not in the list.  For
  a run that fetched both collections, the events are the two loops' events between
  the lines of the run, and the tables are the result of both loops.
\<close>

theorem rejected_items_are_logged_and_skipped:
  "(\<exists>w'. syncHistoricalData shopify flt js st w = Returned () w') \<and>
   trace (customers_loop flt sid w cs) = trace w @ customer_events flt (calls w) cs \<and>
   tables (customers_loop flt sid w cs)
     = tables (foldl (\<lambda>v c. customer_upsert sid c v) w (customers_resolved flt (calls w) cs)) \<and>
   trace (orders_loop flt js sid w os) = trace w @ order_events flt js (calls w) os \<and>
   tables (orders_loop flt js sid w os)
     = tables (foldl (apply_order js sid) w (orders_resolved flt js (calls w) os)) \<and>
   (shopify (customersApiUrl (s_shop st)) (s_accessToken st) = Responded rc \<and>
    r_ok rc \<and> r_json rc = Some bc \<and> customers_field bc = Some cs \<and>
    shopify (ordersApiUrl (s_shop st)) (s_accessToken st) = Responded ro \<and>
    r_ok ro \<and> r_json ro = Some bo \<and> orders_field bo = Some os \<longrightarrow>
      trace (state_of (syncHistoricalData shopify flt js st w))
      = trace w
        @ [SyncStarting (s_shop st), Fetch (customersApiUrl (s_shop st)),
           FetchedCustomers (length cs)]
        @ customer_events flt (calls w) cs
        @ [UpsertedCustomers (length cs), Fetch (ordersApiUrl (s_shop st)),
           FetchedOrders (length os)]
        @ order_events flt js (calls w + length cs) os
        @ [UpsertedOrders (length os)] \<and>
      tables (state_of (syncHistoricalData shopify flt js st w))
      = tables (foldl (apply_order js (s_id st))
                  (foldl (\<lambda>v c. customer_upsert (s_id st) c v) w
                     (customers_resolved flt (calls w) cs))
                  (orders_resolved flt js (calls w + length cs) os)))"
proof (intro conjI impI)
  show "\<exists>w'. syncHistoricalData shopify flt js st w = Returned () w'"
    using syncHistoricalData_returns by blast
  show "trace (customers_loop flt sid w cs) = trace w @ customer_events flt (calls w) cs"
    by (rule customers_loop_trace)
  show "tables (customers_loop flt sid w cs)
     = tables (foldl (\<lambda>v c. customer_upsert sid c v) w (customers_resolved flt (calls w) cs))"
    by (rule customers_loop_tables)
  show "trace (orders_loop flt js sid w os) = trace w @ order_events flt js (calls w) os"
    by (rule orders_loop_trace)
  show "tables (orders_loop flt js sid w os)
     = tables (foldl (apply_order js sid) w (orders_resolved flt js (calls w) os))"
    by (rule orders_loop_tables)
next
  assume a: "shopify (customersApiUrl (s_shop st)) (s_accessToken st) = Responded rc \<and>
    r_ok rc \<and> r_json rc = Some bc \<and> customers_field bc = Some cs \<and>
    shopify (ordersApiUrl (s_shop st)) (s_accessToken st) = Responded ro \<and>
    r_ok ro \<and> r_json ro = Some bo \<and> orders_field bo = Some os"
  then obtain w' where w':
    "syncHistoricalData shopify flt js st w = Returned () w'"
    "trace w'
      = trace w
        @ [SyncStarting (s_shop st), Fetch (customersApiUrl (s_shop st)),
           FetchedCustomers (length cs)]
        @ customer_events flt (calls w) cs
        @ [UpsertedCustomers (length cs), Fetch (ordersApiUrl (s_shop st)),
           FetchedOrders (length os)]
        @ order_events flt js (calls w + length cs) os
        @ [UpsertedOrders (length os)]"
    "tables w'
      = tables (foldl (apply_order js (s_id st))
                  (foldl (\<lambda>v c. customer_upsert (s_id st) c v) w
                     (customers_resolved flt (calls w) cs))
                  (orders_resolved flt js (calls w + length cs) os))"
    using run_both_fetched [of shopify st rc bc cs ro bo os flt js w] by blast
  show "trace (state_of (syncHistoricalData shopify flt js st w))
      = trace w
        @ [SyncStarting (s_shop st), Fetch (customersApiUrl (s_shop st)),
           FetchedCustomers (length cs)]
        @ customer_events flt (calls w) cs
        @ [UpsertedCustomers (length cs), Fetch (ordersApiUrl (s_shop st)),
           FetchedOrders (length os)]
        @ order_events flt js (calls w + length cs) os
        @ [UpsertedOrders (length os)]"
    using w'(2) by (simp add: w'(1))
  show "tables (state_of (syncHistoricalData shopify flt js st w))
      = tables (foldl (apply_order js (s_id st))
                  (foldl (\<lambda>v c. customer_upsert (s_id st) c v) w
                     (customers_resolved flt (calls w) cs))
                  (orders_resolved flt js (calls w + length cs) os))"
    using w'(3) by (simp add: w'(1))
qed

lemma ex_many_tables:
  "apply_order ex_js ''s1''
     (apply_order ex_js ''s1''
        (customer_upsert ''s1'' ex_customer3 (customer_upsert ''s1'' ex_customer ex_empty))
        ex_order)
     ex_order3
   = \<lparr>stores = [ex_store],
      customers =
       [\<lparr>c_id = 0, c_shopifyId = ''7'', c_email = Some ''ann@example.com'',
         c_firstName = Some ''Ann'', c_lastName = None, c_storeId = ''s1''\<rparr>,
        \<lparr>c_id = 1, c_shopifyId = ''9'', c_email = None, c_firstName = None,
         c_lastName = Some ''Cho'', c_storeId = ''s1''\<rparr>],
      orders =
       [\<lparr>o_id = 2, o_shopifyId = ''100'', o_orderNumber = Some ''#1001'',
         o_totalPrice = Num (19 / 2), o_currency = Some ''EUR'',
         o_financialStatus = Some ''paid'', o_fulfillmentStatus = None,
         o_processedAt = Some 1719792000000, o_storeId = ''s1'', o_customerId = Some 0\<rparr>,
        \<lparr>o_id = 3, o_shopifyId = ''102'', o_orderNumber = Some ''#1003'',
         o_totalPrice = Num (1 / 4), o_currency = None,
         o_financialStatus = Some ''pending'', o_fulfillmentStatus = None,
         o_processedAt = None, o_storeId = ''s1'', o_customerId = None\<rparr>],
      next_id = 4, calls = 0, trace = []\<rparr>"
  by (simp add: ex_empty_def ex_customer_def ex_customer3_def customer_upsert_def
      customer_findUnique_def customer_key_def customer_create_def field_create_def
      apply_order_def processedAt_of_def ex_order_def ex_order3_def
      order_upsert_def order_findUnique_def order_key_def order_create_def
      ex_js_fields ex_prices)

text \<open>
  Claim C9 at a concrete run with three customers and three orders, in which the
  second Prisma call, the upsert of the second customer, rejects, and the second order
  has a text that is no date.  Both errors are logged; the third customer and the
  third order, which follow the rejected items, are stored; the third order, of the
  customer that was rejected, is stored with a null reference.
\<close>

theorem rejected_items_are_logged_and_skipped_witness:
  "ex_shopify_many (customersApiUrl (s_shop ex_store)) (s_accessToken ex_store)
     = Responded \<lparr>r_ok = True, r_text = [],
         r_json = Some \<lparr>customers_field = Some [ex_customer, ex_customer2, ex_customer3],
                        orders_field = None\<rparr>,
         r_link = None\<rparr> \<and>
   ex_shopify_many (ordersApiUrl (s_shop ex_store)) (s_accessToken ex_store)
     = Responded \<lparr>r_ok = True, r_text = [],
         r_json = Some \<lparr>customers_field = None,
                        orders_field = Some [ex_order, ex_order2, ex_order3]\<rparr>,
         r_link = None\<rparr> \<and>
   map second_call_fails [0, 1, 2, 3, 4, 5, 6, 7]
     = [None, Some ''P2024'', None, None, None, None, None, None] \<and>
   processedAt_of ex_js ex_order2 = None \<and>
   trace (state_of (syncHistoricalData ex_shopify_many second_call_fails ex_js ex_store ex_empty))
     = [SyncStarting ''a.myshopify.com'',
        Fetch (customersApiUrl ''a.myshopify.com''),
        FetchedCustomers 3,
        CustomerUpsert ''7'' True,
        CustomerUpsert ''8'' False, ErrorUpsertingCustomer ''8'',
        CustomerUpsert ''9'' True,
        UpsertedCustomers 3,
        Fetch (ordersApiUrl ''a.myshopify.com''),
        FetchedOrders 3,
        CustomerFindUnique ''7'' True, OrderUpsert ''100'' True,
        OrderUpsert ''101'' False, ErrorUpsertingOrder ''101'',
        CustomerFindUnique ''8'' True, OrderUpsert ''102'' True,
        UpsertedOrders 3] \<and>
   customers (state_of (syncHistoricalData ex_shopify_many second_call_fails ex_js ex_store
                          ex_empty))
     = [\<lparr>c_id = 0, c_shopifyId = ''7'', c_email = Some ''ann@example.com'',
         c_firstName = Some ''Ann'', c_lastName = None, c_storeId = ''s1''\<rparr>,
        \<lparr>c_id = 1, c_shopifyId = ''9'', c_email = None, c_firstName = None,
         c_lastName = Some ''Cho'', c_storeId = ''s1''\<rparr>] \<and>
   orders (state_of (syncHistoricalData ex_shopify_many second_call_fails ex_js ex_store
                       ex_empty))
     = [\<lparr>o_id = 2, o_shopifyId = ''100'', o_orderNumber = Some ''#1001'',
         o_totalPrice = Num (19 / 2), o_currency = Some ''EUR'',
         o_financialStatus = Some ''paid'', o_fulfillmentStatus = None,
         o_processedAt = Some 1719792000000, o_storeId = ''s1'', o_customerId = Some 0\<rparr>,
        \<lparr>o_id = 3, o_shopifyId = ''102'', o_orderNumber = Some ''#1003'',
         o_totalPrice = Num (1 / 4), o_currency = None,
         o_financialStatus = Some ''pending'', o_fulfillmentStatus = None,
         o_processedAt = None, o_storeId = ''s1'', o_customerId = None\<rparr>]"
proof -
  have h: "ex_shopify_many (customersApiUrl (s_shop ex_store)) (s_accessToken ex_store)
     = Responded \<lparr>r_ok = True, r_text = [],
         r_json = Some \<lparr>customers_field = Some [ex_customer, ex_customer2, ex_customer3],
                        orders_field = None\<rparr>,
         r_link = None\<rparr>"
    "ex_shopify_many (ordersApiUrl (s_shop ex_store)) (s_accessToken ex_store)
     = Responded \<lparr>r_ok = True, r_text = [],
         r_json = Some \<lparr>customers_field = None,
                        orders_field = Some [ex_order, ex_order2, ex_order3]\<rparr>,
         r_link = None\<rparr>"
    by (simp_all add: ex_shopify_many_def ex_store_def)
  have f: "map second_call_fails [0, 1, 2, 3, 4, 5, 6, 7]
     = [None, Some ''P2024'', None, None, None, None, None, None]"
    by (simp add: second_call_fails_def)
  have e: "trace ex_empty = []" "calls ex_empty = 0" "s_id ex_store = ''s1''"
    "s_shop ex_store = ''a.myshopify.com''"
    by (simp_all add: ex_empty_def ex_store_def)
  have c: "ro_customer ex_order = Some ''7''" "ro_customer ex_order2 = None"
    "ro_customer ex_order3 = Some ''8''" "ro_id ex_order = ''100''" "ro_id ex_order2 = ''101''"
    "ro_id ex_order3 = ''102''" "rc_id ex_customer = ''7''" "rc_id ex_customer2 = ''8''"
    "rc_id ex_customer3 = ''9''"
    by (simp_all add: ex_order_def ex_order2_def ex_order3_def ex_customer_def ex_customer2_def
        ex_customer3_def)
  show ?thesis
    using h f
      rejected_items_are_logged_and_skipped [where shopify = ex_shopify_many
        and flt = second_call_fails
        and js = ex_js and st = ex_store and w = ex_empty
        and sid = "''s1''"
        and cs = "[ex_customer, ex_customer2, ex_customer3]"
        and os = "[ex_order, ex_order2, ex_order3]"
        and rc = "\<lparr>r_ok = True, r_text = [],
         r_json = Some \<lparr>customers_field = Some [ex_customer, ex_customer2, ex_customer3],
                        orders_field = None\<rparr>,
         r_link = None\<rparr>"
        and bc = "\<lparr>customers_field = Some [ex_customer, ex_customer2, ex_customer3],
                        orders_field = None\<rparr>"
        and ro = "\<lparr>r_ok = True, r_text = [],
         r_json = Some \<lparr>customers_field = None,
                        orders_field = Some [ex_order, ex_order2, ex_order3]\<rparr>,
         r_link = None\<rparr>"
        and bo = "\<lparr>customers_field = None,
                        orders_field = Some [ex_order, ex_order2, ex_order3]\<rparr>"]
    by (simp add: e c upsert_events_def upsert_resolves_def ex_processedAt
        second_call_fails_def ex_many_tables tables_eq_iff)
qed

subsection \<open>Failures of a fetch\<close>

lemma orders_phase_customers [simp]:
  "customers (state_of (orders_phase flt js st r w)) = customers w"
  by (simp add: orders_phase_def split: option.split)

lemma fetch_orders_then_customers [simp]:
  "customers (state_of (fetch_orders_then shopify flt js st w)) = customers w"
  by (simp add: fetch_orders_then_def Let_def split: fetched.split)

lemma fetch_orders_then_first:
  "\<exists>es. trace (state_of (fetch_orders_then shopify flt js st w))
        = trace w @ Fetch (ordersApiUrl (s_shop st)) # es"
proof (cases "shopify (ordersApiUrl (s_shop st)) (s_accessToken st)")
  case (Rejected m)
  then show ?thesis by (simp add: fetch_orders_then_def)
next
  case (Responded r)
  obtain es where
    "trace (state_of (orders_phase flt js st r (emit (Fetch (ordersApiUrl (s_shop st))) w)))
     = trace (emit (Fetch (ordersApiUrl (s_shop st))) w) @ es"
    using orders_phase_events by blast
  then show ?thesis
    using Responded by (simp add: fetch_orders_then_def)
qed

text \<open>
  Claim C3, as amended.  When the customers fetch gets a non-success response, the
  run returns normally, writes no customer, and its first events are the start line,
  the customers request, the logged failure and the orders request.  If the orders
  are then fetched, the run goes on with the order loop: its events are exactly the
  logged failure, the orders request and the events of the order loop, and the tables
  are those obtained by applying the orders whose calls resolved.  If the orders
  fetch also gets a non-success response, both failures are logged and the tables are
  unchanged.  When the customers were fetched and the orders fetch gets a non-success
  response, the events are those of the customer loop followed by the orders request
  and the logged failure, and the tables are as the customer loop left them: no order
  is written and nothing is rolled back.  In no case does the caller see an error.
\<close>

theorem failed_fetch_is_logged:
  "(shopify (customersApiUrl (s_shop st)) (s_accessToken st) = Responded rc \<and> \<not> r_ok rc \<longrightarrow>
      (\<exists>w'. syncHistoricalData shopify flt js st w = Returned () w') \<and>
      customers (state_of (syncHistoricalData shopify flt js st w)) = customers w \<and>
      take 4 (drop (length (trace w))
                (trace (state_of (syncHistoricalData shopify flt js st w))))
      = [SyncStarting (s_shop st), Fetch (customersApiUrl (s_shop st)),
         FailedFetchCustomers (r_text rc), Fetch (ordersApiUrl (s_shop st))]) \<and>
   (shopify (customersApiUrl (s_shop st)) (s_accessToken st) = Responded rc \<and> \<not> r_ok rc \<and>
    shopify (ordersApiUrl (s_shop st)) (s_accessToken st) = Responded ro \<and>
    r_ok ro \<and> r_json ro = Some bo \<and> orders_field bo = Some os \<longrightarrow>
      (\<exists>w'. syncHistoricalData shopify flt js st w = Returned () w') \<and>
      trace (state_of (syncHistoricalData shopify flt js st w))
      = trace w
        @ [SyncStarting (s_shop st), Fetch (customersApiUrl (s_shop st)),
           FailedFetchCustomers (r_text rc), Fetch (ordersApiUrl (s_shop st)),
           FetchedOrders (length os)]
        @ order_events flt js (calls w) os
        @ [UpsertedOrders (length os)] \<and>
      tables (state_of (syncHistoricalData shopify flt js st w))
      = tables (foldl (apply_order js (s_id st)) w (orders_resolved flt js (calls w) os))) \<and>
   (shopify (customersApiUrl (s_shop st)) (s_accessToken st) = Responded rc \<and> \<not> r_ok rc \<and>
    shopify (ordersApiUrl (s_shop st)) (s_accessToken st) = Responded ro \<and> \<not> r_ok ro \<longrightarrow>
      (\<exists>w'. syncHistoricalData shopify flt js st w = Returned () w') \<and>
      trace (state_of (syncHistoricalData shopify flt js st w))
      = trace w
        @ [SyncStarting (s_shop st), Fetch (customersApiUrl (s_shop st)),
           FailedFetchCustomers (r_text rc), Fetch (ordersApiUrl (s_shop st)),
           FailedFetchOrders (r_text ro)] \<and>
      tables (state_of (syncHistoricalData shopify flt js st w)) = tables w) \<and>
   (shopify (customersApiUrl (s_shop st)) (s_accessToken st) = Responded rc \<and>
    r_ok rc \<and> r_json rc = Some bc \<and> customers_field bc = Some cs \<and>
    shopify (ordersApiUrl (s_shop st)) (s_accessToken st) = Responded ro \<and> \<not> r_ok ro \<longrightarrow>
      (\<exists>w'. syncHistoricalData shopify flt js st w = Returned () w') \<and>
      trace (state_of (syncHistoricalData shopify flt js st w))
      = trace w
        @ [SyncStarting (s_shop st), Fetch (customersApiUrl (s_shop st)),
           FetchedCustomers (length cs)]
        @ customer_events flt (calls w) cs
        @ [UpsertedCustomers (length cs), Fetch (ordersApiUrl (s_shop st)),
           FailedFetchOrders (r_text ro)] \<and>
      tables (state_of (syncHistoricalData shopify flt js st w))
      = tables (foldl (\<lambda>v c. customer_upsert (s_id st) c v) w
                  (customers_resolved flt (calls w) cs)))"
proof -
  have r: "\<exists>w'. syncHistoricalData shopify flt js st w = Returned () w'"
    using syncHistoricalData_returns by blast
  have 1: "customers (state_of (syncHistoricalData shopify flt js st w)) = customers w \<and>
      take 4 (drop (length (trace w))
                (trace (state_of (syncHistoricalData shopify flt js st w))))
      = [SyncStarting (s_shop st), Fetch (customersApiUrl (s_shop st)),
         FailedFetchCustomers (r_text rc), Fetch (ordersApiUrl (s_shop st))]"
    if a: "shopify (customersApiUrl (s_shop st)) (s_accessToken st) = Responded rc" "\<not> r_ok rc"
  proof -
    let ?w1 = "emit (FailedFetchCustomers (r_text rc))
               (emit (Fetch (customersApiUrl (s_shop st))) (emit (SyncStarting (s_shop st)) w))"
    obtain es where es:
      "trace (state_of (fetch_orders_then shopify flt js st ?w1))
       = trace ?w1 @ Fetch (ordersApiUrl (s_shop st)) # es"
      using fetch_orders_then_first by blast
    have c: "customers (state_of (fetch_orders_then shopify flt js st ?w1)) = customers w"
      by simp
    show ?thesis
    proof (cases "fetch_orders_then shopify flt js st ?w1")
      case (Returned u w')
      then show ?thesis using a es c
        by (simp add: syncHistoricalData_def sync_try_def customers_phase_def)
    next
      case (Threw m w')
      then show ?thesis using a es c
        by (simp add: syncHistoricalData_def sync_try_def customers_phase_def)
    qed
  qed
  have 2: "trace (state_of (syncHistoricalData shopify flt js st w))
      = trace w
        @ [SyncStarting (s_shop st), Fetch (customersApiUrl (s_shop st)),
           FailedFetchCustomers (r_text rc), Fetch (ordersApiUrl (s_shop st)),
           FetchedOrders (length os)]
        @ order_events flt js (calls w) os
        @ [UpsertedOrders (length os)] \<and>
      tables (state_of (syncHistoricalData shopify flt js st w))
      = tables (foldl (apply_order js (s_id st)) w (orders_resolved flt js (calls w) os))"
    if "shopify (customersApiUrl (s_shop st)) (s_accessToken st) = Responded rc" "\<not> r_ok rc"
      "shopify (ordersApiUrl (s_shop st)) (s_accessToken st) = Responded ro"
      "r_ok ro" "r_json ro = Some bo" "orders_field bo = Some os"
    using run_orders_only [where shopify = shopify and st = st and flt = flt and js = js and w = w,
        OF that] by auto
  have 3: "trace (state_of (syncHistoricalData shopify flt js st w))
      = trace w
        @ [SyncStarting (s_shop st), Fetch (customersApiUrl (s_shop st)),
           FailedFetchCustomers (r_text rc), Fetch (ordersApiUrl (s_shop st)),
           FailedFetchOrders (r_text ro)] \<and>
      tables (state_of (syncHistoricalData shopify flt js st w)) = tables w"
    if "shopify (customersApiUrl (s_shop st)) (s_accessToken st) = Responded rc" "\<not> r_ok rc"
      "shopify (ordersApiUrl (s_shop st)) (s_accessToken st) = Responded ro" "\<not> r_ok ro"
    using run_nothing_fetched [where shopify = shopify and st = st and flt = flt and js = js and w = w,
        OF that] by auto
  have 4: "trace (state_of (syncHistoricalData shopify flt js st w))
      = trace w
        @ [SyncStarting (s_shop st), Fetch (customersApiUrl (s_shop st)),
           FetchedCustomers (length cs)]
        @ customer_events flt (calls w) cs
        @ [UpsertedCustomers (length cs), Fetch (ordersApiUrl (s_shop st)),
           FailedFetchOrders (r_text ro)] \<and>
      tables (state_of (syncHistoricalData shopify flt js st w))
      = tables (foldl (\<lambda>v c. customer_upsert (s_id st) c v) w
                  (customers_resolved flt (calls w) cs))"
    if "shopify (customersApiUrl (s_shop st)) (s_accessToken st) = Responded rc"
      "r_ok rc" "r_json rc = Some bc" "customers_field bc = Some cs"
      "shopify (ordersApiUrl (s_shop st)) (s_accessToken st) = Responded ro" "\<not> r_ok ro"
    using run_customers_only [where shopify = shopify and st = st and flt = flt and js = js and w = w,
        OF that] by auto
  show ?thesis
    using r 1 2 3 4 by blast
qed

lemma ex_order_applied:
  "apply_order ex_js ''s1'' ex_empty ex_order
   = \<lparr>stores = [ex_store], customers = [],
      orders =
       [\<lparr>o_id = 0, o_shopifyId = ''100'', o_orderNumber = Some ''#1001'',
         o_totalPrice = Num (19 / 2), o_currency = Some ''EUR'',
         o_financialStatus = Some ''paid'', o_fulfillmentStatus = None,
         o_processedAt = Some 1719792000000, o_storeId = ''s1'', o_customerId = None\<rparr>],
      next_id = 1, calls = 0, trace = []\<rparr>"
  by (simp add: ex_empty_def apply_order_def processedAt_of_def ex_order_def
      order_upsert_def order_findUnique_def order_key_def order_create_def field_create_def
      customer_findUnique_def ex_js_fields ex_prices)

lemma ex_customer_applied:
  "customer_upsert ''s1'' ex_customer ex_empty
   = \<lparr>stores = [ex_store],
      customers =
       [\<lparr>c_id = 0, c_shopifyId = ''7'', c_email = Some ''ann@example.com'',
         c_firstName = Some ''Ann'', c_lastName = None, c_storeId = ''s1''\<rparr>],
      orders = [], next_id = 1, calls = 0, trace = []\<rparr>"
  by (simp add: ex_empty_def ex_customer_def customer_upsert_def customer_findUnique_def
      customer_create_def field_create_def)

lemma ex_api_answers:
  "ex_shopify (customersApiUrl ''a.myshopify.com'') tok
     = Responded \<lparr>r_ok = True, r_text = [],
         r_json = Some \<lparr>customers_field = Some [ex_customer], orders_field = None\<rparr>,
         r_link = Some ex_link\<rparr>"
  "ex_shopify (ordersApiUrl ''a.myshopify.com'') tok
     = Responded \<lparr>r_ok = True, r_text = [],
         r_json = Some \<lparr>customers_field = None, orders_field = Some [ex_order]\<rparr>,
         r_link = None\<rparr>"
  by (simp_all add: ex_shopify_def ex_page2_url_def customersApiUrl_def ordersApiUrl_def)

text \<open>
  The amended claim C3 at three concrete shops: one whose customers endpoint answers
  401 (the order is still stored), one whose endpoints both answer 503, and one whose
  orders endpoint answers 500 (the customer stays stored).
\<close>

theorem failed_fetch_is_logged_witness:
  "ex_shopify_401 (customersApiUrl (s_shop ex_store)) (s_accessToken ex_store)
     = Responded \<lparr>r_ok = False, r_text = ''Unauthorized'', r_json = None, r_link = None\<rparr> \<and>
   ex_shopify_401 (ordersApiUrl (s_shop ex_store)) (s_accessToken ex_store)
     = Responded \<lparr>r_ok = True, r_text = [],
         r_json = Some \<lparr>customers_field = None, orders_field = Some [ex_order]\<rparr>,
         r_link = None\<rparr> \<and>
   trace (state_of (syncHistoricalData ex_shopify_401 no_faults ex_js ex_store ex_empty))
     = [SyncStarting ''a.myshopify.com'', Fetch (customersApiUrl ''a.myshopify.com''),
        FailedFetchCustomers ''Unauthorized'', Fetch (ordersApiUrl ''a.myshopify.com''),
        FetchedOrders 1, CustomerFindUnique ''7'' True, OrderUpsert ''100'' True,
        UpsertedOrders 1] \<and>
   customers (state_of (syncHistoricalData ex_shopify_401 no_faults ex_js ex_store ex_empty))
     = [] \<and>
   orders (state_of (syncHistoricalData ex_shopify_401 no_faults ex_js ex_store ex_empty))
     = [\<lparr>o_id = 0, o_shopifyId = ''100'', o_orderNumber = Some ''#1001'',
         o_totalPrice = Num (19 / 2), o_currency = Some ''EUR'',
         o_financialStatus = Some ''paid'', o_fulfillmentStatus = None,
         o_processedAt = Some 1719792000000, o_storeId = ''s1'', o_customerId = None\<rparr>] \<and>
   ex_shopify_503 (customersApiUrl (s_shop ex_store)) (s_accessToken ex_store)
     = Responded \<lparr>r_ok = False, r_text = ''Service Unavailable'', r_json = None,
         r_link = None\<rparr> \<and>
   ex_shopify_503 (ordersApiUrl (s_shop ex_store)) (s_accessToken ex_store)
     = Responded \<lparr>r_ok = False, r_text = ''Service Unavailable'', r_json = None,
         r_link = None\<rparr> \<and>
   trace (state_of (syncHistoricalData ex_shopify_503 no_faults ex_js ex_store ex_empty))
     = [SyncStarting ''a.myshopify.com'', Fetch (customersApiUrl ''a.myshopify.com''),
        FailedFetchCustomers ''Service Unavailable'', Fetch (ordersApiUrl ''a.myshopify.com''),
        FailedFetchOrders ''Service Unavailable''] \<and>
   customers (state_of (syncHistoricalData ex_shopify_503 no_faults ex_js ex_store ex_empty))
     = [] \<and>
   orders (state_of (syncHistoricalData ex_shopify_503 no_faults ex_js ex_store ex_empty))
     = [] \<and>
   ex_shopify_500 (customersApiUrl (s_shop ex_store)) (s_accessToken ex_store)
     = Responded \<lparr>r_ok = True, r_text = [],
         r_json = Some \<lparr>customers_field = Some [ex_customer], orders_field = None\<rparr>,
         r_link = Some ex_link\<rparr> \<and>
   ex_shopify_500 (ordersApiUrl (s_shop ex_store)) (s_accessToken ex_store)
     = Responded \<lparr>r_ok = False, r_text = ''Internal Server Error'', r_json = None,
         r_link = None\<rparr> \<and>
   trace (state_of (syncHistoricalData ex_shopify_500 no_faults ex_js ex_store ex_empty))
     = [SyncStarting ''a.myshopify.com'', Fetch (customersApiUrl ''a.myshopify.com''),
        FetchedCustomers 1, CustomerUpsert ''7'' True, UpsertedCustomers 1,
        Fetch (ordersApiUrl ''a.myshopify.com''),
        FailedFetchOrders ''Internal Server Error''] \<and>
   customers (state_of (syncHistoricalData ex_shopify_500 no_faults ex_js ex_store ex_empty))
     = [\<lparr>c_id = 0, c_shopifyId = ''7'', c_email = Some ''ann@example.com'',
         c_firstName = Some ''Ann'', c_lastName = None, c_storeId = ''s1''\<rparr>] \<and>
   orders (state_of (syncHistoricalData ex_shopify_500 no_faults ex_js ex_store ex_empty))
     = []"
proof -
  have a: "ex_shopify_401 (customersApiUrl (s_shop ex_store)) (s_accessToken ex_store)
     = Responded \<lparr>r_ok = False, r_text = ''Unauthorized'', r_json = None, r_link = None\<rparr>"
    "ex_shopify_401 (ordersApiUrl (s_shop ex_store)) (s_accessToken ex_store)
     = Responded \<lparr>r_ok = True, r_text = [],
         r_json = Some \<lparr>customers_field = None, orders_field = Some [ex_order]\<rparr>,
         r_link = None\<rparr>"
    by (simp_all add: ex_shopify_401_def ex_api_answers ex_store_def)
  have b: "ex_shopify_503 (customersApiUrl (s_shop ex_store)) (s_accessToken ex_store)
     = Responded \<lparr>r_ok = False, r_text = ''Service Unavailable'', r_json = None,
         r_link = None\<rparr>"
    "ex_shopify_503 (ordersApiUrl (s_shop ex_store)) (s_accessToken ex_store)
     = Responded \<lparr>r_ok = False, r_text = ''Service Unavailable'', r_json = None,
         r_link = None\<rparr>"
    by (simp_all add: ex_shopify_503_def)
  have c: "ex_shopify_500 (customersApiUrl (s_shop ex_store)) (s_accessToken ex_store)
     = Responded \<lparr>r_ok = True, r_text = [],
         r_json = Some \<lparr>customers_field = Some [ex_customer], orders_field = None\<rparr>,
         r_link = Some ex_link\<rparr>"
    "ex_shopify_500 (ordersApiUrl (s_shop ex_store)) (s_accessToken ex_store)
     = Responded \<lparr>r_ok = False, r_text = ''Internal Server Error'', r_json = None,
         r_link = None\<rparr>"
    by (simp_all add: ex_shopify_500_def ex_api_answers ex_store_def)
  have e: "trace ex_empty = []" "calls ex_empty = 0" "customers ex_empty = []"
    "orders ex_empty = []" "s_id ex_store = ''s1''" "s_shop ex_store = ''a.myshopify.com''"
    by (simp_all add: ex_empty_def ex_store_def)
  have i: "ro_customer ex_order = Some ''7''" "ro_id ex_order = ''100''"
    "rc_id ex_customer = ''7''"
    by (simp_all add: ex_order_def ex_customer_def)
  have 1: "trace (state_of (syncHistoricalData ex_shopify_401 no_faults ex_js ex_store ex_empty))
     = [SyncStarting ''a.myshopify.com'', Fetch (customersApiUrl ''a.myshopify.com''),
        FailedFetchCustomers ''Unauthorized'', Fetch (ordersApiUrl ''a.myshopify.com''),
        FetchedOrders 1, CustomerFindUnique ''7'' True, OrderUpsert ''100'' True,
        UpsertedOrders 1] \<and>
     tables (state_of (syncHistoricalData ex_shopify_401 no_faults ex_js ex_store ex_empty))
     = tables (apply_order ex_js ''s1'' ex_empty ex_order)"
    using a
      failed_fetch_is_logged [where shopify = ex_shopify_401 and flt = no_faults
        and js = ex_js and st = ex_store and w = ex_empty and os = "[ex_order]"
        and rc = "\<lparr>r_ok = False, r_text = ''Unauthorized'', r_json = None, r_link = None\<rparr>"
        and ro = "\<lparr>r_ok = True, r_text = [],
         r_json = Some \<lparr>customers_field = None, orders_field = Some [ex_order]\<rparr>,
         r_link = None\<rparr>"
        and bo = "\<lparr>customers_field = None, orders_field = Some [ex_order]\<rparr>"]
    by (simp add: e i no_faults_def upsert_events_def upsert_resolves_def ex_processedAt)
  have 2: "trace (state_of (syncHistoricalData ex_shopify_503 no_faults ex_js ex_store ex_empty))
     = [SyncStarting ''a.myshopify.com'', Fetch (customersApiUrl ''a.myshopify.com''),
        FailedFetchCustomers ''Service Unavailable'', Fetch (ordersApiUrl ''a.myshopify.com''),
        FailedFetchOrders ''Service Unavailable''] \<and>
     tables (state_of (syncHistoricalData ex_shopify_503 no_faults ex_js ex_store ex_empty))
     = tables ex_empty"
    using b
      failed_fetch_is_logged [where shopify = ex_shopify_503 and flt = no_faults
        and js = ex_js and st = ex_store and w = ex_empty
        and rc = "\<lparr>r_ok = False, r_text = ''Service Unavailable'', r_json = None,
         r_link = None\<rparr>"
        and ro = "\<lparr>r_ok = False, r_text = ''Service Unavailable'', r_json = None,
         r_link = None\<rparr>"]
    by (simp add: e)
  have 3: "trace (state_of (syncHistoricalData ex_shopify_500 no_faults ex_js ex_store ex_empty))
     = [SyncStarting ''a.myshopify.com'', Fetch (customersApiUrl ''a.myshopify.com''),
        FetchedCustomers 1, CustomerUpsert ''7'' True, UpsertedCustomers 1,
        Fetch (ordersApiUrl ''a.myshopify.com''),
        FailedFetchOrders ''Internal Server Error''] \<and>
     tables (state_of (syncHistoricalData ex_shopify_500 no_faults ex_js ex_store ex_empty))
     = tables (customer_upsert ''s1'' ex_customer ex_empty)"
    using c
      failed_fetch_is_logged [where shopify = ex_shopify_500 and flt = no_faults
        and js = ex_js and st = ex_store and w = ex_empty and cs = "[ex_customer]"
        and rc = "\<lparr>r_ok = True, r_text = [],
         r_json = Some \<lparr>customers_field = Some [ex_customer], orders_field = None\<rparr>,
         r_link = Some ex_link\<rparr>"
        and bc = "\<lparr>customers_field = Some [ex_customer], orders_field = None\<rparr>"
        and ro = "\<lparr>r_ok = False, r_text = ''Internal Server Error'', r_json = None,
         r_link = None\<rparr>"]
    by (simp add: e i no_faults_def)
  show ?thesis
    using a b c 1 2 3
    by (simp add: tables_eq_iff ex_order_applied ex_customer_applied e)
qed

text \<open>
  Claim C3 as stated fails.  The customers endpoint answers 401; the run does not
  abort: it fetches the orders, upserts the order, and returns normally with the
  failure only logged.
\<close>

theorem run_continues_after_failed_fetch:
  "syncHistoricalData ex_shopify_401 no_faults ex_js ex_store ex_empty
   = Returned ()
       \<lparr>stores = [ex_store],
        customers = [],
        orders = [\<lparr>o_id = 0, o_shopifyId = ''100'', o_orderNumber = Some ''#1001'',
                   o_totalPrice = Num (19 / 2), o_currency = Some ''EUR'',
                   o_financialStatus = Some ''paid'', o_fulfillmentStatus = None,
                   o_processedAt = Some 1719792000000, o_storeId = ''s1'',
                   o_customerId = None\<rparr>],
        next_id = 1, calls = 2,
        trace = [SyncStarting ''a.myshopify.com'',
                 Fetch (customersApiUrl ''a.myshopify.com''),
                 FailedFetchCustomers ''Unauthorized'',
                 Fetch (ordersApiUrl ''a.myshopify.com''),
                 FetchedOrders 1, CustomerFindUnique ''7'' True, OrderUpsert ''100'' True,
                 UpsertedOrders 1]\<rparr>"
  by (simp add: syncHistoricalData_def sync_try_def customers_phase_def fetch_orders_then_def
      orders_phase_def ex_shopify_401_def ex_shopify_def ex_store_def ex_empty_def
      no_faults_def ex_order_def order_item_def order_write_def
      order_upsert_def order_findUnique_def customer_findUnique_def order_create_def
      field_create_def processedAt_of_def ex_js_fields ex_prices emit_def tick_def
      ex_page2_url_def customersApiUrl_def ordersApiUrl_def)

subsection \<open>Requests and pages\<close>

lemma serves_lengths: "serves shopify tok us pgs \<Longrightarrow> length pgs = length us"
  by (induction shopify tok us pgs rule: serves.induct) simp_all

lemma fetchAll_loop_serves:
  "serves shopify tok us pgs \<Longrightarrow>
   fetchAll_loop shopify tok results reqs (case us of [] \<Rightarrow> None | u # _ \<Rightarrow> Some u)
   = Some (Returned (results @ concat pgs) (reqs @ us))"
proof (induction us arbitrary: pgs results reqs)
  case Nil
  then have "pgs = []" by (cases pgs) simp_all
  then show ?case by (subst fetchAll_loop.simps) simp
next
  case (Cons u us)
  then obtain pg pgs' where pgs: "pgs = pg # pgs'" by (cases pgs) auto
  from Cons.prems pgs obtain res where res:
    "u \<noteq> []" "shopify u tok = PageResponded res" "p_ok res" "p_data res = Some pg"
    "(case p_link res of None \<Rightarrow> None | Some h \<Rightarrow> next_link h)
     = (case us of [] \<Rightarrow> None | u' # _ \<Rightarrow> Some u')"
    "serves shopify tok us pgs'"
    by (auto split: fetched_page.splits)
  have "fetchAll_loop shopify tok results reqs (Some u)
        = fetchAll_loop shopify tok (results @ pg) (reqs @ [u])
            (case us of [] \<Rightarrow> None | u' # _ \<Rightarrow> Some u')"
    by (subst fetchAll_loop.simps) (simp add: res)
  also have "\<dots> = Some (Returned ((results @ pg) @ concat pgs') ((reqs @ [u]) @ us))"
    by (rule Cons.IH [OF res(6)])
  finally show ?case by (simp add: pgs)
qed

lemma length_concat_uniform:
  "\<forall>pg\<in>set pgs. length pg = m \<Longrightarrow> length (concat pgs) = length pgs * m"
  by (induction pgs) simp_all

lemma customers_phase_outcome:
  "(case customers_phase flt st r w1 of
      Returned _ _ \<Rightarrow> [a, b]
    | Threw _ _ \<Rightarrow> [a])
   = (if r_ok r then
        (case r_json r of
           None \<Rightarrow> [a]
         | Some bd \<Rightarrow> (case customers_field bd of None \<Rightarrow> [a] | Some cs \<Rightarrow> [a, b]))
      else [a, b])"
  by (simp add: customers_phase_def split: option.split)

lemma syncHistoricalData_fetches:
  "filter is_fetch
     (drop (length (trace w)) (trace (state_of (syncHistoricalData shopify flt js st w))))
   = (case shopify (customersApiUrl (s_shop st)) (s_accessToken st) of
        Rejected m \<Rightarrow> [Fetch (customersApiUrl (s_shop st))]
      | Responded r \<Rightarrow>
          if r_ok r then
            (case r_json r of
               None \<Rightarrow> [Fetch (customersApiUrl (s_shop st))]
             | Some bd \<Rightarrow>
                 (case customers_field bd of
                    None \<Rightarrow> [Fetch (customersApiUrl (s_shop st))]
                  | Some cs \<Rightarrow>
                      [Fetch (customersApiUrl (s_shop st)), Fetch (ordersApiUrl (s_shop st))]))
          else [Fetch (customersApiUrl (s_shop st)), Fetch (ordersApiUrl (s_shop st))])"
proof (cases "shopify (customersApiUrl (s_shop st)) (s_accessToken st)")
  case (Rejected m)
  then show ?thesis
    by (simp add: syncHistoricalData_def sync_try_def)
next
  case (Responded r)
  let ?w1 = "emit (Fetch (customersApiUrl (s_shop st))) (emit (SyncStarting (s_shop st)) w)"
  obtain es where es:
    "trace (state_of (customers_phase flt st r ?w1)) = trace ?w1 @ es"
    "\<forall>e\<in>set es. \<not> is_order_op e \<and> \<not> is_fetch e"
    using customers_phase_events by blast
  have nf: "filter is_fetch es = []"
    using es(2) by (simp add: filter_empty_conv)
  have "filter is_fetch
     (drop (length (trace w)) (trace (state_of (syncHistoricalData shopify flt js st w))))
     = (case customers_phase flt st r ?w1 of
          Returned _ _ \<Rightarrow>
            [Fetch (customersApiUrl (s_shop st)), Fetch (ordersApiUrl (s_shop st))]
        | Threw _ _ \<Rightarrow> [Fetch (customersApiUrl (s_shop st))])"
  proof (cases "customers_phase flt st r ?w1")
    case (Threw m w2)
    then show ?thesis
      using Responded es nf by (simp add: syncHistoricalData_def sync_try_def)
  next
    case (Returned u w2)
    obtain es2 where es2:
      "trace (state_of (fetch_orders_then shopify flt js st w2)) = trace w2 @ es2"
      "filter is_fetch es2 = [Fetch (ordersApiUrl (s_shop st))]"
      using fetch_orders_then_events by blast
    show ?thesis
    proof (cases "fetch_orders_then shopify flt js st w2")
      case (Returned u' w3)
      then show ?thesis
        using Responded \<open>customers_phase flt st r ?w1 = Returned u w2\<close> es nf es2
        by (simp add: syncHistoricalData_def sync_try_def)
    next
      case (Threw m w3)
      then show ?thesis
        using Responded \<open>customers_phase flt st r ?w1 = Returned u w2\<close> es nf es2
        by (simp add: syncHistoricalData_def sync_try_def)
    qed
  qed
  then show ?thesis
    using Responded by (simp add: customers_phase_outcome)
qed

text \<open>
  Claim C2, as amended.  The requests of a run of the sync route are determined by
  the answer to the customers request alone: the customers request at the fixed
  first-page URL, followed by the orders request at its fixed first-page URL unless the
  customers request was rejected or its successful response could not be read; no
  other request is made, whatever \<open>link\<close> header a response carries.  When both
  responses are read, the run processes exactly the records of these two responses:
  its events are those of the customer loop on the customers of the first response and
  of the order loop on the orders of the second, and its tables are the result of
  both loops.  The paginated helper \<open>fetchAllFromShopify\<close>, for a collection of \<open>k\<close>
  pages of \<open>m\<close> records each whose pages but the last name the next page, returns
  after exactly \<open>k\<close> requests with exactly \<open>k * m\<close> records, the last request being
  the one whose response has no next link.
\<close>

theorem one_request_per_collection:
  "filter is_fetch
     (drop (length (trace w)) (trace (state_of (syncHistoricalData shopify flt js st w))))
   = (case shopify (customersApiUrl (s_shop st)) (s_accessToken st) of
        Rejected m \<Rightarrow> [Fetch (customersApiUrl (s_shop st))]
      | Responded r \<Rightarrow>
          if r_ok r then
            (case r_json r of
               None \<Rightarrow> [Fetch (customersApiUrl (s_shop st))]
             | Some bd \<Rightarrow>
                 (case customers_field bd of
                    None \<Rightarrow> [Fetch (customersApiUrl (s_shop st))]
                  | Some cs \<Rightarrow>
                      [Fetch (customersApiUrl (s_shop st)), Fetch (ordersApiUrl (s_shop st))]))
          else [Fetch (customersApiUrl (s_shop st)), Fetch (ordersApiUrl (s_shop st))]) \<and>
   (shopify (customersApiUrl (s_shop st)) (s_accessToken st) = Responded rc \<and>
    r_ok rc \<and> r_json rc = Some bc \<and> customers_field bc = Some cs \<and>
    shopify (ordersApiUrl (s_shop st)) (s_accessToken st) = Responded ro \<and>
    r_ok ro \<and> r_json ro = Some bo \<and> orders_field bo = Some os \<longrightarrow>
      trace (state_of (syncHistoricalData shopify flt js st w))
      = trace w
        @ [SyncStarting (s_shop st), Fetch (customersApiUrl (s_shop st)),
           FetchedCustomers (length cs)]
        @ customer_events flt (calls w) cs
        @ [UpsertedCustomers (length cs), Fetch (ordersApiUrl (s_shop st)),
           FetchedOrders (length os)]
        @ order_events flt js (calls w + length cs) os
        @ [UpsertedOrders (length os)] \<and>
      tables (state_of (syncHistoricalData shopify flt js st w))
      = tables (foldl (apply_order js (s_id st))
                  (foldl (\<lambda>v c. customer_upsert (s_id st) c v) w
                     (customers_resolved flt (calls w) cs))
                  (orders_resolved flt js (calls w + length cs) os))) \<and>
   (serves pages tok us pgs \<and> us \<noteq> [] \<and> (\<forall>pg\<in>set pgs. length pg = m) \<longrightarrow>
      fetchAllFromShopify pages (hd us) tok = Some (Returned (concat pgs) us) \<and>
      length us = length pgs \<and> length (concat pgs) = length pgs * m)"
proof (intro conjI impI)
  show "filter is_fetch
     (drop (length (trace w)) (trace (state_of (syncHistoricalData shopify flt js st w))))
   = (case shopify (customersApiUrl (s_shop st)) (s_accessToken st) of
        Rejected m \<Rightarrow> [Fetch (customersApiUrl (s_shop st))]
      | Responded r \<Rightarrow>
          if r_ok r then
            (case r_json r of
               None \<Rightarrow> [Fetch (customersApiUrl (s_shop st))]
             | Some bd \<Rightarrow>
                 (case customers_field bd of
                    None \<Rightarrow> [Fetch (customersApiUrl (s_shop st))]
                  | Some cs \<Rightarrow>
                      [Fetch (customersApiUrl (s_shop st)), Fetch (ordersApiUrl (s_shop st))]))
          else [Fetch (customersApiUrl (s_shop st)), Fetch (ordersApiUrl (s_shop st))])"
    by (rule syncHistoricalData_fetches)
next
  assume a: "shopify (customersApiUrl (s_shop st)) (s_accessToken st) = Responded rc \<and>
    r_ok rc \<and> r_json rc = Some bc \<and> customers_field bc = Some cs \<and>
    shopify (ordersApiUrl (s_shop st)) (s_accessToken st) = Responded ro \<and>
    r_ok ro \<and> r_json ro = Some bo \<and> orders_field bo = Some os"
  then obtain w' where w':
    "syncHistoricalData shopify flt js st w = Returned () w'"
    "trace w'
      = trace w
        @ [SyncStarting (s_shop st), Fetch (customersApiUrl (s_shop st)),
           FetchedCustomers (length cs)]
        @ customer_events flt (calls w) cs
        @ [UpsertedCustomers (length cs), Fetch (ordersApiUrl (s_shop st)),
           FetchedOrders (length os)]
        @ order_events flt js (calls w + length cs) os
        @ [UpsertedOrders (length os)]"
    "tables w'
      = tables (foldl (apply_order js (s_id st))
                  (foldl (\<lambda>v c. customer_upsert (s_id st) c v) w
                     (customers_resolved flt (calls w) cs))
                  (orders_resolved flt js (calls w + length cs) os))"
    using run_both_fetched [of shopify st rc bc cs ro bo os flt js w] by blast
  show "trace (state_of (syncHistoricalData shopify flt js st w))
      = trace w
        @ [SyncStarting (s_shop st), Fetch (customersApiUrl (s_shop st)),
           FetchedCustomers (length cs)]
        @ customer_events flt (calls w) cs
        @ [UpsertedCustomers (length cs), Fetch (ordersApiUrl (s_shop st)),
           FetchedOrders (length os)]
        @ order_events flt js (calls w + length cs) os
        @ [UpsertedOrders (length os)]"
    using w'(2) by (simp add: w'(1))
  show "tables (state_of (syncHistoricalData shopify flt js st w))
      = tables (foldl (apply_order js (s_id st))
                  (foldl (\<lambda>v c. customer_upsert (s_id st) c v) w
                     (customers_resolved flt (calls w) cs))
                  (orders_resolved flt js (calls w + length cs) os))"
    using w'(3) by (simp add: w'(1))
next
  assume a: "serves pages tok us pgs \<and> us \<noteq> [] \<and> (\<forall>pg\<in>set pgs. length pg = m)"
  then obtain u us' where us: "us = u # us'" by (cases us) auto
  show "fetchAllFromShopify pages (hd us) tok = Some (Returned (concat pgs) us)"
    using fetchAll_loop_serves [of pages tok us pgs "[]" "[]"] a us
    by (simp add: fetchAllFromShopify_def)
  show "length us = length pgs"
    using a serves_lengths by fastforce
  show "length (concat pgs) = length pgs * m"
    using a by (simp add: length_concat_uniform)
qed

lemma ex_next_link: "next_link ex_link = Some ex_page2_url"
  by (simp add: ex_link_def ex_page2_url_def match_here_def rel_next_def is_space_def)

lemma ex_run_tables:
  "apply_order ex_js ''s1'' (customer_upsert ''s1'' ex_customer ex_empty) ex_order
   = \<lparr>stores = [ex_store],
      customers =
       [\<lparr>c_id = 0, c_shopifyId = ''7'', c_email = Some ''ann@example.com'',
         c_firstName = Some ''Ann'', c_lastName = None, c_storeId = ''s1''\<rparr>],
      orders =
       [\<lparr>o_id = 1, o_shopifyId = ''100'', o_orderNumber = Some ''#1001'',
         o_totalPrice = Num (19 / 2), o_currency = Some ''EUR'',
         o_financialStatus = Some ''paid'', o_fulfillmentStatus = None,
         o_processedAt = Some 1719792000000, o_storeId = ''s1'', o_customerId = Some 0\<rparr>],
      next_id = 2, calls = 0, trace = []\<rparr>"
  by (simp add: ex_empty_def ex_customer_def customer_upsert_def customer_findUnique_def
      customer_key_def customer_create_def field_create_def apply_order_def processedAt_of_def
      ex_order_def order_upsert_def order_findUnique_def order_key_def order_create_def
      ex_js_fields ex_prices)

text \<open>
  The amended claim C2 at a concrete shop whose customer collection has two pages of
  one record each: the run of the sync route makes two requests and stores the
  customer of the first page and the order; the paginated helper makes two requests
  for the customers and returns both.
\<close>

theorem one_request_per_collection_witness:
  "ex_shopify (customersApiUrl (s_shop ex_store)) (s_accessToken ex_store)
     = Responded \<lparr>r_ok = True, r_text = [],
         r_json = Some \<lparr>customers_field = Some [ex_customer], orders_field = None\<rparr>,
         r_link = Some ex_link\<rparr> \<and>
   ex_shopify (ordersApiUrl (s_shop ex_store)) (s_accessToken ex_store)
     = Responded \<lparr>r_ok = True, r_text = [],
         r_json = Some \<lparr>customers_field = None, orders_field = Some [ex_order]\<rparr>,
         r_link = None\<rparr> \<and>
   filter is_fetch
     (trace (state_of (syncHistoricalData ex_shopify no_faults ex_js ex_store ex_empty)))
     = [Fetch (customersApiUrl ''a.myshopify.com''), Fetch (ordersApiUrl ''a.myshopify.com'')] \<and>
   trace (state_of (syncHistoricalData ex_shopify no_faults ex_js ex_store ex_empty))
     = [SyncStarting ''a.myshopify.com'', Fetch (customersApiUrl ''a.myshopify.com''),
        FetchedCustomers 1, CustomerUpsert ''7'' True, UpsertedCustomers 1,
        Fetch (ordersApiUrl ''a.myshopify.com''),
        FetchedOrders 1, CustomerFindUnique ''7'' True, OrderUpsert ''100'' True,
        UpsertedOrders 1] \<and>
   customers (state_of (syncHistoricalData ex_shopify no_faults ex_js ex_store ex_empty))
     = [\<lparr>c_id = 0, c_shopifyId = ''7'', c_email = Some ''ann@example.com'',
         c_firstName = Some ''Ann'', c_lastName = None, c_storeId = ''s1''\<rparr>] \<and>
   orders (state_of (syncHistoricalData ex_shopify no_faults ex_js ex_store ex_empty))
     = [\<lparr>o_id = 1, o_shopifyId = ''100'', o_orderNumber = Some ''#1001'',
         o_totalPrice = Num (19 / 2), o_currency = Some ''EUR'',
         o_financialStatus = Some ''paid'', o_fulfillmentStatus = None,
         o_processedAt = Some 1719792000000, o_storeId = ''s1'', o_customerId = Some 0\<rparr>] \<and>
   serves ex_pages ''tok'' [customersApiUrl ''a.myshopify.com'', ex_page2_url]
     [[ex_customer], [ex_customer2]] \<and>
   fetchAllFromShopify ex_pages (customersApiUrl ''a.myshopify.com'') ''tok''
     = Some (Returned [ex_customer, ex_customer2]
              [customersApiUrl ''a.myshopify.com'', ex_page2_url])"
proof -
  have h: "ex_shopify (customersApiUrl (s_shop ex_store)) (s_accessToken ex_store)
     = Responded \<lparr>r_ok = True, r_text = [],
         r_json = Some \<lparr>customers_field = Some [ex_customer], orders_field = None\<rparr>,
         r_link = Some ex_link\<rparr>"
    "ex_shopify (ordersApiUrl (s_shop ex_store)) (s_accessToken ex_store)
     = Responded \<lparr>r_ok = True, r_text = [],
         r_json = Some \<lparr>customers_field = None, orders_field = Some [ex_order]\<rparr>,
         r_link = None\<rparr>"
    by (simp_all add: ex_api_answers ex_store_def)
  have n: "customersApiUrl ''a.myshopify.com'' \<noteq> []" "ex_page2_url \<noteq> []"
    "ex_page2_url \<noteq> customersApiUrl ''a.myshopify.com''"
    by (simp_all add: customersApiUrl_def ex_page2_url_def)
  have s: "serves ex_pages ''tok'' [customersApiUrl ''a.myshopify.com'', ex_page2_url]
     [[ex_customer], [ex_customer2]]"
    using n by (simp add: ex_pages_def ex_next_link)
  have e: "trace ex_empty = []" "calls ex_empty = 0" "s_id ex_store = ''s1''"
    "s_shop ex_store = ''a.myshopify.com''"
    by (simp_all add: ex_empty_def ex_store_def)
  have i: "ro_customer ex_order = Some ''7''" "ro_id ex_order = ''100''"
    "rc_id ex_customer = ''7''"
    by (simp_all add: ex_order_def ex_customer_def)
  show ?thesis
    using h s
      one_request_per_collection [where shopify = ex_shopify and flt = no_faults
        and js = ex_js and st = ex_store and w = ex_empty and cs = "[ex_customer]"
        and os = "[ex_order]"
        and rc = "\<lparr>r_ok = True, r_text = [],
         r_json = Some \<lparr>customers_field = Some [ex_customer], orders_field = None\<rparr>,
         r_link = Some ex_link\<rparr>"
        and bc = "\<lparr>customers_field = Some [ex_customer], orders_field = None\<rparr>"
        and ro = "\<lparr>r_ok = True, r_text = [],
         r_json = Some \<lparr>customers_field = None, orders_field = Some [ex_order]\<rparr>,
         r_link = None\<rparr>"
        and bo = "\<lparr>customers_field = None, orders_field = Some [ex_order]\<rparr>"
        and pages = ex_pages and tok = "''tok''"
        and us = "[customersApiUrl ''a.myshopify.com'', ex_page2_url]"
        and pgs = "[[ex_customer], [ex_customer2]]" and m = 1]
    by (simp add: e i no_faults_def upsert_events_def upsert_resolves_def ex_processedAt
        ex_run_tables tables_eq_iff)
qed

text \<open>
  Claim C2 as stated fails for the sync route.  The first page of the customer
  collection names a second page; the run requests the first page and the orders, never
  the second page, and stores one customer of two.
\<close>

theorem sync_route_requests_first_page_only:
  "ex_shopify (customersApiUrl ''a.myshopify.com'') ''tok''
     = Responded \<lparr>r_ok = True, r_text = [],
         r_json = Some \<lparr>customers_field = Some [ex_customer], orders_field = None\<rparr>,
         r_link = Some ex_link\<rparr> \<and>
   next_link ex_link = Some ex_page2_url \<and>
   ex_shopify ex_page2_url ''tok''
     = Responded \<lparr>r_ok = True, r_text = [],
         r_json = Some \<lparr>customers_field = Some [ex_customer2], orders_field = None\<rparr>,
         r_link = None\<rparr> \<and>
   filter is_fetch
     (trace (state_of (syncHistoricalData ex_shopify no_faults ex_js ex_store ex_empty)))
     = [Fetch (customersApiUrl ''a.myshopify.com''), Fetch (ordersApiUrl ''a.myshopify.com'')] \<and>
   map c_shopifyId
     (customers (state_of (syncHistoricalData ex_shopify no_faults ex_js ex_store ex_empty)))
     = [''7'']"
proof -
  have n: "ex_page2_url \<noteq> customersApiUrl ''a.myshopify.com''"
    "ordersApiUrl ''a.myshopify.com'' \<noteq> ex_page2_url"
    by (simp_all add: customersApiUrl_def ordersApiUrl_def ex_page2_url_def)
  have r: "syncHistoricalData ex_shopify no_faults ex_js ex_store ex_empty
   = Returned ()
       \<lparr>stores = [ex_store],
        customers = [\<lparr>c_id = 0, c_shopifyId = ''7'', c_email = Some ''ann@example.com'',
                      c_firstName = Some ''Ann'', c_lastName = None, c_storeId = ''s1''\<rparr>],
        orders = [\<lparr>o_id = 1, o_shopifyId = ''100'', o_orderNumber = Some ''#1001'',
                   o_totalPrice = Num (19 / 2), o_currency = Some ''EUR'',
                   o_financialStatus = Some ''paid'', o_fulfillmentStatus = None,
                   o_processedAt = Some 1719792000000, o_storeId = ''s1'',
                   o_customerId = Some 0\<rparr>],
        next_id = 2, calls = 3,
        trace = [SyncStarting ''a.myshopify.com'',
                 Fetch (customersApiUrl ''a.myshopify.com''),
                 FetchedCustomers 1, CustomerUpsert ''7'' True, UpsertedCustomers 1,
                 Fetch (ordersApiUrl ''a.myshopify.com''),
                 FetchedOrders 1, CustomerFindUnique ''7'' True, OrderUpsert ''100'' True,
                 UpsertedOrders 1]\<rparr>"
    using n
    by (simp add: syncHistoricalData_def sync_try_def customers_phase_def fetch_orders_then_def
      orders_phase_def ex_shopify_def ex_store_def ex_empty_def
      no_faults_def ex_order_def ex_customer_def order_item_def order_write_def
      customer_item_def customer_upsert_def customer_create_def customer_key_def
      order_upsert_def order_findUnique_def customer_findUnique_def order_create_def
      field_create_def processedAt_of_def ex_js_fields ex_prices emit_def tick_def)
  show ?thesis
    using n by (simp add: r ex_next_link) (simp add: ex_shopify_def)
qed

subsection \<open>The responses of the handler\<close>

text \<open>
  Claim C5, as amended.  Once the store is resolved, the response is 202 with the
  message \<open>Sync started\<close> in asynchronous mode and 200 with the message
  \<open>Sync completed\<close> with \<open>wait=true\<close>; in both modes the body is \<open>ok: true\<close> and the
  message and nothing else, whatever the run fetched and whether it failed.
\<close>

theorem sync_response_is_fixed:
  assumes "dbOk req" and "currentUser req = Inr (Some uid)" and "uid \<noteq> []"
    and "resolve_store flt uid (storeIdParam req) (emit (UserRequestingSync uid) w)
         = Returned (Inr st) w1"
  shows "fst (POST shopify flt js req w)
         = \<lparr>status = (if waitParam req = Some ''true'' then 200 else 202),
            body = [(''ok'', JBool True),
                    (''message'', JString (if waitParam req = Some ''true''
                                           then ''Sync completed'' else ''Sync started''))]\<rparr>"
proof -
  let ?w2 = "emit (FoundStore (s_shop st) uid) w1"
  obtain w' where "syncHistoricalData shopify flt js st ?w2 = Returned () w'"
    using syncHistoricalData_returns by blast
  then show ?thesis
    using assms by (simp add: POST_def POST_try_def dispatch_def)
qed

text \<open>
  The branch of the handler for a named store does check the owner: a store it
  resolves is the one named and belongs to the requester.
\<close>

lemma named_store_is_owned:
  assumes "p \<noteq> None" and "p \<noteq> Some []"
    and "resolve_store flt uid p w = Returned (Inr s) w1"
  shows "s_userId s = uid \<and> Some (s_id s) = p"
  using assms
  by (auto simp: resolve_store_def store_query_def store_findUnique_def find_Some_iff
      split: option.splits if_splits)

text \<open>
  The amended claim C5 at a concrete request, in both modes, with a shop that cannot
  be reached.
\<close>

theorem sync_response_is_fixed_witness:
  "dbOk ex_request \<and> currentUser ex_request = Inr (Some ''alice'') \<and>
   resolve_store no_faults ''alice'' (storeIdParam ex_request)
     (emit (UserRequestingSync ''alice'') ex_empty)
     = Returned (Inr ex_store) (tick (emit (UserRequestingSync ''alice'') ex_empty)) \<and>
   fst (POST ex_shopify_down no_faults ex_js ex_request ex_empty)
     = \<lparr>status = 200,
        body = [(''ok'', JBool True), (''message'', JString ''Sync completed'')]\<rparr> \<and>
   fst (POST ex_shopify_down no_faults ex_js (ex_request\<lparr>waitParam := None\<rparr>) ex_empty)
     = \<lparr>status = 202,
        body = [(''ok'', JBool True), (''message'', JString ''Sync started'')]\<rparr>"
proof -
  have h: "dbOk ex_request" "currentUser ex_request = Inr (Some ''alice'')" "''alice'' \<noteq> []"
    "dbOk (ex_request\<lparr>waitParam := None\<rparr>)"
    "currentUser (ex_request\<lparr>waitParam := None\<rparr>) = Inr (Some ''alice'')"
    by (simp_all add: ex_request_def)
  have r: "resolve_store no_faults ''alice'' (storeIdParam ex_request)
     (emit (UserRequestingSync ''alice'') ex_empty)
     = Returned (Inr ex_store) (tick (emit (UserRequestingSync ''alice'') ex_empty))"
    by (simp add: resolve_store_def store_query_def store_findUnique_def no_faults_def
        ex_request_def ex_empty_def ex_store_def)
  have r': "resolve_store no_faults ''alice'' (storeIdParam (ex_request\<lparr>waitParam := None\<rparr>))
     (emit (UserRequestingSync ''alice'') ex_empty)
     = Returned (Inr ex_store) (tick (emit (UserRequestingSync ''alice'') ex_empty))"
    using r by simp
  show ?thesis
    using h r
      sync_response_is_fixed [where shopify = ex_shopify_down and js = ex_js,
        OF h(1,2,3) r]
      sync_response_is_fixed [where shopify = ex_shopify_down and js = ex_js,
        OF h(4,5,3) r']
    by (simp add: ex_request_def)
qed

text \<open>
  Claim C5 as stated fails.  With \<open>wait=true\<close>, a run that fetched one customer and one
  order and a run whose first fetch was rejected get the same response: status 200,
  \<open>ok: true\<close> and the message, with no counts, outcome or error.
\<close>

theorem sync_response_has_no_report:
  "POST ex_shopify no_faults ex_js ex_request ex_empty
   = (\<lparr>status = 200,
       body = [(''ok'', JBool True), (''message'', JString ''Sync completed'')]\<rparr>,
      \<lparr>stores = [ex_store],
        customers = [\<lparr>c_id = 0, c_shopifyId = ''7'', c_email = Some ''ann@example.com'',
                      c_firstName = Some ''Ann'', c_lastName = None, c_storeId = ''s1''\<rparr>],
        orders = [\<lparr>o_id = 1, o_shopifyId = ''100'', o_orderNumber = Some ''#1001'',
                   o_totalPrice = Num (19 / 2), o_currency = Some ''EUR'',
                   o_financialStatus = Some ''paid'', o_fulfillmentStatus = None,
                   o_processedAt = Some 1719792000000, o_storeId = ''s1'',
                   o_customerId = Some 0\<rparr>],
        next_id = 2, calls = 4,
        trace = [UserRequestingSync ''alice'', FoundStore ''a.myshopify.com'' ''alice'',
                 SyncStarting ''a.myshopify.com'',
                 Fetch (customersApiUrl ''a.myshopify.com''),
                 FetchedCustomers 1, CustomerUpsert ''7'' True, UpsertedCustomers 1,
                 Fetch (ordersApiUrl ''a.myshopify.com''),
                 FetchedOrders 1, CustomerFindUnique ''7'' True, OrderUpsert ''100'' True,
                 UpsertedOrders 1]\<rparr>) \<and>
   POST ex_shopify_down no_faults ex_js ex_request ex_empty
   = (\<lparr>status = 200,
       body = [(''ok'', JBool True), (''message'', JString ''Sync completed'')]\<rparr>,
      \<lparr>stores = [ex_store], customers = [], orders = [], next_id = 0, calls = 1,
        trace = [UserRequestingSync ''alice'', FoundStore ''a.myshopify.com'' ''alice'',
                 SyncStarting ''a.myshopify.com'',
                 Fetch (customersApiUrl ''a.myshopify.com''),
                 ErrorDuringSync ''fetch failed'']\<rparr>)"
proof -
  have n: "ex_page2_url \<noteq> customersApiUrl ''a.myshopify.com''"
    "ordersApiUrl ''a.myshopify.com'' \<noteq> ex_page2_url"
    by (simp_all add: customersApiUrl_def ordersApiUrl_def ex_page2_url_def)
  show ?thesis
    using n
    by (simp add: POST_def POST_try_def dispatch_def resolve_store_def store_query_def
      store_findUnique_def ex_request_def
      syncHistoricalData_def sync_try_def customers_phase_def fetch_orders_then_def
      orders_phase_def ex_shopify_def ex_shopify_down_def ex_store_def ex_empty_def
      no_faults_def field_create_def ex_js_fields ex_prices ex_order_def ex_customer_def order_item_def order_write_def
      customer_item_def customer_upsert_def customer_create_def customer_key_def
      order_upsert_def order_findUnique_def customer_findUnique_def order_create_def
      processedAt_of_def emit_def tick_def Let_def)
qed

text \<open>
  Claim C1 at an input where the code breaks it.  The only store belongs to
  \<open>alice\<close>; \<open>bob\<close> is signed in, owns no store and names none; the handler falls back
  to the first store of the table and runs the sync against it.
\<close>

theorem sync_dispatched_on_foreign_store:
  "map s_userId (stores ex_empty) = [''alice''] \<and>
   currentUser ex_request_bob = Inr (Some ''bob'') \<and>
   storeIdParam ex_request_bob = None \<and>
   POST ex_shopify no_faults ex_js ex_request_bob ex_empty
   = (\<lparr>status = 200,
       body = [(''ok'', JBool True), (''message'', JString ''Sync completed'')]\<rparr>,
      \<lparr>stores = [ex_store],
        customers = [\<lparr>c_id = 0, c_shopifyId = ''7'', c_email = Some ''ann@example.com'',
                      c_firstName = Some ''Ann'', c_lastName = None, c_storeId = ''s1''\<rparr>],
        orders = [\<lparr>o_id = 1, o_shopifyId = ''100'', o_orderNumber = Some ''#1001'',
                   o_totalPrice = Num (19 / 2), o_currency = Some ''EUR'',
                   o_financialStatus = Some ''paid'', o_fulfillmentStatus = None,
                   o_processedAt = Some 1719792000000, o_storeId = ''s1'',
                   o_customerId = Some 0\<rparr>],
        next_id = 2, calls = 5,
        trace = [UserRequestingSync ''bob'', FoundStore ''a.myshopify.com'' ''bob'',
                 SyncStarting ''a.myshopify.com'',
                 Fetch (customersApiUrl ''a.myshopify.com''),
                 FetchedCustomers 1, CustomerUpsert ''7'' True, UpsertedCustomers 1,
                 Fetch (ordersApiUrl ''a.myshopify.com''),
                 FetchedOrders 1, CustomerFindUnique ''7'' True, OrderUpsert ''100'' True,
                 UpsertedOrders 1]\<rparr>)"
proof -
  have n: "ex_page2_url \<noteq> customersApiUrl ''a.myshopify.com''"
    "ordersApiUrl ''a.myshopify.com'' \<noteq> ex_page2_url"
    by (simp_all add: customersApiUrl_def ordersApiUrl_def ex_page2_url_def)
  show ?thesis
    using n
    by (simp add: POST_def POST_try_def dispatch_def resolve_store_def store_query_def
      store_findFirst_userId_def store_findFirst_def ex_request_bob_def
      syncHistoricalData_def sync_try_def customers_phase_def fetch_orders_then_def
      orders_phase_def ex_shopify_def ex_store_def ex_empty_def
      no_faults_def field_create_def ex_js_fields ex_prices ex_order_def ex_customer_def order_item_def order_write_def
      customer_item_def customer_upsert_def customer_create_def customer_key_def
      order_upsert_def order_findUnique_def customer_findUnique_def order_create_def
      processedAt_of_def emit_def tick_def Let_def)
qed



subsection \<open>The retry schedule\<close>

lemma withRetry_loop_transient:
  assumes "\<forall>j<n. \<exists>e. fn (i + j) = Inl e \<and> isPoolTimeout (msg e)" and "a + n \<le> retries"
  shows "withRetry_loop msg fn retries b a (i, ds)
         = withRetry_loop msg fn retries b (a + n)
             (i + n, ds @ map (\<lambda>k. b * 2 ^ (k - 1)) [Suc a..<Suc (a + n)])"
  using assms
proof (induction n arbitrary: a i ds)
  case 0
  show ?case by simp
next
  case (Suc n)
  from Suc.prems(1) obtain e where e: "fn i = Inl e" "isPoolTimeout (msg e)"
    by (metis add.right_neutral zero_less_Suc)
  have rest: "\<forall>j<n. \<exists>e. fn (Suc i + j) = Inl e \<and> isPoolTimeout (msg e)"
    using Suc.prems(1) by (metis Suc_less_eq add_Suc_shift)
  have "withRetry_loop msg fn retries b a (i, ds)
        = withRetry_loop msg fn retries b (Suc a) (Suc i, ds @ [b * 2 ^ (Suc a - 1)])"
    using e Suc.prems(2) by (subst withRetry_loop.simps) simp
  also have "\<dots> = withRetry_loop msg fn retries b (Suc a + n)
        (Suc i + n, (ds @ [b * 2 ^ (Suc a - 1)])
           @ map (\<lambda>k. b * 2 ^ (k - 1)) [Suc (Suc a)..<Suc (Suc a + n)])"
    using rest Suc.prems(2) by (intro Suc.IH) simp_all
  finally have "withRetry_loop msg fn retries b a (i, ds)
        = withRetry_loop msg fn retries b (Suc a + n)
            (Suc i + n, ds @ map (\<lambda>k. b * 2 ^ (k - 1))
               (Suc a # [Suc (Suc a)..<Suc (Suc a + n)]))"
    by simp
  moreover have "[Suc a..<Suc (a + Suc n)] = Suc a # [Suc (Suc a)..<Suc (Suc a + n)]"
    by (subst upt_rec) simp
  ultimately show ?case
    by (simp del: upt_Suc)
qed

text \<open>
  Claim C8, as amended.  An operation that fails with a transient error \<open>retries\<close>
  times and then resolves gives its value after \<open>retries\<close> delays, the \<open>n\<close>-th being
  \<open>baseDelayMs * 2^(n-1)\<close>.  After \<open>retries + 1\<close> consecutive transient failures the
  last failure itself is rethrown, after the same \<open>retries\<close> delays.  A first failure
  that is not transient is rethrown at once, with no delay and no further invocation.
\<close>

theorem withRetry_schedule:
  "((\<forall>i<retries. \<exists>e. fn i = Inl e \<and> isPoolTimeout (msg e)) \<and> fn retries = Inr v \<longrightarrow>
      withRetry msg fn label retries baseDelayMs
      = (Inr v, Suc retries, map (\<lambda>n. baseDelayMs * 2 ^ (n - 1)) [1..<Suc retries])) \<and>
   ((\<forall>i\<le>retries. \<exists>e. fn i = Inl e \<and> isPoolTimeout (msg e)) \<longrightarrow>
      withRetry msg fn label retries baseDelayMs
      = (fn retries, Suc retries, map (\<lambda>n. baseDelayMs * 2 ^ (n - 1)) [1..<Suc retries])) \<and>
   (fn 0 = Inl err \<and> \<not> isPoolTimeout (msg err) \<longrightarrow>
      withRetry msg fn label retries baseDelayMs = (Inl err, 1, []))"
proof (intro conjI impI)
  assume a: "(\<forall>i<retries. \<exists>e. fn i = Inl e \<and> isPoolTimeout (msg e)) \<and> fn retries = Inr v"
  have "withRetry_loop msg fn retries baseDelayMs 0 (0, [])
        = withRetry_loop msg fn retries baseDelayMs (0 + retries)
            (0 + retries, [] @ map (\<lambda>k. baseDelayMs * 2 ^ (k - 1)) [Suc 0..<Suc (0 + retries)])"
    using a by (intro withRetry_loop_transient) simp_all
  also have "\<dots> = (Inr v, Suc retries, map (\<lambda>n. baseDelayMs * 2 ^ (n - 1)) [1..<Suc retries])"
    using a by (subst withRetry_loop.simps) simp
  finally show "withRetry msg fn label retries baseDelayMs
      = (Inr v, Suc retries, map (\<lambda>n. baseDelayMs * 2 ^ (n - 1)) [1..<Suc retries])"
    by (simp add: withRetry_def)
next
  assume a: "\<forall>i\<le>retries. \<exists>e. fn i = Inl e \<and> isPoolTimeout (msg e)"
  then obtain e where e: "fn retries = Inl e" by blast
  have "withRetry_loop msg fn retries baseDelayMs 0 (0, [])
        = withRetry_loop msg fn retries baseDelayMs (0 + retries)
            (0 + retries, [] @ map (\<lambda>k. baseDelayMs * 2 ^ (k - 1)) [Suc 0..<Suc (0 + retries)])"
    using a by (intro withRetry_loop_transient) simp_all
  also have "\<dots> = (fn retries, Suc retries,
                    map (\<lambda>n. baseDelayMs * 2 ^ (n - 1)) [1..<Suc retries])"
    using e by (subst withRetry_loop.simps) simp
  finally show "withRetry msg fn label retries baseDelayMs
      = (fn retries, Suc retries, map (\<lambda>n. baseDelayMs * 2 ^ (n - 1)) [1..<Suc retries])"
    by (simp add: withRetry_def)
next
  assume "fn 0 = Inl err \<and> \<not> isPoolTimeout (msg err)"
  then show "withRetry msg fn label retries baseDelayMs = (Inl err, 1, [])"
    by (subst withRetry_def, subst withRetry_loop.simps) simp
qed

text \<open>
  The amended claim C8 with three retries and a base delay of 200 ms.
\<close>

theorem withRetry_schedule_witness:
  "map ex_operation [0, 1, 2, 3]
     = [Inl (Error ''Timed out fetching a new connection''),
        Inl (Error ''Timed out fetching a new connection''),
        Inl (Error ''Timed out fetching a new connection''), Inr 42] \<and>
   isPoolTimeout (message (Error ''Timed out fetching a new connection'')) \<and>
   withRetry message ex_operation ''store.findFirst'' 3 200 = (Inr 42, 4, [200, 400, 800]) \<and>
   map ex_pool_down [0, 1, 2, 3]
     = [Inl (Error ''P2024''), Inl (Error ''P2024''), Inl (Error ''P2024''),
        Inl (Error ''P2024'')] \<and>
   isPoolTimeout (message (Error ''P2024'')) \<and>
   withRetry message ex_pool_down ''store.findFirst'' 3 200
     = (Inl (Error ''P2024''), 4, [200, 400, 800]) \<and>
   ex_constraint 0 = Inl (Error ''Unique constraint failed'') \<and>
   \<not> isPoolTimeout (message (Error ''Unique constraint failed'')) \<and>
   withRetry message ex_constraint ''store.findFirst'' 3 200
     = (Inl (Error ''Unique constraint failed''), 1, [])"
proof -
  have h1: "(\<forall>i<3. \<exists>e. ex_operation i = Inl e \<and> isPoolTimeout (message e)) \<and>
            ex_operation 3 = Inr 42"
    by (simp add: ex_operation_def isPoolTimeout_def)
  have h2: "\<forall>i\<le>3. \<exists>e. ex_pool_down i = Inl e \<and> isPoolTimeout (message e)"
    by (simp add: ex_pool_down_def isPoolTimeout_def)
  have h3: "ex_constraint 0 = Inl (Error ''Unique constraint failed'') \<and>
            \<not> isPoolTimeout (message (Error ''Unique constraint failed''))"
    by (simp add: ex_constraint_def isPoolTimeout_def)
  have u: "map (\<lambda>n. (200::nat) * 2 ^ (n - Suc 0)) [Suc 0..<4] = [200, 400, 800]"
    by code_simp
  show ?thesis
    using h1 h2 h3
      withRetry_schedule [where msg = message and fn = ex_operation
        and label = "''store.findFirst''" and retries = 3 and baseDelayMs = 200 and v = 42,
        THEN conjunct1]
      withRetry_schedule [where msg = message and fn = ex_pool_down
        and label = "''store.findFirst''" and retries = 3 and baseDelayMs = 200,
        THEN conjunct2, THEN conjunct1]
      withRetry_schedule [where msg = message and fn = ex_constraint
        and label = "''store.findFirst''" and retries = 3 and baseDelayMs = 200
        and err = "Error ''Unique constraint failed''", THEN conjunct2, THEN conjunct2]
    by (simp add: u) (simp add: ex_pool_down_def ex_operation_def isPoolTimeout_def)
qed

text \<open>
  Claim C8 as stated fails on exhaustion: after four pool timeouts the error thrown is
  the operation's own error, not a \<open>RetryExhaustedError\<close>.
\<close>

theorem exhaustion_rethrows_the_last_failure:
  "withRetry message ex_pool_down ''store.findFirst'' 3 200
     = (Inl (Error ''P2024''), 4, [200, 400, 800]) \<and>
   \<not> is_RetryExhaustedError (Error ''P2024'')"
  by (simp add: withRetry_def withRetry_loop.simps ex_pool_down_def isPoolTimeout_def)

end
